(* ===== verification/Prelude.thy ===== *)
theory Prelude
  imports Main "HOL-Library.Word"
begin

text \<open>
  What every component shares: names for Rust's machine integers and byte vectors, the
  result type, the collections of simplification rules the component theories fill, big
  endian fields as Rust's \<open>to_be_bytes\<close> and \<open>from_be_bytes\<close> write and read them, and the
  contract such a field keeps.
\<close>

unbundle bit_operations_syntax

section \<open>Types and rule collections\<close>

type_synonym u8 = "8 word"
type_synonym u16 = "16 word"
type_synonym u32 = "32 word"
type_synonym u64 = "64 word"
type_synonym bytes = "8 word list"

text \<open>Rust's \<open>Result<T, E>\<close>: \<open>Inl\<close> is \<open>Err\<close>, \<open>Inr\<close> is \<open>Ok\<close>.\<close>

type_synonym ('e, 'a) result = "'e + 'a"

abbreviation Err :: "'e \<Rightarrow> ('e, 'a) result" where "Err \<equiv> Inl"
abbreviation Ok :: "'a \<Rightarrow> ('e, 'a) result" where "Ok \<equiv> Inr"

named_theorems wire_simps \<open>layout of byte strings on the wire\<close>
named_theorems dm_simps \<open>effects of the device manager's operations\<close>
named_theorems conn_simps \<open>effects of the connection's handlers\<close>

section \<open>Strings are their UTF-8 bytes\<close>

text \<open>
  A Rust \<open>String\<close> is modelled by its UTF-8 bytes, a HOL \<open>char\<close> being one byte.
  \<open>as_bytes\<close> is \<open>str::as_bytes\<close>.
\<close>

definition as_bytes :: "string \<Rightarrow> bytes" where
  "as_bytes s = map (\<lambda>c. of_char c) s"

definition of_bytes :: "bytes \<Rightarrow> string" where
  "of_bytes bs = map (\<lambda>b. char_of (unat b)) bs"

lemma length_as_bytes [simp]: "length (as_bytes s) = length s"
  by (simp add: as_bytes_def)

lemma as_bytes_append [simp]: "as_bytes (s @ t) = as_bytes s @ as_bytes t"
  by (simp add: as_bytes_def)

lemma unat_of_char: "unat (of_char c :: u8) = of_char c"
proof -
  have "(of_char c :: u8) = of_nat (of_char c)"
    by (simp only: of_nat_of_char)
  moreover have "(of_char c :: nat) < 256"
    using of_char_mod_256 [of c, where ?'a = nat] by (metis mod_less_divisor zero_less_numeral)
  ultimately show ?thesis
    by (simp add: unat_of_nat)
qed

lemma of_bytes_as_bytes [simp]: "of_bytes (as_bytes s) = s"
  by (simp add: of_bytes_def as_bytes_def unat_of_char comp_def)

lemma as_bytes_inject [simp]: "as_bytes s = as_bytes t \<longleftrightarrow> s = t"
  by (metis of_bytes_as_bytes)

section \<open>Big endian fields\<close>

text \<open>\<open>u16::to_be_bytes\<close>, \<open>u32::to_be_bytes\<close> and their inverses on byte arrays.\<close>

definition to_be16 :: "u16 \<Rightarrow> bytes" where
  "to_be16 w = [ucast (drop_bit 8 w), ucast w]"

definition to_be32 :: "u32 \<Rightarrow> bytes" where
  "to_be32 w = [ucast (drop_bit 24 w), ucast (drop_bit 16 w), ucast (drop_bit 8 w), ucast w]"

definition from_be16 :: "u8 \<Rightarrow> u8 \<Rightarrow> u16" where
  "from_be16 a b = push_bit 8 (ucast a) OR ucast b"

definition from_be32 :: "u8 \<Rightarrow> u8 \<Rightarrow> u8 \<Rightarrow> u8 \<Rightarrow> u32" where
  "from_be32 a b c d =
     push_bit 24 (ucast a) OR push_bit 16 (ucast b) OR push_bit 8 (ucast c) OR ucast d"

text \<open>A field read at an offset of a buffer, as the code indexes it.\<close>

definition be16_at :: "bytes \<Rightarrow> nat \<Rightarrow> u16" where
  "be16_at bs n = from_be16 (bs ! n) (bs ! (n + 1))"

definition be32_at :: "bytes \<Rightarrow> nat \<Rightarrow> u32" where
  "be32_at bs n = from_be32 (bs ! n) (bs ! (n + 1)) (bs ! (n + 2)) (bs ! (n + 3))"

definition u8_at :: "bytes \<Rightarrow> nat \<Rightarrow> u8" where
  "u8_at bs n = bs ! n"

text \<open>
  The contract of a fixed-width field: written values have the width, and reading at the
  offset where one was written gives it back, whatever surrounds it.
\<close>

locale wire_field =
  fixes put :: "'a \<Rightarrow> bytes" and get_at :: "bytes \<Rightarrow> nat \<Rightarrow> 'a" and width :: nat
  assumes length_put: "length (put x) = width"
    and get_put: "get_at (put x) 0 = x"
    and get_shift: "get_at (pre @ bs) (length pre + n) = get_at bs n"
    and get_prefix: "n + width \<le> length bs \<Longrightarrow> get_at (bs @ post) n = get_at bs n"
begin

lemma get_here: "get_at (put x @ post) 0 = x"
  by (subst get_prefix) (simp_all add: length_put get_put)

lemma get_after: "length pre = n \<Longrightarrow> get_at (pre @ put x @ post) n = x"
  using get_shift [of pre "put x @ post" 0] by (simp add: get_here)

lemma get_skip: "length pre = k \<Longrightarrow> k \<le> n \<Longrightarrow> get_at (pre @ bs) n = get_at bs (n - k)"
  using get_shift [of pre bs "n - k"] by simp

end

lemma from_to_be16: "from_be16 (ucast (drop_bit 8 w)) (ucast w) = w"
  unfolding from_be16_def by (rule bit_word_eqI) (auto simp: bit_simps)

lemma from_to_be32:
  "from_be32 (ucast (drop_bit 24 w)) (ucast (drop_bit 16 w)) (ucast (drop_bit 8 w)) (ucast w) = w"
proof (rule bit_word_eqI)
  fix n :: nat
  assume "n < LENGTH(32)"
  then consider "n < 8" | "8 \<le> n \<and> n < 16" | "16 \<le> n \<and> n < 24" | "24 \<le> n \<and> n < 32"
    by fastforce
  then show "bit (from_be32 (ucast (drop_bit 24 w)) (ucast (drop_bit 16 w))
      (ucast (drop_bit 8 w)) (ucast w)) n = bit w n"
    by cases (auto simp: from_be32_def bit_simps)
qed

lemma length_to_be16 [simp]: "length (to_be16 w) = 2"
  by (simp add: to_be16_def)

lemma length_to_be32 [simp]: "length (to_be32 w) = 4"
  by (simp add: to_be32_def)

interpretation be16: wire_field to_be16 be16_at 2
  by unfold_locales
    (simp_all add: be16_at_def to_be16_def from_to_be16 nth_append)

interpretation be32: wire_field to_be32 be32_at 4
  by unfold_locales
    (simp_all add: be32_at_def to_be32_def from_to_be32 nth_append)

interpretation byte: wire_field "\<lambda>b. [b]" u8_at 1
  by unfold_locales (simp_all add: u8_at_def nth_append)

end
