(* ===== verification/RustStd.thy ===== *)
theory RustStd
  imports Prelude
begin

text \<open>
  The part of Rust's standard library the sources use on strings: formatting integers
  (\<open>{}\<close>, \<open>{:x}\<close> with zero padding, \<open>{:<w}\<close>), parsing them (\<open>from_str_radix\<close>, \<open>parse\<close>),
  and \<open>trim\<close>, \<open>lines\<close>, \<open>split_whitespace\<close>, \<open>split\<close>, \<open>strip_prefix\<close>, \<open>replace\<close> and slicing
  with its check that the bounds are character boundaries. White space is the ASCII part of
  Rust's \<open>White_Space\<close>, which is all the kernel's sysfs files hold.
\<close>

section \<open>Formatting integers\<close>

definition digit_char :: "nat \<Rightarrow> char" where
  "digit_char d = char_of (if d < 10 then 48 + d else 87 + d)"

fun radix_str :: "nat \<Rightarrow> nat \<Rightarrow> string" where
  "radix_str b n =
     (if n < b \<or> b < 2 then [digit_char n]
      else radix_str b (n div b) @ [digit_char (n mod b)])"

declare radix_str.simps [simp del]

abbreviation dec_str :: "nat \<Rightarrow> string" where "dec_str \<equiv> radix_str 10"
abbreviation hex_str :: "nat \<Rightarrow> string" where "hex_str \<equiv> radix_str 16"

text \<open>\<open>{}\<close> of an unsigned integer.\<close>

definition show_word :: "'a::len word \<Rightarrow> string" where
  "show_word w = dec_str (unat w)"

text \<open>\<open>{:0wx}\<close>.\<close>

definition zero_pad :: "nat \<Rightarrow> string \<Rightarrow> string" where
  "zero_pad w s = replicate (w - length s) (CHR ''0'') @ s"

definition hex_pad :: "nat \<Rightarrow> 'a::len word \<Rightarrow> string" where
  "hex_pad w x = zero_pad w (hex_str (unat x))"

text \<open>\<open>{:<w}\<close> pads by characters, which are the bytes that do not continue one.\<close>

definition continuation :: "char \<Rightarrow> bool" where
  "continuation c \<longleftrightarrow> 128 \<le> (of_char c :: nat) \<and> (of_char c :: nat) < 192"

definition char_count :: "string \<Rightarrow> nat" where
  "char_count s = length (filter (\<lambda>c. \<not> continuation c) s)"

definition pad_right :: "nat \<Rightarrow> string \<Rightarrow> string" where
  "pad_right w s = s @ replicate (w - char_count s) (CHR '' '')"

text \<open>\<open>{}\<close> of an \<open>i32\<close>.\<close>

definition show_i32 :: "32 word \<Rightarrow> string" where
  "show_i32 fd = (if sint fd < 0 then ''-'' @ dec_str (nat (- sint fd)) else dec_str (nat (sint fd)))"

section \<open>Parsing integers\<close>

datatype ParseIntError = IntEmpty | IntInvalidDigit | IntPosOverflow

fun parse_int_error :: "ParseIntError \<Rightarrow> string" where
  "parse_int_error IntEmpty = ''cannot parse integer from empty string''"
| "parse_int_error IntInvalidDigit = ''invalid digit found in string''"
| "parse_int_error IntPosOverflow = ''number too large to fit in target type''"

definition to_digit :: "nat \<Rightarrow> char \<Rightarrow> nat option" where
  "to_digit radix c =
     (let n = of_char c :: nat;
          d = (if 48 \<le> n \<and> n \<le> 57 then n - 48
               else if 97 \<le> n \<and> n \<le> 122 then n - 87
               else if 65 \<le> n \<and> n \<le> 90 then n - 55
               else radix)
      in if d < radix then Some d else None)"

fun parse_digits :: "nat \<Rightarrow> nat \<Rightarrow> nat \<Rightarrow> string \<Rightarrow> (ParseIntError, nat) result" where
  "parse_digits radix bound acc [] = Ok acc"
| "parse_digits radix bound acc (c # cs) =
     (case to_digit radix c of
        None \<Rightarrow> Err IntInvalidDigit
      | Some d \<Rightarrow>
          if bound < acc * radix + d then Err IntPosOverflow
          else parse_digits radix bound (acc * radix + d) cs)"

text \<open>
  \<open>from_str_radix\<close> of an unsigned type whose greatest value is \<open>bound\<close>: one leading plus
  sign is accepted, a lone sign is not a digit, and a minus sign is none either.
\<close>

definition from_str_radix :: "nat \<Rightarrow> nat \<Rightarrow> string \<Rightarrow> (ParseIntError, nat) result" where
  "from_str_radix radix bound s =
     (if s = [] then Err IntEmpty
      else if s = ''+'' \<or> s = ''-'' then Err IntInvalidDigit
      else if hd s = CHR ''+'' then parse_digits radix bound 0 (tl s)
      else parse_digits radix bound 0 s)"

definition parse_word :: "nat \<Rightarrow> string \<Rightarrow> (ParseIntError, 'a::len word) result" where
  "parse_word radix s = map_sum id of_nat (from_str_radix radix (2 ^ LENGTH('a) - 1) s)"

text \<open>\<open>Result::ok\<close>.\<close>

fun ok :: "('e, 'a) result \<Rightarrow> 'a option" where
  "ok (Inl e) = None"
| "ok (Inr a) = Some a"

definition parse_ok :: "string \<Rightarrow> 'a::len word option" where
  "parse_ok s = ok (parse_word 10 s)"

section \<open>Taking strings apart\<close>

definition is_ws :: "char \<Rightarrow> bool" where
  "is_ws c \<longleftrightarrow> (9 \<le> (of_char c :: nat) \<and> (of_char c :: nat) \<le> 13) \<or> c = CHR '' ''"

definition trim :: "string \<Rightarrow> string" where
  "trim s = rev (dropWhile is_ws (rev (dropWhile is_ws s)))"

fun split_on :: "('a \<Rightarrow> bool) \<Rightarrow> 'a list \<Rightarrow> 'a list list" where
  "split_on p [] = [[]]"
| "split_on p (c # cs) =
     (if p c then [] # split_on p cs
      else (case split_on p cs of [] \<Rightarrow> [[c]] | x # xs \<Rightarrow> (c # x) # xs))"

definition split_whitespace :: "string \<Rightarrow> string list" where
  "split_whitespace s = filter (\<lambda>x. x \<noteq> []) (split_on is_ws s)"

abbreviation newline :: char where "newline \<equiv> CHR 0x0A"
abbreviation carriage_return :: char where "carriage_return \<equiv> CHR 0x0D"

definition strip_cr :: "string \<Rightarrow> string" where
  "strip_cr l = (if l \<noteq> [] \<and> last l = carriage_return then butlast l else l)"

text \<open>\<open>str::lines\<close>: a final line without a newline keeps its carriage return.\<close>

definition str_lines :: "string \<Rightarrow> string list" where
  "str_lines s =
     (let ls = split_on (\<lambda>c. c = newline) s
      in map strip_cr (butlast ls) @ (if last ls = [] then [] else [last ls]))"

definition strip_prefix :: "string \<Rightarrow> string \<Rightarrow> string option" where
  "strip_prefix p s = (if take (length p) s = p then Some (drop (length p) s) else None)"

fun trim_start_matches :: "string \<Rightarrow> string \<Rightarrow> string" where
  "trim_start_matches p s =
     (if p \<noteq> [] \<and> s \<noteq> [] \<and> take (length p) s = p
      then trim_start_matches p (drop (length p) s) else s)"

declare trim_start_matches.simps [simp del]

text \<open>\<open>replace(p, "")\<close> for a non-empty string pattern, matches taken from the left.\<close>

fun remove_all :: "string \<Rightarrow> string \<Rightarrow> string" where
  "remove_all p [] = []"
| "remove_all p (c # cs) =
     (if p \<noteq> [] \<and> take (length p) (c # cs) = p
      then remove_all p (drop (length p) (c # cs))
      else c # remove_all p cs)"

definition is_char_boundary :: "string \<Rightarrow> nat \<Rightarrow> bool" where
  "is_char_boundary s i \<longleftrightarrow>
     i = 0 \<or> i = length s \<or> (i < length s \<and> \<not> continuation (s ! i))"

text \<open>\<open>&s[i..j]\<close>; \<open>None\<close> is the panic.\<close>

definition slice :: "string \<Rightarrow> nat \<Rightarrow> nat \<Rightarrow> string option" where
  "slice s i j =
     (if i \<le> j \<and> is_char_boundary s i \<and> is_char_boundary s j
      then Some (take (j - i) (drop i s)) else None)"

text \<open>What \<open>println!\<close> adds to the output.\<close>

definition println :: "string \<Rightarrow> string" where
  "println s = s @ [newline]"

section \<open>Facts on formatting and parsing\<close>

text \<open>Evaluating the formatting of a concrete number.\<close>

lemmas dec_eval = show_word_def radix_str.simps [of 10] digit_char_def char_of_def bit_0
lemmas hex_eval = hex_pad_def zero_pad_def radix_str.simps [of 16] digit_char_def char_of_def bit_0

text \<open>
  What is written is read back: a number printed in a radix up to 16, with any zero padding
  and any bound above it, parses to itself. The digits written are digits or lower case
  letters, so none is white space, a sign, or one of the letters the option parsers strip.
\<close>

definition digit_class :: "char \<Rightarrow> bool" where
  "digit_class c \<longleftrightarrow>
     (48 \<le> (of_char c :: nat) \<and> (of_char c :: nat) \<le> 57) \<or>
     (97 \<le> (of_char c :: nat) \<and> (of_char c :: nat) \<le> 102)"

lemma digit_class_digit_char [simp]: "d < 16 \<Longrightarrow> digit_class (digit_char d)"
  by (auto simp: digit_class_def digit_char_def)

lemma to_digit_digit_char [simp]:
  "d < radix \<Longrightarrow> radix \<le> 16 \<Longrightarrow> to_digit radix (digit_char d) = Some d"
  by (auto simp: to_digit_def digit_char_def Let_def)

lemma digit_class_plain:
  assumes "digit_class c"
  shows "c \<noteq> CHR ''+''" "c \<noteq> CHR ''x''" "c \<noteq> CHR ''X''" "c \<noteq> CHR ''-''" "c \<noteq> CHR '':''"
    "\<not> is_ws c" "\<not> continuation c" "c \<noteq> newline" "c \<noteq> carriage_return"
  using assms by (auto simp: digit_class_def is_ws_def continuation_def)

lemma radix_str_not_Nil [simp]: "radix_str b n \<noteq> []"
  by (subst radix_str.simps) simp

lemma radix_str_digits:
  "2 \<le> b \<Longrightarrow> b \<le> 16 \<Longrightarrow> c \<in> set (radix_str b n) \<Longrightarrow> digit_class c"
proof (induction b n arbitrary: c rule: radix_str.induct)
  case (1 b n)
  show ?case
  proof (cases "n < b")
    case True
    with 1 show ?thesis by (subst (asm) (2) radix_str.simps) auto
  next
    case False
    then have "radix_str b n = radix_str b (n div b) @ [digit_char (n mod b)]"
      using "1.prems"(1) by (subst radix_str.simps) simp
    moreover have "n mod b < b" using 1 by simp
    then have "n mod b < 16" using "1.prems"(2) by linarith
    ultimately show ?thesis using 1 False by auto
  qed
qed

lemma zero_pad_digits:
  "\<forall>c \<in> set s. digit_class c \<Longrightarrow> c \<in> set (zero_pad w s) \<Longrightarrow> digit_class c"
  by (auto simp: zero_pad_def digit_class_def)

lemma hex_pad_digits: "c \<in> set (hex_pad w x) \<Longrightarrow> digit_class c"
  unfolding hex_pad_def by (erule zero_pad_digits [rotated]) (auto intro: radix_str_digits [of 16])

lemma hex_pad_not_Nil [simp]: "hex_pad w x \<noteq> []"
  by (simp add: hex_pad_def zero_pad_def)

lemma parse_digits_append:
  "parse_digits r m acc (s @ t) =
     (case parse_digits r m acc s of Inl e \<Rightarrow> Inl e | Inr a \<Rightarrow> parse_digits r m a t)"
  by (induction r m acc s rule: parse_digits.induct) (auto split: option.splits)

lemma parse_digits_radix_str:
  "2 \<le> b \<Longrightarrow> b \<le> 16 \<Longrightarrow> n \<le> bound \<Longrightarrow> parse_digits b bound 0 (radix_str b n) = Ok n"
proof (induction b n rule: radix_str.induct)
  case (1 b n)
  show ?case
  proof (cases "n < b")
    case True
    with 1 show ?thesis by (subst radix_str.simps) simp
  next
    case False
    have "n div b * b + n mod b = n" by simp
    moreover have "n div b \<le> bound" using 1 by (meson div_le_dividend le_trans)
    moreover have "n mod b < b" using 1 by simp
    ultimately show ?thesis using 1 False
      by (subst radix_str.simps) (simp add: parse_digits_append)
  qed
qed

lemma parse_digits_zeros:
  "2 \<le> b \<Longrightarrow> b \<le> 16 \<Longrightarrow> parse_digits b m 0 (replicate k (CHR ''0'') @ s) = parse_digits b m 0 s"
  by (induction k) (auto simp: to_digit_def)

lemma parse_digits_zero_pad:
  "2 \<le> b \<Longrightarrow> b \<le> 16 \<Longrightarrow> n \<le> bound \<Longrightarrow> parse_digits b bound 0 (zero_pad w (radix_str b n)) = Ok n"
  by (simp add: zero_pad_def parse_digits_zeros parse_digits_radix_str)

lemma from_str_radix_digits:
  "s \<noteq> [] \<Longrightarrow> \<forall>c \<in> set s. digit_class c \<Longrightarrow> from_str_radix r m s = parse_digits r m 0 s"
  by (cases s) (auto simp: from_str_radix_def dest: digit_class_plain)

lemma from_str_radix_radix_str:
  "2 \<le> b \<Longrightarrow> b \<le> 16 \<Longrightarrow> n \<le> bound \<Longrightarrow> from_str_radix b bound (radix_str b n) = Ok n"
  by (subst from_str_radix_digits) (auto simp: parse_digits_radix_str intro: radix_str_digits)

lemma from_str_radix_zero_pad:
  assumes "2 \<le> b" "b \<le> 16" "n \<le> bound"
  shows "from_str_radix b bound (zero_pad w (radix_str b n)) = Ok n"
proof -
  have "\<forall>c \<in> set (zero_pad w (radix_str b n)). digit_class c"
    using radix_str_digits [OF assms(1,2)] zero_pad_digits by blast
  moreover have "zero_pad w (radix_str b n) \<noteq> []" by (simp add: zero_pad_def)
  ultimately have "from_str_radix b bound (zero_pad w (radix_str b n)) =
      parse_digits b bound 0 (zero_pad w (radix_str b n))"
    by (intro from_str_radix_digits)
  with assms show ?thesis by (simp add: parse_digits_zero_pad)
qed

lemma unat_le_bound: "unat (w :: 'a::len word) \<le> 2 ^ LENGTH('a) - 1"
proof -
  have "unat w < 2 ^ LENGTH('a)" by (rule unsigned_less)
  then show ?thesis by linarith
qed

lemma parse_word_radix_str:
  "2 \<le> b \<Longrightarrow> b \<le> 16 \<Longrightarrow> parse_word b (radix_str b (unat (w :: 'a::len word))) = Ok w"
  using from_str_radix_radix_str [OF _ _ unat_le_bound [of w]] by (simp add: parse_word_def)

lemma parse_word_show [simp]: "parse_word 10 (show_word (w :: 'a::len word)) = Ok w"
  by (simp add: show_word_def parse_word_radix_str)

lemma parse_ok_show [simp]: "parse_ok (show_word (w :: 'a::len word)) = Some w"
  by (simp add: parse_ok_def)

lemma parse_word_hex_pad [simp]: "parse_word 16 (hex_pad k (w :: 'a::len word)) = Ok w"
  using from_str_radix_zero_pad [OF _ _ unat_le_bound [of w], of 16 k]
  by (simp add: parse_word_def hex_pad_def)

section \<open>Facts on taking strings apart\<close>

lemma strip_prefix_append [simp]: "strip_prefix p (p @ s) = Some s"
  by (simp add: strip_prefix_def)

lemma strip_prefix_Some: "strip_prefix p s = Some r \<longleftrightarrow> s = p @ r"
  by (auto simp: strip_prefix_def) (metis append_take_drop_id)

lemma split_on_not_Nil [simp]: "split_on p s \<noteq> []"
  by (induction s) (auto split: list.splits)

lemma split_on_clean: "\<forall>c \<in> set s. \<not> p c \<Longrightarrow> split_on p s = [s]"
  by (induction s) auto

lemma split_on_append_sep:
  "\<forall>c \<in> set s. \<not> p c \<Longrightarrow> p d \<Longrightarrow> split_on p (s @ d # t) = s # split_on p t"
  by (induction s) auto

lemma split_on_pieces_clean: "x \<in> set (split_on p s) \<Longrightarrow> c \<in> set x \<Longrightarrow> \<not> p c"
  by (induction s arbitrary: x c) (auto split: if_splits list.splits, metis list.set_intros)

lemma remove_all_clean:
  "p \<noteq> [] \<Longrightarrow> last p \<notin> set s \<Longrightarrow> remove_all p s = s"
proof (induction p s rule: remove_all.induct)
  case (2 p c cs)
  have "take (length p) (c # cs) \<noteq> p"
    using 2(3,4) by (metis in_set_takeD last_in_set)
  with 2 show ?case by simp
qed simp

lemma trim_clean:
  assumes "s \<noteq> []" "\<not> is_ws (hd s)" "\<not> is_ws (last s)"
  shows "trim s = s"
proof -
  from assms(1,2) have "dropWhile is_ws s = s" by (cases s) auto
  moreover from assms(1,3) have "dropWhile is_ws (rev s) = rev s"
    by (cases s rule: rev_cases) auto
  ultimately show ?thesis by (simp add: trim_def)
qed

lemma split_whitespace_sep: "is_ws c \<Longrightarrow> split_whitespace (c # s) = split_whitespace s"
  by (simp add: split_whitespace_def)

lemma split_whitespace_word:
  "x \<noteq> [] \<Longrightarrow> \<forall>c \<in> set x. \<not> is_ws c \<Longrightarrow> is_ws d \<Longrightarrow> split_whitespace (x @ d # s) = x # split_whitespace s"
  by (simp add: split_whitespace_def split_on_append_sep)

lemma is_ws_space [simp]: "is_ws (CHR '' '')"
  by (simp add: is_ws_def)

lemma strip_cr_keep: "y \<noteq> [] \<Longrightarrow> strip_cr (x @ y) = x @ strip_cr y"
  by (simp add: strip_cr_def butlast_append)

lemma parse_word_zero_pad [simp]: "parse_word 10 (zero_pad k (show_word (w :: 'a::len word))) = Ok w"
  using from_str_radix_zero_pad [OF _ _ unat_le_bound [of w], of 10 k]
  by (simp add: parse_word_def show_word_def)

lemma split_on_lines:
  "\<forall>l \<in> set ls. newline \<notin> set l \<Longrightarrow>
     split_on (\<lambda>c. c = newline) (concat (map (\<lambda>l. l @ [newline]) ls)) = ls @ [[]]"
proof (induction ls)
  case (Cons l ls)
  then have "split_on (\<lambda>c. c = newline) (l @ newline # concat (map (\<lambda>l. l @ [newline]) ls)) =
      l # split_on (\<lambda>c. c = newline) (concat (map (\<lambda>l. l @ [newline]) ls))"
    by (intro split_on_append_sep) auto
  with Cons show ?case by simp
qed simp

lemma str_lines_concat:
  "\<forall>l \<in> set ls. newline \<notin> set l \<Longrightarrow> str_lines (concat (map (\<lambda>l. l @ [newline]) ls)) = map strip_cr ls"
  using split_on_lines [of ls] by (simp add: str_lines_def)

lemma length_radix_str:
  "2 \<le> b \<Longrightarrow> n < b ^ Suc k \<Longrightarrow> length (radix_str b n) \<le> Suc k"
proof (induction k arbitrary: n)
  case 0
  then show ?case by (subst radix_str.simps) simp
next
  case (Suc k)
  have "n div b < b ^ Suc k" using Suc.prems by (simp add: less_mult_imp_div_less mult.commute)
  with Suc show ?case by (subst radix_str.simps) simp
qed

lemma length_zero_pad_hex: "n < 2 ^ 32 \<Longrightarrow> length (zero_pad 8 (hex_str n)) = 8"
  using length_radix_str [of 16 n 7] by (simp add: zero_pad_def)

lemma map_enumerate: "map f (enumerate 0 xs) = map (\<lambda>j. f (j, xs ! j)) [0..<length xs]"
  by (rule nth_equalityI) (simp_all add: nth_enumerate_eq)

end
