(* ===== verification/Protocol.thy ===== *)
theory Protocol
  imports RustStd
begin

text \<open>
  The data of \<open>src/src/protocol/types.rs\<close>, \<open>src/src/protocol/messages.rs\<close> and
  \<open>src/src/error.rs\<close>: one record per struct, one datatype per enum, with the source's field
  order. A field name is the struct's initials and the
  source's name, except the two of \<open>DeviceId\<close>. The texts of
  \<open>WolfUsbError\<close> are the \<open>#[error]\<close> attributes; the errors of other crates it wraps are
  represented by the text they display.
\<close>

section \<open>Descriptor types\<close>

datatype UsbSpeed =
  SpeedUnknown | SpeedLow | SpeedFull | SpeedHigh | SpeedSuper | SpeedSuperPlus

datatype UsbTransferType = TTControl | TTIsochronous | TTBulk | TTInterrupt

datatype UsbDirection = DirIn | DirOut

record DeviceId =
  bus_number :: u8
  address :: u8

definition display_device_id :: "DeviceId \<Rightarrow> string" where
  "display_device_id d = show_word (bus_number d) @ '':'' @ show_word (address d)"

record DeviceInfo =
  di_device_id :: DeviceId
  di_vendor_id :: u16
  di_product_id :: u16
  di_class_code :: u8
  di_sub_class_code :: u8
  di_protocol_code :: u8
  di_max_packet_size_ep0 :: u8
  di_num_configurations :: u8
  di_usb_version :: "u8 \<times> u8 \<times> u8"
  di_device_version :: "u8 \<times> u8 \<times> u8"
  di_speed :: UsbSpeed
  di_port_number :: u8
  di_manufacturer :: "string option"
  di_product :: "string option"
  di_serial_number :: "string option"

record EndpointInfo =
  ep_address :: u8
  ep_number :: u8
  ep_direction :: UsbDirection
  ep_transfer_type :: UsbTransferType
  ep_max_packet_size :: u16
  ep_interval :: u8

record InterfaceInfo =
  ii_interface_number :: u8
  ii_setting_number :: u8
  ii_class_code :: u8
  ii_sub_class_code :: u8
  ii_protocol_code :: u8
  ii_num_endpoints :: u8
  ii_description :: "string option"
  ii_endpoints :: "EndpointInfo list"

record ConfigurationInfo =
  ci_number :: u8
  ci_num_interfaces :: u8
  ci_max_power_ma :: u16
  ci_self_powered :: bool
  ci_remote_wakeup :: bool
  ci_description :: "string option"
  ci_interfaces :: "InterfaceInfo list"

record DeviceDescriptorTree =
  tree_device :: DeviceInfo
  tree_configurations :: "ConfigurationInfo list"

section \<open>Messages\<close>

definition PROTOCOL_VERSION :: u32 where
  "PROTOCOL_VERSION = 1"

record HelloRequest =
  hq_protocol_version :: u32
  hq_client_name :: string
  hq_auth_nonce :: bytes
  hq_auth_proof :: bytes

record HelloResponse =
  hr_protocol_version :: u32
  hr_server_name :: string
  hr_auth_accepted :: bool
  hr_auth_challenge_response :: bytes
  hr_error_message :: "string option"

record DeviceListResponse =
  dl_devices :: "DeviceInfo list"

record GetDescriptorsRequest =
  gdq_device_id :: DeviceId

record DescriptorDataResponse =
  ddr_device_id :: DeviceId
  ddr_descriptors :: DeviceDescriptorTree

record AttachRequest =
  aq_device_id :: DeviceId

record AttachResponse =
  ar_device_id :: DeviceId
  ar_success :: bool
  ar_error_message :: "string option"
  ar_session_id :: "u64 option"

record DetachRequest =
  dq_device_id :: DeviceId
  dq_session_id :: u64

record DetachResponse =
  dr_device_id :: DeviceId
  dr_success :: bool
  dr_error_message :: "string option"

record ControlTransferRequest =
  ctq_session_id :: u64
  ctq_device_id :: DeviceId
  ctq_request_type :: u8
  ctq_request :: u8
  ctq_value :: u16
  ctq_index :: u16
  ctq_data :: bytes
  ctq_length :: u16
  ctq_timeout_ms :: u64

record BulkTransferRequest =
  btq_session_id :: u64
  btq_device_id :: DeviceId
  btq_endpoint :: u8
  btq_data :: bytes
  btq_length :: u32
  btq_timeout_ms :: u64

record InterruptTransferRequest =
  itq_session_id :: u64
  itq_device_id :: DeviceId
  itq_endpoint :: u8
  itq_data :: bytes
  itq_length :: u32
  itq_timeout_ms :: u64

record TransferResponse =
  tr_session_id :: u64
  tr_device_id :: DeviceId
  tr_success :: bool
  tr_data :: bytes
  tr_bytes_transferred :: u32
  tr_error_message :: "string option"

record ClaimInterfaceRequest =
  ciq_session_id :: u64
  ciq_device_id :: DeviceId
  ciq_interface_number :: u8

record ClaimInterfaceResponse =
  cir_success :: bool
  cir_error_message :: "string option"

record ReleaseInterfaceRequest =
  riq_session_id :: u64
  riq_device_id :: DeviceId
  riq_interface_number :: u8

record ReleaseInterfaceResponse =
  rir_success :: bool
  rir_error_message :: "string option"

record SetConfigurationRequest =
  scq_session_id :: u64
  scq_device_id :: DeviceId
  scq_configuration :: u8

record SetConfigurationResponse =
  scr_success :: bool
  scr_error_message :: "string option"

record BridgeRequest =
  bq_device_id :: DeviceId

record BridgeAcceptedResponse =
  ba_device_id :: DeviceId
  ba_busid :: string
  ba_devid :: u32
  ba_speed :: u8
  ba_vendor_id :: u16
  ba_product_id :: u16
  ba_bcd_device :: u16
  ba_device_class :: u8
  ba_device_subclass :: u8
  ba_device_protocol :: u8
  ba_num_configurations :: u8
  ba_num_interfaces :: u8
  ba_config_value :: u8

record BridgeRejectedResponse =
  br_error_message :: string

datatype ErrorCode =
  EC_ProtocolVersionMismatch | EC_AuthenticationFailed | EC_DeviceNotFound
| EC_DeviceAlreadyAttached | EC_DeviceNotAttached | EC_InvalidSession
| EC_TransferFailed | EC_UsbError | EC_InternalError

record ErrorResponse =
  er_code :: ErrorCode
  er_message :: string

datatype Message =
  Hello HelloRequest
| HelloResponse HelloResponse
| ListDevices
| DeviceList DeviceListResponse
| GetDescriptors GetDescriptorsRequest
| DescriptorData DescriptorDataResponse
| Attach AttachRequest
| AttachResult AttachResponse
| Detach DetachRequest
| DetachResult DetachResponse
| ControlTransfer ControlTransferRequest
| BulkTransfer BulkTransferRequest
| InterruptTransfer InterruptTransferRequest
| TransferResult TransferResponse
| ClaimInterface ClaimInterfaceRequest
| ClaimInterfaceResult ClaimInterfaceResponse
| ReleaseInterface ReleaseInterfaceRequest
| ReleaseInterfaceResult ReleaseInterfaceResponse
| SetConfiguration SetConfigurationRequest
| SetConfigurationResult SetConfigurationResponse
| Bridge BridgeRequest
| BridgeAccepted BridgeAcceptedResponse
| BridgeRejected BridgeRejectedResponse
| Error ErrorResponse
| Ping
| Pong

section \<open>Errors\<close>

text \<open>The error enum of the \<open>rusb\<close> crate, as its documentation lists it.\<close>

datatype rusb_error =
  RIo | RInvalidParam | RAccess | RNoDevice | RNotFound | RBusy | RTimeout | ROverflow
| RPipe | RInterrupted | RNoMem | RNotSupported | RBadDescriptor | ROther

datatype WolfUsbError =
  ConnectionFailed string
| ProtocolError string
| VersionMismatch u32 u32
| SerializationError string
| DeserializationError string
| UsbError rusb_error
| DeviceNotFound u8 u8
| DeviceAlreadyAttached
| DeviceNotAttached
| InvalidSession u64
| AuthenticationFailed string
| FrameTooLarge u32 u32
| UnexpectedMessage string string
| ConnectionClosed

text \<open>\<open>to_string\<close>; the first argument is the text the \<open>rusb\<close> crate gives its errors.\<close>

fun error_to_string :: "(rusb_error \<Rightarrow> string) \<Rightarrow> WolfUsbError \<Rightarrow> string" where
  "error_to_string ru (ConnectionFailed e) = ''Connection failed: '' @ e"
| "error_to_string ru (ProtocolError e) = ''Protocol error: '' @ e"
| "error_to_string ru (VersionMismatch l r) =
     ''Protocol version mismatch: local='' @ show_word l @ '', remote='' @ show_word r"
| "error_to_string ru (SerializationError e) = ''Serialization error: '' @ e"
| "error_to_string ru (DeserializationError e) = ''Deserialization error: '' @ e"
| "error_to_string ru (UsbError e) = ''USB error: '' @ ru e"
| "error_to_string ru (DeviceNotFound b a) =
     ''Device not found: bus='' @ show_word b @ '' addr='' @ show_word a"
| "error_to_string ru DeviceAlreadyAttached = ''Device already attached by another client''"
| "error_to_string ru DeviceNotAttached = ''Device not attached (no active session)''"
| "error_to_string ru (InvalidSession s) = ''Invalid session ID: '' @ show_word s"
| "error_to_string ru (AuthenticationFailed e) = ''Authentication failed: '' @ e"
| "error_to_string ru (FrameTooLarge s m) =
     ''Frame too large: '' @ show_word s @ '' bytes (max '' @ show_word m @ '')''"
| "error_to_string ru (UnexpectedMessage e g) =
     ''Unexpected message: expected '' @ e @ '', got '' @ g"
| "error_to_string ru ConnectionClosed = ''Connection closed''"

text \<open>
  The texts of an error as \<open>anyhow\<close> keeps it: its own, and that of the error it wraps (\<open>#[from]\<close>).
\<close>

fun error_chain :: "(rusb_error \<Rightarrow> string) \<Rightarrow> WolfUsbError \<Rightarrow> string list" where
  "error_chain ru (ConnectionFailed e) = [error_to_string ru (ConnectionFailed e), e]"
| "error_chain ru (SerializationError e) = [error_to_string ru (SerializationError e), e]"
| "error_chain ru (DeserializationError e) = [error_to_string ru (DeserializationError e), e]"
| "error_chain ru (UsbError e) = [error_to_string ru (UsbError e), ru e]"
| "error_chain ru e = [error_to_string ru e]"

section \<open>The proofs of the handshake\<close>

text \<open>The tags client and server send and check; \<open>hmac\<close> is HMAC-SHA256 on a key and data, and
  \<open>verify_slice\<close> compares the whole tag.\<close>

definition client_tag :: "(bytes \<Rightarrow> bytes \<Rightarrow> bytes) \<Rightarrow> bytes \<Rightarrow> bytes \<Rightarrow> bytes" where
  "client_tag hmac key nonce = hmac key (nonce @ as_bytes ''wolfusb-client'')"

definition server_tag :: "(bytes \<Rightarrow> bytes \<Rightarrow> bytes) \<Rightarrow> bytes \<Rightarrow> bytes \<Rightarrow> bytes" where
  "server_tag hmac key nonce = hmac key (nonce @ as_bytes ''wolfusb-server'')"

end
