(* ===== verification/Codec.thy ===== *)
theory Codec
  imports Protocol
begin

text \<open>
  \<open>src/src/protocol/codec.rs\<close>: the frame codec, a big endian \<open>u32\<close> length before a
  bincode payload. The bincode crate is a parameter: \<open>enc\<close> stands for
  \<open>bincode::encode_to_vec\<close> and \<open>dec\<close> for \<open>bincode::decode_from_slice\<close> with the code's
  configuration; an error is its text. The buffer is passed in and returned.
\<close>

section \<open>The code\<close>

definition MAX_FRAME_SIZE :: u32 where
  "MAX_FRAME_SIZE = 16 * 1024 * 1024"

definition LENGTH_PREFIX_SIZE :: nat where
  "LENGTH_PREFIX_SIZE = 4"

type_synonym bincode_enc = "Message \<Rightarrow> (string, bytes) result"
type_synonym bincode_dec = "bytes \<Rightarrow> (string, Message \<times> nat) result"

definition decode ::
  "bincode_dec \<Rightarrow> bytes \<Rightarrow> (WolfUsbError, Message option) result \<times> bytes" where
  "decode dec src =
     (if length src < LENGTH_PREFIX_SIZE then (Ok None, src)
      else
        let len = from_be32 (src ! 0) (src ! 1) (src ! 2) (src ! 3) in
        if MAX_FRAME_SIZE < len then (Err (FrameTooLarge len MAX_FRAME_SIZE), src)
        else
          let total_frame_size = LENGTH_PREFIX_SIZE + unat len in
          if length src < total_frame_size then (Ok None, src)
          else
            let src = drop LENGTH_PREFIX_SIZE src;
                payload = take (unat len) src;
                src = drop (unat len) src
            in case dec payload of
                 Inl e \<Rightarrow> (Err (DeserializationError e), src)
               | Inr (message, _) \<Rightarrow> (Ok (Some message), src))"

definition encode ::
  "bincode_enc \<Rightarrow> Message \<Rightarrow> bytes \<Rightarrow> (WolfUsbError, unit) result \<times> bytes" where
  "encode enc item dst =
     (case enc item of
        Inl e \<Rightarrow> (Err (SerializationError e), dst)
      | Inr payload \<Rightarrow>
          let len = (of_nat (length payload) :: u32) in
          if MAX_FRAME_SIZE < len then (Err (FrameTooLarge len MAX_FRAME_SIZE), dst)
          else (Ok (), dst @ to_be32 len @ payload))"

section \<open>Repeated decoding\<close>

text \<open>
  What a reader of the codec does: call \<open>decode\<close> until it asks for more bytes or fails,
  giving the messages, the error if there was one, and the bytes left. \<open>feed\<close> does so after
  each chunk that arrives.
\<close>

lemma decode_shrinks:
  "decode dec buf = (Ok (Some m), r) \<Longrightarrow> length r < length buf"
  by (auto simp: decode_def Let_def LENGTH_PREFIX_SIZE_def split: if_splits sum.splits)

function drain ::
  "bincode_dec \<Rightarrow> bytes \<Rightarrow> Message list \<times> WolfUsbError option \<times> bytes" where
  "drain dec buf =
     (case decode dec buf of
        (Inl e, r) \<Rightarrow> ([], Some e, r)
      | (Inr None, r) \<Rightarrow> ([], None, r)
      | (Inr (Some m), r) \<Rightarrow> (case drain dec r of (ms, e, r') \<Rightarrow> (m # ms, e, r')))"
  by pat_completeness auto
termination
  by (relation "measure (\<lambda>(dec, buf). length buf)") (auto dest!: decode_shrinks [OF sym])

declare drain.simps [simp del]

fun feed ::
  "bincode_dec \<Rightarrow> bytes \<Rightarrow> bytes list \<Rightarrow> Message list \<times> WolfUsbError option \<times> bytes" where
  "feed dec buf [] = ([], None, buf)"
| "feed dec buf (c # cs) =
     (case drain dec (buf @ c) of
        (ms, Some e, r) \<Rightarrow> (ms, Some e, r)
      | (ms, None, r) \<Rightarrow> (case feed dec r cs of (ms', e, r') \<Rightarrow> (ms @ ms', e, r')))"

section \<open>The contract of an incremental decoder\<close>

text \<open>
  \<open>pull\<close> takes one item off the front of a buffer. It leaves a buffer it cannot use yet as
  it is, and more bytes at the end change neither an item nor an error it has reported. From
  that alone: how the bytes are cut into chunks does not show in the items.
\<close>

locale incremental =
  fixes pull :: "bytes \<Rightarrow> ('e, 'm option) result \<times> bytes"
    and pulls :: "bytes \<Rightarrow> 'm list \<times> 'e option \<times> bytes"
    and chunks :: "bytes \<Rightarrow> bytes list \<Rightarrow> 'm list \<times> 'e option \<times> bytes"
  assumes pull_wait: "pull buf = (Ok None, r) \<Longrightarrow> r = buf"
    and pull_item: "pull buf = (Ok (Some m), r) \<Longrightarrow>
          length r < length buf \<and> pull (buf @ post) = (Ok (Some m), r @ post)"
    and pull_fail: "pull buf = (Err e, r) \<Longrightarrow> pull (buf @ post) = (Err e, r @ post)"
    and pulls_rec: "pulls buf =
          (case pull buf of
             (Inl e, r) \<Rightarrow> ([], Some e, r)
           | (Inr None, r) \<Rightarrow> ([], None, r)
           | (Inr (Some m), r) \<Rightarrow> (case pulls r of (ms, e, r') \<Rightarrow> (m # ms, e, r')))"
    and chunks_Nil: "chunks buf [] = ([], None, buf)"
    and chunks_Cons: "chunks buf (c # cs) =
          (case pulls (buf @ c) of
             (ms, Some e, r) \<Rightarrow> (ms, Some e, r)
           | (ms, None, r) \<Rightarrow> (case chunks r cs of (ms', e, r') \<Rightarrow> (ms @ ms', e, r')))"
begin

lemma pulls_append:
  "pulls buf = (ms, e, r) \<Longrightarrow>
     pulls (buf @ post) =
       (case e of
          Some _ \<Rightarrow> (ms, e, r @ post)
        | None \<Rightarrow> (case pulls (r @ post) of (ms', e', r') \<Rightarrow> (ms @ ms', e', r')))"
proof (induction "length buf" arbitrary: buf ms rule: less_induct)
  case less
  obtain res r0 where p: "pull buf = (res, r0)" by (cases "pull buf")
  show ?case
  proof (cases res)
    case (Inl x)
    with p less.prems show ?thesis
      using pull_fail [of buf x r0 post] by (auto simp: pulls_rec)
  next
    case (Inr o1)
    show ?thesis
    proof (cases o1)
      case None
      with p Inr less.prems have "ms = []" "e = None" "r = buf"
        by (auto simp: pulls_rec [of buf] dest: pull_wait)
      then show ?thesis by simp
    next
      case (Some m)
      with p Inr have item: "pull buf = (Ok (Some m), r0)" by simp
      then have short: "length r0 < length buf"
        and post: "pull (buf @ post) = (Ok (Some m), r0 @ post)"
        using pull_item by blast+
      obtain ms0 e0 r' where rec: "pulls r0 = (ms0, e0, r')" by (metis prod_cases3)
      with item less.prems have eq: "ms = m # ms0" "e = e0" "r = r'"
        by (auto simp: pulls_rec [of buf])
      show ?thesis
        using less.hyps [OF short, of ms0] rec post eq
        by (auto simp: pulls_rec [of "buf @ post"] split: option.splits prod.splits)
    qed
  qed
qed

lemma pulls_idle: "pulls buf = (ms, None, r) \<Longrightarrow> pulls r = ([], None, r)"
proof (induction "length buf" arbitrary: buf ms rule: less_induct)
  case less
  then show ?case
    by (auto simp: pulls_rec [of buf] split: prod.splits sum.splits option.splits
        dest: pull_wait pull_item)
      (metis pull_wait pulls_rec less.prems)
qed

lemma chunks_pulls:
  "pulls buf = ([], None, buf) \<Longrightarrow> chunks buf cs = (ms, e, r) \<Longrightarrow>
     \<exists>r'. pulls (buf @ concat cs) = (ms, e, r') \<and> (e = None \<longrightarrow> r' = r)"
proof (induction cs arbitrary: buf ms e r)
  case Nil
  then show ?case by (simp add: chunks_Nil)
next
  case (Cons c cs)
  obtain ms1 e1 r1 where p: "pulls (buf @ c) = (ms1, e1, r1)" by (metis prod_cases3)
  note app = pulls_append [OF p, of "concat cs"]
  show ?case
  proof (cases e1)
    case (Some x)
    with p app Cons.prems(2) show ?thesis by (auto simp: chunks_Cons)
  next
    case None
    obtain ms2 e2 r2 where q: "chunks r1 cs = (ms2, e2, r2)" by (metis prod_cases3)
    from p None have "pulls r1 = ([], None, r1)" by (auto intro: pulls_idle)
    from Cons.IH [OF this q] q p app None Cons.prems(2) show ?thesis
      by (auto simp: chunks_Cons)
  qed
qed

end

section \<open>The codec is an incremental decoder\<close>

lemma decode_item:
  assumes "decode dec buf = (Ok (Some m), r)"
  shows "length r < length buf \<and> decode dec (buf @ post) = (Ok (Some m), r @ post)"
  using assms
  by (auto simp: decode_def Let_def LENGTH_PREFIX_SIZE_def nth_append
      split: if_splits sum.splits prod.splits)

lemma decode_fail:
  "decode dec buf = (Err e, r) \<Longrightarrow> decode dec (buf @ post) = (Err e, r @ post)"
  by (auto simp: decode_def Let_def LENGTH_PREFIX_SIZE_def nth_append
      split: if_splits sum.splits prod.splits)

lemma decode_wait: "decode dec buf = (Ok None, r) \<Longrightarrow> r = buf"
  by (auto simp: decode_def Let_def split: if_splits sum.splits prod.splits)

interpretation codec: incremental "decode dec" "drain dec" "feed dec" for dec
  by unfold_locales
    (use decode_wait decode_item decode_fail in \<open>auto simp: drain.simps [of dec]
       split: sum.splits option.splits prod.splits\<close>)

section \<open>What the codec promises\<close>

text \<open>
  The documented behaviour of bincode the code relies on: decoding what was encoded gives
  the value back.
\<close>

definition bincode_ok :: "bincode_enc \<Rightarrow> bincode_dec \<Rightarrow> bool" where
  "bincode_ok enc dec \<longleftrightarrow> (\<forall>m p. enc m = Ok p \<longrightarrow> (\<exists>n. dec p = Ok (m, n)))"

text \<open>Two messages are enough to exercise the codec on concrete bytes.\<close>

definition sample_enc :: bincode_enc where
  "sample_enc m = (case m of Ping \<Rightarrow> Ok [24] | Pong \<Rightarrow> Ok [25] | _ \<Rightarrow> Err ''unsupported'')"

definition sample_dec :: bincode_dec where
  "sample_dec p =
     (if p = [24] then Ok (Ping, 1) else if p = [25] then Ok (Pong, 1) else Err ''unexpected'')"

lemma sample_bincode_ok: "bincode_ok sample_enc sample_dec"
  by (auto simp: bincode_ok_def sample_enc_def sample_dec_def split: Message.splits)

lemma word_le_MAX_FRAME_SIZE: "unat MAX_FRAME_SIZE = 2 ^ 24"
  by (simp add: MAX_FRAME_SIZE_def)

lemma length_fits:
  assumes "n < 2 ^ 32" "\<not> MAX_FRAME_SIZE < (of_nat n :: u32)"
  shows "unat (of_nat n :: u32) = n" "n \<le> 2 ^ 24"
proof -
  show n: "unat (of_nat n :: u32) = n"
    using assms(1) by (simp add: unat_of_nat)
  show "n \<le> 2 ^ 24"
    using assms(2) n by (simp add: word_less_nat_alt word_le_MAX_FRAME_SIZE)
qed

text \<open>One frame: what \<open>encode\<close> appends for a payload of less than 4 GiB.\<close>

lemma encode_Ok:
  "encode enc m dst = (Ok (), out) \<longleftrightarrow>
     (\<exists>p. enc m = Ok p \<and> \<not> MAX_FRAME_SIZE < (of_nat (length p) :: u32) \<and>
          out = dst @ to_be32 (of_nat (length p)) @ p)"
  by (auto simp: encode_def Let_def split: sum.splits)

lemma decode_frame:
  assumes "length p < 2 ^ 32" "\<not> MAX_FRAME_SIZE < (of_nat (length p) :: u32)"
    and "dec p = Ok (m, n)"
  shows "decode dec ((to_be32 (of_nat (length p)) @ p) @ rest) = (Ok (Some m), rest)"
proof -
  have "be32_at (to_be32 (of_nat (length p)) @ p @ rest) 0 = of_nat (length p)"
    by (rule be32.get_here)
  then show ?thesis
    using assms length_fits(1) [OF assms(1,2)]
    by (simp add: decode_def Let_def LENGTH_PREFIX_SIZE_def be32_at_def numeral_2_eq_2 numeral_3_eq_3)
qed

lemma decode_partial_frame:
  assumes "length p < 2 ^ 32" "\<not> MAX_FRAME_SIZE < (of_nat (length p) :: u32)"
    and "f = to_be32 (of_nat (length p)) @ p" "k < length f"
  shows "decode dec (take k f) = (Ok None, take k f)"
proof (cases "k < 4")
  case True
  then have "length (take k f) < 4" by simp
  then show ?thesis by (simp only: decode_def LENGTH_PREFIX_SIZE_def if_True)
next
  case False
  then have tk: "take k f = to_be32 (of_nat (length p)) @ take (k - 4) p"
    by (simp add: assms(3) take_append)
  have "be32_at (to_be32 (of_nat (length p)) @ take (k - 4) p) 0 = of_nat (length p)"
    by (rule be32.get_here)
  with False assms show ?thesis
    using length_fits(1) [OF assms(1,2)] unfolding tk
    by (simp add: decode_def Let_def LENGTH_PREFIX_SIZE_def be32_at_def numeral_2_eq_2 numeral_3_eq_3)
qed

text \<open>Every payload is shorter than 4 GiB, so that its length fits the prefix.\<close>

definition payload_fits :: "bincode_enc \<Rightarrow> Message \<Rightarrow> bool" where
  "payload_fits enc m \<longleftrightarrow> (\<forall>p. enc m = Ok p \<longrightarrow> length p < 2 ^ 32)"

lemma codec_frame:
  assumes "bincode_ok enc dec"
    and "encode enc m dst = (Ok (), out)"
    and "payload_fits enc m"
  shows "\<exists>f. out = dst @ f \<and> (\<forall>rest. decode dec (f @ rest) = (Ok (Some m), rest)) \<and>
           (\<forall>k < length f. decode dec (take k f) = (Ok None, take k f))"
proof -
  from assms(2) obtain p where p: "enc m = Ok p" "\<not> MAX_FRAME_SIZE < (of_nat (length p) :: u32)"
      "out = dst @ to_be32 (of_nat (length p)) @ p"
    by (auto simp: encode_Ok)
  from assms(3) p(1) have len: "length p < 2 ^ 32" by (simp add: payload_fits_def)
  from assms(1) p(1) obtain n where "dec p = Ok (m, n)" by (auto simp: bincode_ok_def)
  with len p show ?thesis
    using decode_frame [of p dec m n] decode_partial_frame [of p _ _ dec] by fastforce
qed

text \<open>C9: a message \<open>encode\<close> accepts is appended as one frame behind what the buffer held;
  \<open>decode\<close> gives back exactly that message and leaves what follows, and on every proper prefix
  of the frame it asks for more bytes and consumes none. The payload is under 4 GiB, since the
  length prefix is cut to 32 bits.\<close>

theorem codec_roundtrip:
  assumes "bincode_ok enc dec"
    and "encode enc m dst = (Ok (), out)"
    and "\<And>p. enc m = Ok p \<Longrightarrow> length p < 2 ^ 32"
  shows "\<exists>f. out = dst @ f \<and> decode dec (f @ rest) = (Ok (Some m), rest) \<and>
           (\<forall>k < length f. decode dec (take k f) = (Ok None, take k f))"
  using codec_frame [OF assms(1,2)] assms(3) unfolding payload_fits_def by blast

theorem codec_roundtrip_witness:
  "encode sample_enc Ping [7] = (Ok (), [7, 0, 0, 0, 1, 24]) \<and>
   (\<exists>f. [7, 0, 0, 0, 1, 24] = [7] @ f \<and> decode sample_dec (f @ [9]) = (Ok (Some Ping), [9]) \<and>
      (\<forall>k < length f. decode sample_dec (take k f) = (Ok None, take k f)))"
proof -
  have e: "encode sample_enc Ping [7] = (Ok (), [7, 0, 0, 0, 1, 24])"
    by (simp add: encode_def sample_enc_def MAX_FRAME_SIZE_def to_be32_def)
  have l: "length p < 2 ^ 32" if "sample_enc Ping = Ok p" for p
    using that by (auto simp: sample_enc_def)
  show ?thesis using e codec_roundtrip [OF sample_bincode_ok e l, of "[9]"] by blast
qed

text \<open>A sender's messages, encoded one after the other into its write buffer.\<close>

fun encode_all :: "bincode_enc \<Rightarrow> Message list \<Rightarrow> bytes \<Rightarrow> (WolfUsbError, unit) result \<times> bytes" where
  "encode_all enc [] dst = (Ok (), dst)"
| "encode_all enc (m # ms) dst =
     (case encode enc m dst of
        (Inl e, dst') \<Rightarrow> (Err e, dst')
      | (Inr _, dst') \<Rightarrow> encode_all enc ms dst')"

lemma drain_encode_all:
  assumes "bincode_ok enc dec"
  shows "encode_all enc ms dst = (Ok (), out) \<Longrightarrow> \<forall>m \<in> set ms. payload_fits enc m \<Longrightarrow>
           \<exists>f. out = dst @ f \<and> drain dec f = (ms, None, [])"
proof (induction ms arbitrary: dst)
  case Nil
  then show ?case
    by (auto simp: drain.simps [of dec "[]"] decode_def LENGTH_PREFIX_SIZE_def)
next
  case (Cons m ms)
  from Cons.prems(1) obtain d where e: "encode enc m dst = (Ok (), d)"
    and r: "encode_all enc ms d = (Ok (), out)"
    by (auto split: prod.splits sum.splits)
  from Cons.prems(2) have "payload_fits enc m" by simp
  from codec_frame [OF assms e this] obtain f where f: "d = dst @ f"
    "\<And>rest. decode dec (f @ rest) = (Ok (Some m), rest)" by blast
  from Cons.IH [OF r] Cons.prems(2) obtain g where "out = d @ g" "drain dec g = (ms, None, [])"
    by auto
  with f show ?case by (auto simp: drain.simps [of dec "f @ g"])
qed

text \<open>C8: whatever messages a sender encodes into its stream, each of a payload under 4 GiB and the
  stream as long as it likes, a receiver that decodes as bytes come in obtains exactly these messages
  in this order, with no error and no byte left, however the transport cuts the stream into chunks.\<close>

theorem stream_reassembly:
  assumes "bincode_ok enc dec"
    and "encode_all enc ms [] = (Ok (), out)"
    and "\<And>m p. m \<in> set ms \<Longrightarrow> enc m = Ok p \<Longrightarrow> length p < 2 ^ 32"
    and "concat cs = out"
  shows "feed dec [] cs = (ms, None, [])"
proof -
  have "drain dec out = (ms, None, [])"
    using drain_encode_all [OF assms(1,2)] assms(3) by (auto simp: payload_fits_def)
  moreover have "drain dec [] = ([], None, [])"
    by (simp add: drain.simps [of dec "[]"] decode_def LENGTH_PREFIX_SIZE_def)
  ultimately show ?thesis
    using codec.chunks_pulls [of dec "[]" cs] assms(4) by (cases "feed dec [] cs") auto
qed

theorem stream_reassembly_witness:
  "feed sample_dec [] [[0, 0], [0, 1, 24, 0], [], [0, 0, 1, 25]] = ([Ping, Pong], None, [])"
proof (rule stream_reassembly [OF sample_bincode_ok])
  show "encode_all sample_enc [Ping, Pong] [] = (Ok (), [0, 0, 0, 1, 24, 0, 0, 0, 1, 25])"
    by (simp add: encode_def sample_enc_def MAX_FRAME_SIZE_def to_be32_def)
  show "length p < 2 ^ 32" if "m \<in> set [Ping, Pong]" "sample_enc m = Ok p" for m p
    using that by (auto simp: sample_enc_def)
qed simp

text \<open>C21: a frame that announces more than 16 MiB is refused from its four header bytes
  alone, and every message that is decoded came from a payload of at most 16 MiB right behind
  its length prefix, the buffer being consumed exactly to the end of that payload.\<close>

theorem frame_limit:
  "(4 \<le> length buf \<and> MAX_FRAME_SIZE < be32_at buf 0 \<longrightarrow>
      decode dec buf = (Err (FrameTooLarge (be32_at buf 0) MAX_FRAME_SIZE), buf)) \<and>
   (decode dec buf = (Ok (Some m), r) \<longrightarrow>
      (\<exists>p n. buf = take 4 buf @ p @ r \<and> length p = unat (be32_at buf 0) \<and>
             length p \<le> 2 ^ 24 \<and> dec p = Ok (m, n)))"
proof (intro conjI impI)
  assume "4 \<le> length buf \<and> MAX_FRAME_SIZE < be32_at buf 0"
  then show "decode dec buf = (Err (FrameTooLarge (be32_at buf 0) MAX_FRAME_SIZE), buf)"
    by (simp add: decode_def Let_def LENGTH_PREFIX_SIZE_def be32_at_def numeral_2_eq_2 numeral_3_eq_3)
next
  assume d: "decode dec buf = (Ok (Some m), r)"
  let ?n = "unat (be32_at buf 0)" and ?b = "drop 4 buf"
  from d have len: "4 + ?n \<le> length buf" and "\<not> MAX_FRAME_SIZE < be32_at buf 0"
    and r: "r = drop ?n ?b" and dec: "\<exists>n. dec (take ?n ?b) = Ok (m, n)"
    by (auto simp: decode_def Let_def LENGTH_PREFIX_SIZE_def be32_at_def numeral_2_eq_2 numeral_3_eq_3
        split: if_splits sum.splits)
  then have le: "?n \<le> 2 ^ 24"
    by (simp add: word_less_nat_alt word_le_MAX_FRAME_SIZE)
  have "buf = take 4 buf @ take ?n ?b @ r"
    unfolding r by (simp only: append_take_drop_id)
  moreover have "length (take ?n ?b) = ?n" using len by simp
  ultimately show "\<exists>p n. buf = take 4 buf @ p @ r \<and> length p = ?n \<and> length p \<le> 2 ^ 24 \<and> dec p = Ok (m, n)"
    using dec le by metis
qed

theorem frame_limit_witness:
  "decode sample_dec [2, 0, 0, 0] = (Err (FrameTooLarge 33554432 MAX_FRAME_SIZE), [2, 0, 0, 0])"
proof -
  have "be32_at [2, 0, 0, 0] 0 = 33554432"
    by (simp add: be32_at_def from_be32_def)
  then show ?thesis
    using frame_limit [of "[2, 0, 0, 0]" sample_dec] by (simp add: MAX_FRAME_SIZE_def)
qed

text \<open>C35: the length prefix is the payload's length cut to 32 bits before it is compared
  with the limit, so a payload of 4 GiB and a little more is accepted and written whole behind
  a prefix that names only the little more.\<close>

theorem encode_length_wraps:
  assumes "enc m = Ok p" and "length p = 2 ^ 32 + k" and "k \<le> 2 ^ 24"
  shows "encode enc m dst = (Ok (), dst @ to_be32 (of_nat k) @ p)"
proof -
  have eq: "(of_nat (length p) :: u32) = of_nat k"
    using assms(2) by (simp add: word_arith_nat_defs(1) flip: of_nat_2p)
  have "unat (of_nat k :: u32) = k"
    using assms(3) by (simp add: unat_of_nat)
  then have "\<not> MAX_FRAME_SIZE < (of_nat k :: u32)"
    using assms(3) by (simp add: word_less_nat_alt word_le_MAX_FRAME_SIZE)
  with assms(1) eq show ?thesis by (simp add: encode_def)
qed

theorem encode_length_wraps_witness:
  "encode (\<lambda>_. Ok (replicate (2 ^ 32 + 5) 0)) Ping [] =
     (Ok (), [] @ to_be32 (of_nat 5) @ replicate (2 ^ 32 + 5) 0)"
  by (rule encode_length_wraps [OF refl length_replicate]) simp

end
