(* ===== verification/Usb.thy ===== *)
theory Usb
  imports Protocol
begin

text \<open>
  The \<open>rusb\<close> crate as the sources use it: a parameter of the model. \<open>'w\<close> is the state of
  the USB hardware and of the kernel's drivers, \<open>'d\<close> a device, \<open>'h\<close> an open handle. Reading
  (enumeration, descriptors, opening a handle) looks at the state; the operations that act on
  a device also return the state they leave. A \<open>Duration\<close> is its milliseconds. The second
  half is the code's own conversions from \<open>rusb\<close>'s enums (\<open>src/src/protocol/types.rs\<close>).
\<close>

section \<open>The interface\<close>

datatype rusb_speed = RSpeedUnknown | RSpeedLow | RSpeedFull | RSpeedHigh | RSpeedSuper | RSpeedSuperPlus

datatype rusb_transfer_type = RControl | RIsochronous | RBulk | RInterrupt

datatype rusb_direction = RIn | ROut

type_synonym Duration = u64

record device_descriptor =
  dd_vendor_id :: u16
  dd_product_id :: u16
  dd_class_code :: u8
  dd_sub_class_code :: u8
  dd_protocol_code :: u8
  dd_max_packet_size :: u8
  dd_num_configurations :: u8
  dd_usb_version :: "u8 \<times> u8 \<times> u8"
  dd_device_version :: "u8 \<times> u8 \<times> u8"
  dd_manufacturer_string_index :: "u8 option"
  dd_product_string_index :: "u8 option"
  dd_serial_number_string_index :: "u8 option"

record endpoint_descriptor =
  ed_address :: u8
  ed_number :: u8
  ed_direction :: rusb_direction
  ed_transfer_type :: rusb_transfer_type
  ed_max_packet_size :: u16
  ed_interval :: u8

record interface_descriptor =
  id_interface_number :: u8
  id_setting_number :: u8
  id_class_code :: u8
  id_sub_class_code :: u8
  id_protocol_code :: u8
  id_num_endpoints :: u8
  id_description_string_index :: "u8 option"
  id_endpoint_descriptors :: "endpoint_descriptor list"

record usb_interface =
  if_number :: u8
  if_descriptors :: "interface_descriptor list"

record config_descriptor =
  cd_number :: u8
  cd_num_interfaces :: u8
  cd_max_power :: u16
  cd_self_powered :: bool
  cd_remote_wakeup :: bool
  cd_description_string_index :: "u8 option"
  cd_interfaces :: "usb_interface list"

record ('w, 'd, 'h) rusb =
  ru_strerror :: "rusb_error \<Rightarrow> string"
  ru_context :: "'w \<Rightarrow> (rusb_error, unit) result"
  ru_devices :: "'w \<Rightarrow> (rusb_error, 'd list) result"
  ru_global_devices :: "'w \<Rightarrow> (rusb_error, 'd list) result"
  ru_bus_number :: "'d \<Rightarrow> u8"
  ru_address :: "'d \<Rightarrow> u8"
  ru_port_number :: "'d \<Rightarrow> u8"
  ru_speed :: "'d \<Rightarrow> rusb_speed"
  ru_device_descriptor :: "'d \<Rightarrow> 'w \<Rightarrow> (rusb_error, device_descriptor) result"
  ru_config_descriptor :: "'d \<Rightarrow> u8 \<Rightarrow> 'w \<Rightarrow> (rusb_error, config_descriptor) result"
  ru_active_config_descriptor :: "'d \<Rightarrow> 'w \<Rightarrow> (rusb_error, config_descriptor) result"
  ru_open :: "'d \<Rightarrow> 'w \<Rightarrow> (rusb_error, 'h) result"
  ru_read_string :: "'h \<Rightarrow> u8 \<Rightarrow> 'w \<Rightarrow> (rusb_error, string) result"
  ru_detach_kernel_driver :: "'h \<Rightarrow> u8 \<Rightarrow> 'w \<Rightarrow> (rusb_error, unit) result \<times> 'w"
  ru_attach_kernel_driver :: "'h \<Rightarrow> u8 \<Rightarrow> 'w \<Rightarrow> (rusb_error, unit) result \<times> 'w"
  ru_claim_interface :: "'h \<Rightarrow> u8 \<Rightarrow> 'w \<Rightarrow> (rusb_error, unit) result \<times> 'w"
  ru_release_interface :: "'h \<Rightarrow> u8 \<Rightarrow> 'w \<Rightarrow> (rusb_error, unit) result \<times> 'w"
  ru_set_active_configuration :: "'h \<Rightarrow> u8 \<Rightarrow> 'w \<Rightarrow> (rusb_error, unit) result \<times> 'w"
  ru_read_control ::
    "'h \<Rightarrow> u8 \<Rightarrow> u8 \<Rightarrow> u16 \<Rightarrow> u16 \<Rightarrow> bytes \<Rightarrow> Duration \<Rightarrow> 'w \<Rightarrow> (rusb_error, nat) result \<times> bytes \<times> 'w"
  ru_write_control ::
    "'h \<Rightarrow> u8 \<Rightarrow> u8 \<Rightarrow> u16 \<Rightarrow> u16 \<Rightarrow> bytes \<Rightarrow> Duration \<Rightarrow> 'w \<Rightarrow> (rusb_error, nat) result \<times> 'w"
  ru_read_bulk :: "'h \<Rightarrow> u8 \<Rightarrow> bytes \<Rightarrow> Duration \<Rightarrow> 'w \<Rightarrow> (rusb_error, nat) result \<times> bytes \<times> 'w"
  ru_write_bulk :: "'h \<Rightarrow> u8 \<Rightarrow> bytes \<Rightarrow> Duration \<Rightarrow> 'w \<Rightarrow> (rusb_error, nat) result \<times> 'w"
  ru_read_interrupt :: "'h \<Rightarrow> u8 \<Rightarrow> bytes \<Rightarrow> Duration \<Rightarrow> 'w \<Rightarrow> (rusb_error, nat) result \<times> bytes \<times> 'w"
  ru_write_interrupt :: "'h \<Rightarrow> u8 \<Rightarrow> bytes \<Rightarrow> Duration \<Rightarrow> 'w \<Rightarrow> (rusb_error, nat) result \<times> 'w"

text \<open>
  Documented behaviour of the reading transfers: the buffer passed in keeps its length, and
  the count returned is the number of bytes of it that were filled.
\<close>

definition read_fills :: "(bytes \<Rightarrow> (rusb_error, nat) result \<times> bytes \<times> 'w) \<Rightarrow> bool" where
  "read_fills rd \<longleftrightarrow>
     (\<forall>buf n buf' w'. rd buf = (Ok n, buf', w') \<longrightarrow> length buf' = length buf \<and> n \<le> length buf)"

definition reads_ok :: "('w, 'd, 'h) rusb \<Rightarrow> bool" where
  "reads_ok usb \<longleftrightarrow>
     (\<forall>h rt rq v i t w. read_fills (\<lambda>buf. ru_read_control usb h rt rq v i buf t w)) \<and>
     (\<forall>h ep t w. read_fills (\<lambda>buf. ru_read_bulk usb h ep buf t w)) \<and>
     (\<forall>h ep t w. read_fills (\<lambda>buf. ru_read_interrupt usb h ep buf t w))"

text \<open>
  The calls on a handle that concern interfaces, as data: \<open>perform\<close> makes them one after the other,
  whatever each gives, and returns what they gave. The properties of the code that makes such calls
  say with it which calls are made.
\<close>

datatype 'h usb_call =
  CallDetachDriver 'h u8 | CallAttachDriver 'h u8 | CallClaim 'h u8 | CallRelease 'h u8

fun usb_do ::
  "('w, 'd, 'h) rusb \<Rightarrow> 'h usb_call \<Rightarrow> 'w \<Rightarrow> (rusb_error, unit) result \<times> 'w" where
  "usb_do usb (CallDetachDriver h i) w = ru_detach_kernel_driver usb h i w"
| "usb_do usb (CallAttachDriver h i) w = ru_attach_kernel_driver usb h i w"
| "usb_do usb (CallClaim h i) w = ru_claim_interface usb h i w"
| "usb_do usb (CallRelease h i) w = ru_release_interface usb h i w"

fun perform ::
  "('w, 'd, 'h) rusb \<Rightarrow> 'h usb_call list \<Rightarrow> 'w \<Rightarrow> (rusb_error, unit) result list \<times> 'w" where
  "perform usb [] w = ([], w)"
| "perform usb (c # cs) w =
     (case usb_do usb c w of (r, w) \<Rightarrow> (case perform usb cs w of (rs, w) \<Rightarrow> (r # rs, w)))"

lemma perform_append:
  "snd (perform usb (cs @ ds) w) = snd (perform usb ds (snd (perform usb cs w)))"
  by (induction cs arbitrary: w) (auto simp: case_prod_beta)

lemma length_perform: "length (fst (perform usb cs w)) = length cs"
  by (induction cs arbitrary: w) (auto simp: case_prod_beta)

section \<open>Conversions\<close>

fun speed_from :: "rusb_speed \<Rightarrow> UsbSpeed" where
  "speed_from RSpeedLow = SpeedLow"
| "speed_from RSpeedFull = SpeedFull"
| "speed_from RSpeedHigh = SpeedHigh"
| "speed_from RSpeedSuper = SpeedSuper"
| "speed_from RSpeedSuperPlus = SpeedSuperPlus"
| "speed_from _ = SpeedUnknown"

fun transfer_type_from :: "rusb_transfer_type \<Rightarrow> UsbTransferType" where
  "transfer_type_from RControl = TTControl"
| "transfer_type_from RIsochronous = TTIsochronous"
| "transfer_type_from RBulk = TTBulk"
| "transfer_type_from RInterrupt = TTInterrupt"

fun direction_from :: "rusb_direction \<Rightarrow> UsbDirection" where
  "direction_from RIn = DirIn"
| "direction_from ROut = DirOut"

text \<open>\<open>?\<close> on a \<open>rusb\<close> result inside a function that returns \<open>WolfUsbError\<close>.\<close>

fun usb_result :: "(rusb_error, 'a) result \<Rightarrow> (WolfUsbError, 'a) result" where
  "usb_result (Inl e) = Err (UsbError e)"
| "usb_result (Inr a) = Ok a"

section \<open>A concrete instance\<close>

text \<open>
  An interface over an arbitrary list of devices, for evaluating the model: every
  device opens with itself as its handle, has no kernel driver, fills the buffer of every
  bulk read and fails every other transfer. \<open>logging_usb\<close> has one device with three interfaces, of
  which the second has no kernel driver, and its state is the log of the calls made.
\<close>

definition idle_descriptor :: device_descriptor where
  "idle_descriptor = \<lparr>dd_vendor_id = 1, dd_product_id = 2, dd_class_code = 0, dd_sub_class_code = 0,
     dd_protocol_code = 0, dd_max_packet_size = 64, dd_num_configurations = 1,
     dd_usb_version = (2, 0, 0), dd_device_version = (1, 0, 0),
     dd_manufacturer_string_index = None, dd_product_string_index = None,
     dd_serial_number_string_index = None\<rparr>"

definition idle_usb :: "(u8 \<times> u8) list \<Rightarrow> (unit, u8 \<times> u8, u8 \<times> u8) rusb" where
  "idle_usb ds = \<lparr>ru_strerror = (\<lambda>_. ''Other error''), ru_context = (\<lambda>_. Ok ()),
     ru_devices = (\<lambda>_. Ok ds), ru_global_devices = (\<lambda>_. Ok ds),
     ru_bus_number = fst, ru_address = snd, ru_port_number = (\<lambda>_. 1), ru_speed = (\<lambda>_. RSpeedHigh),
     ru_device_descriptor = (\<lambda>_ _. Ok idle_descriptor),
     ru_config_descriptor = (\<lambda>_ _ _. Err ROther), ru_active_config_descriptor = (\<lambda>_ _. Err ROther),
     ru_open = (\<lambda>d _. Ok d), ru_read_string = (\<lambda>_ _ _. Err ROther),
     ru_detach_kernel_driver = (\<lambda>_ _ w. (Err RNotFound, w)),
     ru_attach_kernel_driver = (\<lambda>_ _ w. (Err RNotFound, w)),
     ru_claim_interface = (\<lambda>_ _ w. (Ok (), w)), ru_release_interface = (\<lambda>_ _ w. (Ok (), w)),
     ru_set_active_configuration = (\<lambda>_ _ w. (Ok (), w)),
     ru_read_control = (\<lambda>_ _ _ _ _ buf _ w. (Err ROther, buf, w)),
     ru_write_control = (\<lambda>_ _ _ _ _ _ _ w. (Err ROther, w)),
     ru_read_bulk = (\<lambda>_ _ buf _ w. (Ok (length buf), buf, w)),
     ru_write_bulk = (\<lambda>_ _ _ _ w. (Err ROther, w)),
     ru_read_interrupt = (\<lambda>_ _ buf _ w. (Err ROther, buf, w)),
     ru_write_interrupt = (\<lambda>_ _ _ _ w. (Err ROther, w))\<rparr>"

definition three_interfaces :: config_descriptor where
  "three_interfaces = \<lparr>cd_number = 1, cd_num_interfaces = 3, cd_max_power = 100, cd_self_powered = False,
     cd_remote_wakeup = False, cd_description_string_index = None,
     cd_interfaces = map (\<lambda>i. \<lparr>if_number = i, if_descriptors = []\<rparr>) [0, 1, 2]\<rparr>"

definition logging_usb :: "((u8 \<times> u8) usb_call list, u8 \<times> u8, u8 \<times> u8) rusb" where
  "logging_usb = \<lparr>ru_strerror = (\<lambda>_. ''Other error''), ru_context = (\<lambda>_. Ok ()),
     ru_devices = (\<lambda>_. Ok [(1, 2)]), ru_global_devices = (\<lambda>_. Ok [(1, 2)]),
     ru_bus_number = fst, ru_address = snd, ru_port_number = (\<lambda>_. 1), ru_speed = (\<lambda>_. RSpeedHigh),
     ru_device_descriptor = (\<lambda>_ _. Ok idle_descriptor),
     ru_config_descriptor = (\<lambda>_ _ _. Ok three_interfaces),
     ru_active_config_descriptor = (\<lambda>_ _. Ok three_interfaces),
     ru_open = (\<lambda>d _. Ok d), ru_read_string = (\<lambda>_ _ _. Err ROther),
     ru_detach_kernel_driver = (\<lambda>h i w. (if i = 1 then Err RNotFound else Ok (), w @ [CallDetachDriver h i])),
     ru_attach_kernel_driver = (\<lambda>h i w. (Ok (), w @ [CallAttachDriver h i])),
     ru_claim_interface = (\<lambda>h i w. (if i = 7 then Err RNotFound else Ok (), w @ [CallClaim h i])),
     ru_release_interface = (\<lambda>h i w. (Ok (), w @ [CallRelease h i])),
     ru_set_active_configuration = (\<lambda>_ _ w. (Ok (), w)),
     ru_read_control = (\<lambda>_ _ _ _ _ buf _ w. (Err ROther, buf, w)),
     ru_write_control = (\<lambda>_ _ _ _ _ _ _ w. (Err ROther, w)),
     ru_read_bulk = (\<lambda>_ _ buf _ w. (Err ROther, buf, w)),
     ru_write_bulk = (\<lambda>_ _ _ _ w. (Err ROther, w)),
     ru_read_interrupt = (\<lambda>_ _ buf _ w. (Err ROther, buf, w)),
     ru_write_interrupt = (\<lambda>_ _ _ _ w. (Err ROther, w))\<rparr>"

lemma reads_ok_idle: "reads_ok (idle_usb ds)"
  by (simp add: reads_ok_def read_fills_def idle_usb_def)

end
