(* ===== verification/UsbTransfer.thy ===== *)
theory UsbTransfer
  imports Usb
begin

text \<open>
  \<open>src/src/server/transfer.rs\<close>: control, bulk and interrupt transfers on an open handle. A
  reading transfer passes a zeroed buffer and cuts it to the count returned.
\<close>

section \<open>The code\<close>

definition MAX_TRANSFER_BUFFER :: u32 where
  "MAX_TRANSFER_BUFFER = 16 * 1024 * 1024"

definition MIN_TIMEOUT_MS :: u64 where
  "MIN_TIMEOUT_MS = 1"

definition safe_timeout :: "u64 \<Rightarrow> Duration" where
  "safe_timeout timeout_ms = max timeout_ms MIN_TIMEOUT_MS"

definition capped_length :: "u32 \<Rightarrow> u64 \<Rightarrow> DeviceId \<Rightarrow> (TransferResponse, nat) result" where
  "capped_length len req_session req_device =
     (if MAX_TRANSFER_BUFFER < len then
        Err \<lparr>tr_session_id = req_session, tr_device_id = req_device, tr_success = False,
             tr_data = [], tr_bytes_transferred = 0,
             tr_error_message = Some (''Requested length '' @ show_word len
               @ '' exceeds maximum '' @ show_word MAX_TRANSFER_BUFFER)\<rparr>
      else Ok (unat len))"

definition execute_control_transfer ::
  "('w, 'd, 'h) rusb \<Rightarrow> 'h \<Rightarrow> ControlTransferRequest \<Rightarrow> 'w \<Rightarrow> TransferResponse \<times> 'w" where
  "execute_control_transfer usb handle req w =
     (let timeout = safe_timeout (ctq_timeout_ms req);
          direction_in = (ctq_request_type req AND 0x80 \<noteq> 0)
      in
      if direction_in then
        let buf = replicate (unat (ctq_length req)) 0 in
        (case ru_read_control usb handle (ctq_request_type req) (ctq_request req)
                (ctq_value req) (ctq_index req) buf timeout w of
           (Inr n, buf, w) \<Rightarrow>
             (\<lparr>tr_session_id = ctq_session_id req, tr_device_id = ctq_device_id req,
               tr_success = True, tr_data = take n buf, tr_bytes_transferred = of_nat n,
               tr_error_message = None\<rparr>, w)
         | (Inl e, buf, w) \<Rightarrow>
             (\<lparr>tr_session_id = ctq_session_id req, tr_device_id = ctq_device_id req,
               tr_success = False, tr_data = [], tr_bytes_transferred = 0,
               tr_error_message = Some (ru_strerror usb e)\<rparr>, w))
      else
        (case ru_write_control usb handle (ctq_request_type req) (ctq_request req)
                (ctq_value req) (ctq_index req) (ctq_data req) timeout w of
           (Inr n, w) \<Rightarrow>
             (\<lparr>tr_session_id = ctq_session_id req, tr_device_id = ctq_device_id req,
               tr_success = True, tr_data = [], tr_bytes_transferred = of_nat n,
               tr_error_message = None\<rparr>, w)
         | (Inl e, w) \<Rightarrow>
             (\<lparr>tr_session_id = ctq_session_id req, tr_device_id = ctq_device_id req,
               tr_success = False, tr_data = [], tr_bytes_transferred = 0,
               tr_error_message = Some (ru_strerror usb e)\<rparr>, w)))"

definition execute_bulk_transfer ::
  "('w, 'd, 'h) rusb \<Rightarrow> 'h \<Rightarrow> BulkTransferRequest \<Rightarrow> 'w \<Rightarrow> TransferResponse \<times> 'w" where
  "execute_bulk_transfer usb handle req w =
     (let timeout = safe_timeout (btq_timeout_ms req);
          direction_in = (btq_endpoint req AND 0x80 \<noteq> 0)
      in
      if direction_in then
        (case capped_length (btq_length req) (btq_session_id req) (btq_device_id req) of
           Inl resp \<Rightarrow> (resp, w)
         | Inr len \<Rightarrow>
             let buf = replicate len 0 in
             (case ru_read_bulk usb handle (btq_endpoint req) buf timeout w of
                (Inr n, buf, w) \<Rightarrow>
                  (\<lparr>tr_session_id = btq_session_id req, tr_device_id = btq_device_id req,
                    tr_success = True, tr_data = take n buf, tr_bytes_transferred = of_nat n,
                    tr_error_message = None\<rparr>, w)
              | (Inl e, buf, w) \<Rightarrow>
                  (\<lparr>tr_session_id = btq_session_id req, tr_device_id = btq_device_id req,
                    tr_success = False, tr_data = [], tr_bytes_transferred = 0,
                    tr_error_message = Some (ru_strerror usb e)\<rparr>, w)))
      else
        (case ru_write_bulk usb handle (btq_endpoint req) (btq_data req) timeout w of
           (Inr n, w) \<Rightarrow>
             (\<lparr>tr_session_id = btq_session_id req, tr_device_id = btq_device_id req,
               tr_success = True, tr_data = [], tr_bytes_transferred = of_nat n,
               tr_error_message = None\<rparr>, w)
         | (Inl e, w) \<Rightarrow>
             (\<lparr>tr_session_id = btq_session_id req, tr_device_id = btq_device_id req,
               tr_success = False, tr_data = [], tr_bytes_transferred = 0,
               tr_error_message = Some (ru_strerror usb e)\<rparr>, w)))"

definition execute_interrupt_transfer ::
  "('w, 'd, 'h) rusb \<Rightarrow> 'h \<Rightarrow> InterruptTransferRequest \<Rightarrow> 'w \<Rightarrow> TransferResponse \<times> 'w" where
  "execute_interrupt_transfer usb handle req w =
     (let timeout = safe_timeout (itq_timeout_ms req);
          direction_in = (itq_endpoint req AND 0x80 \<noteq> 0)
      in
      if direction_in then
        (case capped_length (itq_length req) (itq_session_id req) (itq_device_id req) of
           Inl resp \<Rightarrow> (resp, w)
         | Inr len \<Rightarrow>
             let buf = replicate len 0 in
             (case ru_read_interrupt usb handle (itq_endpoint req) buf timeout w of
                (Inr n, buf, w) \<Rightarrow>
                  (\<lparr>tr_session_id = itq_session_id req, tr_device_id = itq_device_id req,
                    tr_success = True, tr_data = take n buf, tr_bytes_transferred = of_nat n,
                    tr_error_message = None\<rparr>, w)
              | (Inl e, buf, w) \<Rightarrow>
                  (\<lparr>tr_session_id = itq_session_id req, tr_device_id = itq_device_id req,
                    tr_success = False, tr_data = [], tr_bytes_transferred = 0,
                    tr_error_message = Some (ru_strerror usb e)\<rparr>, w)))
      else
        (case ru_write_interrupt usb handle (itq_endpoint req) (itq_data req) timeout w of
           (Inr n, w) \<Rightarrow>
             (\<lparr>tr_session_id = itq_session_id req, tr_device_id = itq_device_id req,
               tr_success = True, tr_data = [], tr_bytes_transferred = of_nat n,
               tr_error_message = None\<rparr>, w)
         | (Inl e, w) \<Rightarrow>
             (\<lparr>tr_session_id = itq_session_id req, tr_device_id = itq_device_id req,
               tr_success = False, tr_data = [], tr_bytes_transferred = 0,
               tr_error_message = Some (ru_strerror usb e)\<rparr>, w)))"

section \<open>What a transfer answers\<close>

text \<open>
  A well-formed answer to a request that asked for at most \<open>n\<close> bytes: it names the request's
  session and device; a success carries no error text, and the bytes it carries are at most
  \<open>n\<close> and as many as it counts for a read, none for a write; a failure carries a text and
  nothing else.
\<close>

definition transfer_answers :: "u64 \<Rightarrow> DeviceId \<Rightarrow> nat \<Rightarrow> bool \<Rightarrow> TransferResponse \<Rightarrow> bool" where
  "transfer_answers sid did n is_read resp \<longleftrightarrow>
     tr_session_id resp = sid \<and> tr_device_id resp = did \<and>
     (if tr_success resp
      then tr_error_message resp = None \<and>
           (if is_read then length (tr_data resp) \<le> n \<and>
              tr_bytes_transferred resp = of_nat (length (tr_data resp))
            else tr_data resp = [])
      else tr_error_message resp \<noteq> None \<and> tr_data resp = [] \<and> tr_bytes_transferred resp = 0)"

lemma safe_timeout_pos: "1 \<le> safe_timeout t"
  by (simp add: safe_timeout_def MIN_TIMEOUT_MS_def)

lemma safe_timeout_id: "1 \<le> t \<Longrightarrow> safe_timeout t = t"
  by (simp add: safe_timeout_def MIN_TIMEOUT_MS_def max_absorb1)

lemma unat_MAX_TRANSFER_BUFFER: "unat MAX_TRANSFER_BUFFER = 2 ^ 24"
  by (simp add: MAX_TRANSFER_BUFFER_def)

lemma capped_length_Ok:
  "capped_length len s d = Ok n \<longleftrightarrow> n = unat len \<and> n \<le> 2 ^ 24"
  by (auto simp: capped_length_def word_less_nat_alt unat_MAX_TRANSFER_BUFFER)

lemma capped_length_Err:
  "capped_length len s d = Err resp \<Longrightarrow> transfer_answers s d n b resp \<and> \<not> tr_success resp"
  by (auto simp: capped_length_def transfer_answers_def split: if_splits)

lemma reads_okD:
  assumes "reads_ok usb"
  shows "ru_read_control usb h rt rq v i buf t w = (Ok n, buf', w') \<Longrightarrow>
           length (take n buf') = n \<and> n \<le> length buf"
    and "ru_read_bulk usb h ep buf t w = (Ok n, buf', w') \<Longrightarrow>
           length (take n buf') = n \<and> n \<le> length buf"
    and "ru_read_interrupt usb h ep buf t w = (Ok n, buf', w') \<Longrightarrow>
           length (take n buf') = n \<and> n \<le> length buf"
  using assms by (fastforce simp: reads_ok_def read_fills_def)+

lemma control_transfer_answers:
  assumes "reads_ok usb"
  shows "transfer_answers (ctq_session_id req) (ctq_device_id req) (unat (ctq_length req))
           (ctq_request_type req AND 0x80 \<noteq> 0) (fst (execute_control_transfer usb h req w))"
  using reads_okD(1) [OF assms]
  by (force simp: execute_control_transfer_def transfer_answers_def Let_def
      split: if_splits prod.splits sum.splits)

lemma bulk_transfer_answers:
  assumes "reads_ok usb"
  shows "transfer_answers (btq_session_id req) (btq_device_id req) (min (unat (btq_length req)) (2 ^ 24))
           (btq_endpoint req AND 0x80 \<noteq> 0) (fst (execute_bulk_transfer usb h req w))"
  using reads_okD(2) [OF assms]
  by (force simp: execute_bulk_transfer_def Let_def capped_length_Ok
      dest: capped_length_Err simp: transfer_answers_def
      split: if_splits prod.splits sum.splits)

lemma interrupt_transfer_answers:
  assumes "reads_ok usb"
  shows "transfer_answers (itq_session_id req) (itq_device_id req) (min (unat (itq_length req)) (2 ^ 24))
           (itq_endpoint req AND 0x80 \<noteq> 0) (fst (execute_interrupt_transfer usb h req w))"
  using reads_okD(3) [OF assms]
  by (force simp: execute_interrupt_transfer_def Let_def capped_length_Ok
      dest: capped_length_Err simp: transfer_answers_def
      split: if_splits prod.splits sum.splits)

text \<open>C30: over any interface that honours the read contract, the answer to a control, bulk or
  interrupt transfer names the session and device of its request; a successful read carries at
  most the bytes asked for (and at most 16 MiB for bulk and interrupt) and counts exactly those
  it carries; a write carries none; a failure has a text, no data and a zero count.\<close>

theorem transfers_answer_request:
  assumes "reads_ok usb"
  shows "transfer_answers (ctq_session_id creq) (ctq_device_id creq) (unat (ctq_length creq))
           (ctq_request_type creq AND 0x80 \<noteq> 0) (fst (execute_control_transfer usb h creq w)) \<and>
         transfer_answers (btq_session_id breq) (btq_device_id breq) (min (unat (btq_length breq)) (2 ^ 24))
           (btq_endpoint breq AND 0x80 \<noteq> 0) (fst (execute_bulk_transfer usb h breq w)) \<and>
         transfer_answers (itq_session_id ireq) (itq_device_id ireq) (min (unat (itq_length ireq)) (2 ^ 24))
           (itq_endpoint ireq AND 0x80 \<noteq> 0) (fst (execute_interrupt_transfer usb h ireq w))"
  using control_transfer_answers [OF assms] bulk_transfer_answers [OF assms]
    interrupt_transfer_answers [OF assms] by blast

definition sample_bulk_read :: "u32 \<Rightarrow> BulkTransferRequest" where
  "sample_bulk_read n = \<lparr>btq_session_id = 1, btq_device_id = \<lparr>bus_number = 1, address = 2\<rparr>,
     btq_endpoint = 0x81, btq_data = [], btq_length = n, btq_timeout_ms = 0\<rparr>"

theorem transfers_answer_request_witness:
  "transfer_answers 1 \<lparr>bus_number = 1, address = 2\<rparr> 2 True
     (fst (execute_bulk_transfer (idle_usb []) (1, 2) (sample_bulk_read 2) ()))"
proof -
  have "btq_session_id (sample_bulk_read 2) = 1" "btq_endpoint (sample_bulk_read 2) AND 0x80 \<noteq> 0"
    "btq_device_id (sample_bulk_read 2) = \<lparr>bus_number = 1, address = 2\<rparr>"
    "min (unat (btq_length (sample_bulk_read 2))) (2 ^ 24) = 2"
    by (simp_all add: sample_bulk_read_def)
  then show ?thesis
    using transfers_answer_request [OF reads_ok_idle [of "[]"], where breq = "sample_bulk_read 2" and h = "(1, 2)" and w = "()"]
    by (simp only: simp_thms)
qed

text \<open>A bulk or interrupt read that asks for more than 16 MiB is answered by an error that
  names the length and the limit, and nothing is sent to the device.\<close>

lemma oversized_read_refused:
  assumes "2 ^ 24 < unat (btq_length breq)" "btq_endpoint breq AND 0x80 \<noteq> 0"
    and "2 ^ 24 < unat (itq_length ireq)" "itq_endpoint ireq AND 0x80 \<noteq> 0"
    and "execute_bulk_transfer usb h breq w = (bresp, wb)"
    and "execute_interrupt_transfer usb h ireq w = (iresp, wi)"
  shows "wb = w \<and> \<not> tr_success bresp \<and> tr_error_message bresp = Some (''Requested length ''
             @ show_word (btq_length breq) @ '' exceeds maximum 16777216'') \<and>
         wi = w \<and> \<not> tr_success iresp \<and> tr_error_message iresp = Some (''Requested length ''
             @ show_word (itq_length ireq) @ '' exceeds maximum 16777216'')"
proof -
  have "show_word MAX_TRANSFER_BUFFER = ''16777216''"
    by (simp add: MAX_TRANSFER_BUFFER_def dec_eval)
  with assms show ?thesis
    by (auto simp: execute_bulk_transfer_def execute_interrupt_transfer_def Let_def
        capped_length_def word_less_nat_alt unat_MAX_TRANSFER_BUFFER)
qed

definition sample_interrupt_read :: "u32 \<Rightarrow> InterruptTransferRequest" where
  "sample_interrupt_read n = \<lparr>itq_session_id = 1, itq_device_id = \<lparr>bus_number = 1, address = 2\<rparr>,
     itq_endpoint = 0x81, itq_data = [], itq_length = n, itq_timeout_ms = 0\<rparr>"

lemma oversized_read_refused_instance:
  "tr_error_message (fst (execute_bulk_transfer (idle_usb []) (1, 2) (sample_bulk_read 16777217) ())) =
     Some ''Requested length 16777217 exceeds maximum 16777216''"
proof -
  have len: "2 ^ 24 < unat (btq_length (sample_bulk_read 16777217))"
      "2 ^ 24 < unat (itq_length (sample_interrupt_read 16777217))"
    and ep: "btq_endpoint (sample_bulk_read 16777217) AND 0x80 \<noteq> 0"
      "itq_endpoint (sample_interrupt_read 16777217) AND 0x80 \<noteq> 0"
    by (simp_all add: sample_bulk_read_def sample_interrupt_read_def)
  have "show_word (btq_length (sample_bulk_read 16777217)) = ''16777217''"
    by (simp add: sample_bulk_read_def dec_eval)
  with oversized_read_refused [OF len(1) ep(1) len(2) ep(2) surjective_pairing surjective_pairing,
      of "idle_usb []" "(1, 2)" "()"]
  show ?thesis by simp
qed

text \<open>
  Two interfaces that act alike on every timeout of at least one millisecond (libusb takes
  zero to mean no timeout).
\<close>

definition agree_on_timeouts :: "('w, 'd, 'h) rusb \<Rightarrow> ('w, 'd, 'h) rusb \<Rightarrow> bool" where
  "agree_on_timeouts u v \<longleftrightarrow> ru_strerror u = ru_strerror v \<and>
     (\<forall>h rt rq vl i b w t. 1 \<le> t \<longrightarrow> ru_read_control u h rt rq vl i b t w = ru_read_control v h rt rq vl i b t w) \<and>
     (\<forall>h rt rq vl i b w t. 1 \<le> t \<longrightarrow> ru_write_control u h rt rq vl i b t w = ru_write_control v h rt rq vl i b t w) \<and>
     (\<forall>h ep b w t. 1 \<le> t \<longrightarrow> ru_read_bulk u h ep b t w = ru_read_bulk v h ep b t w) \<and>
     (\<forall>h ep b w t. 1 \<le> t \<longrightarrow> ru_write_bulk u h ep b t w = ru_write_bulk v h ep b t w) \<and>
     (\<forall>h ep b w t. 1 \<le> t \<longrightarrow> ru_read_interrupt u h ep b t w = ru_read_interrupt v h ep b t w) \<and>
     (\<forall>h ep b w t. 1 \<le> t \<longrightarrow> ru_write_interrupt u h ep b t w = ru_write_interrupt v h ep b t w)"

text \<open>C31: no transfer ever reaches the device with a zero timeout: on interfaces that differ
  only in what a zero timeout does, every transfer has the same answer and effect.\<close>

theorem no_infinite_timeout:
  assumes "agree_on_timeouts u v"
  shows "execute_control_transfer u h creq w = execute_control_transfer v h creq w \<and>
         execute_bulk_transfer u h breq w = execute_bulk_transfer v h breq w \<and>
         execute_interrupt_transfer u h ireq w = execute_interrupt_transfer v h ireq w"
  using assms safe_timeout_pos
  by (simp add: agree_on_timeouts_def execute_control_transfer_def execute_bulk_transfer_def
      execute_interrupt_transfer_def Let_def split: prod.split sum.split)

definition blocking_usb :: "(unit, u8 \<times> u8, u8 \<times> u8) rusb" where
  "blocking_usb = (idle_usb [])\<lparr>ru_read_bulk := (\<lambda>_ _ buf t w. (if t = 0 then Err ROther else Ok (length buf), buf, w))\<rparr>"

theorem no_infinite_timeout_witness:
  "blocking_usb \<noteq> idle_usb [] \<and>
   execute_bulk_transfer blocking_usb (1, 2) (sample_bulk_read 2) () =
   execute_bulk_transfer (idle_usb []) (1, 2) (sample_bulk_read 2) ()"
proof -
  have ag: "agree_on_timeouts blocking_usb (idle_usb [])"
    by (auto simp: agree_on_timeouts_def blocking_usb_def idle_usb_def)
  have "ru_read_bulk blocking_usb (1, 2) 0 [] 0 () \<noteq> ru_read_bulk (idle_usb []) (1, 2) 0 [] 0 ()"
    by (simp add: blocking_usb_def idle_usb_def)
  then have "blocking_usb \<noteq> idle_usb []" by auto
  with no_infinite_timeout [OF ag, where breq = "sample_bulk_read 2"] show ?thesis by blast
qed

end
