(* ===== verification/DeviceManager.thy ===== *)
theory DeviceManager
  imports Usb
begin

text \<open>
  \<open>src/src/server/device_manager.rs\<close>: enumeration of devices and their descriptors, and the
  table of attached devices with the sessions that hold them. Every operation takes the
  \<open>rusb\<close> interface and the USB state \<open>w\<close>; the ones that act on a device return the state they
  leave. Hash maps are maps. The counter of sessions is a \<open>u64\<close> that wraps, as in a release
  build. Log output is left out, and so is the closing of a handle that is dropped: a transfer in
  flight shares the handle, so libusb closes it whenever the last holder lets go of it, which is a
  change of the USB state by the environment.
\<close>

section \<open>State\<close>

text \<open>A socket address is represented by its text, which is all the code uses.\<close>

type_synonym SocketAddr = string

record 'h AttachmentInfo =
  handle :: 'h
  at_vendor_id :: u16
  at_product_id :: u16
  detached_kernel_drivers :: "u8 list"
  claimed_interfaces :: "u8 list"
  client_addr :: SocketAddr

record 'h DeviceManager =
  attachments :: "DeviceId \<rightharpoonup> 'h AttachmentInfo"
  next_session_id :: u64
  session_to_device :: "u64 \<rightharpoonup> DeviceId"

definition dm_empty :: "'h DeviceManager" where
  "dm_empty = \<lparr>attachments = Map.empty, next_session_id = 1, session_to_device = Map.empty\<rparr>"

definition dm_new :: "('w, 'd, 'h) rusb \<Rightarrow> 'w \<Rightarrow> (WolfUsbError, 'h DeviceManager) result" where
  "dm_new usb w =
     (case usb_result (ru_context usb w) of
        Inl e \<Rightarrow> Err e
      | Inr _ \<Rightarrow> Ok dm_empty)"

section \<open>Enumeration and descriptors\<close>

definition read_string_desc ::
  "('w, 'd, 'h) rusb \<Rightarrow> 'w \<Rightarrow> 'h \<Rightarrow> u8 option \<Rightarrow> string option" where
  "read_string_desc usb w h index =
     (case index of
        None \<Rightarrow> None
      | Some idx \<Rightarrow> if idx = 0 then None else ok (ru_read_string usb h idx w))"

definition device_id_of :: "('w, 'd, 'h) rusb \<Rightarrow> 'd \<Rightarrow> DeviceId" where
  "device_id_of usb d = \<lparr>bus_number = ru_bus_number usb d, address = ru_address usb d\<rparr>"

definition device_info ::
  "('w, 'd, 'h) rusb \<Rightarrow> 'd \<Rightarrow> DeviceId \<Rightarrow> device_descriptor \<Rightarrow>
     string option \<Rightarrow> string option \<Rightarrow> string option \<Rightarrow> DeviceInfo" where
  "device_info usb d did desc mfr prd serial =
     \<lparr>di_device_id = did,
      di_vendor_id = dd_vendor_id desc,
      di_product_id = dd_product_id desc,
      di_class_code = dd_class_code desc,
      di_sub_class_code = dd_sub_class_code desc,
      di_protocol_code = dd_protocol_code desc,
      di_max_packet_size_ep0 = dd_max_packet_size desc,
      di_num_configurations = dd_num_configurations desc,
      di_usb_version = dd_usb_version desc,
      di_device_version = dd_device_version desc,
      di_speed = speed_from (ru_speed usb d),
      di_port_number = ru_port_number usb d,
      di_manufacturer = mfr,
      di_product = prd,
      di_serial_number = serial\<rparr>"

definition list_one :: "('w, 'd, 'h) rusb \<Rightarrow> 'w \<Rightarrow> 'd \<Rightarrow> DeviceInfo option" where
  "list_one usb w d =
     (case ru_device_descriptor usb d w of
        Inl e \<Rightarrow> None
      | Inr desc \<Rightarrow>
          let (mfr, prd, serial) =
            (case ru_open usb d w of
               Inr h \<Rightarrow> (read_string_desc usb w h (dd_manufacturer_string_index desc),
                          read_string_desc usb w h (dd_product_string_index desc),
                          read_string_desc usb w h (dd_serial_number_string_index desc))
             | Inl _ \<Rightarrow> (None, None, None))
          in Some (device_info usb d (device_id_of usb d) desc mfr prd serial))"

definition list_devices ::
  "('w, 'd, 'h) rusb \<Rightarrow> 'w \<Rightarrow> (WolfUsbError, DeviceInfo list) result" where
  "list_devices usb w =
     (case usb_result (ru_devices usb w) of
        Inl e \<Rightarrow> Err e
      | Inr ds \<Rightarrow> Ok (List.map_filter (list_one usb w) ds))"

definition find_device ::
  "('w, 'd, 'h) rusb \<Rightarrow> DeviceId \<Rightarrow> 'w \<Rightarrow> (WolfUsbError, 'd) result" where
  "find_device usb did w =
     (case usb_result (ru_devices usb w) of
        Inl e \<Rightarrow> Err e
      | Inr ds \<Rightarrow>
          (case find (\<lambda>d. ru_bus_number usb d = bus_number did \<and> ru_address usb d = address did) ds of
             None \<Rightarrow> Err (DeviceNotFound (bus_number did) (address did))
           | Some d \<Rightarrow> Ok d))"

definition endpoint_info :: "endpoint_descriptor \<Rightarrow> EndpointInfo" where
  "endpoint_info ep =
     \<lparr>ep_address = ed_address ep, ep_number = ed_number ep,
      ep_direction = direction_from (ed_direction ep),
      ep_transfer_type = transfer_type_from (ed_transfer_type ep),
      ep_max_packet_size = ed_max_packet_size ep, ep_interval = ed_interval ep\<rparr>"

definition interface_info ::
  "(u8 option \<Rightarrow> string option) \<Rightarrow> interface_descriptor \<Rightarrow> InterfaceInfo" where
  "interface_info str setting =
     \<lparr>ii_interface_number = id_interface_number setting,
      ii_setting_number = id_setting_number setting,
      ii_class_code = id_class_code setting,
      ii_sub_class_code = id_sub_class_code setting,
      ii_protocol_code = id_protocol_code setting,
      ii_num_endpoints = id_num_endpoints setting,
      ii_description = str (id_description_string_index setting),
      ii_endpoints = map endpoint_info (id_endpoint_descriptors setting)\<rparr>"

definition configuration_info ::
  "(u8 option \<Rightarrow> string option) \<Rightarrow> config_descriptor \<Rightarrow> ConfigurationInfo" where
  "configuration_info str config =
     \<lparr>ci_number = cd_number config,
      ci_num_interfaces = cd_num_interfaces config,
      ci_max_power_ma = cd_max_power config,
      ci_self_powered = cd_self_powered config,
      ci_remote_wakeup = cd_remote_wakeup config,
      ci_description = str (cd_description_string_index config),
      ci_interfaces = concat (map (\<lambda>iface. map (interface_info str) (if_descriptors iface))
                        (cd_interfaces config))\<rparr>"

definition tree_device_info ::
  "('w, 'd, 'h) rusb \<Rightarrow> 'd \<Rightarrow> DeviceId \<Rightarrow> device_descriptor \<Rightarrow>
     string option \<Rightarrow> string option \<Rightarrow> string option \<Rightarrow> DeviceInfo" where
  "tree_device_info usb d did desc mfr prd serial =
     \<lparr>di_device_id = did,
      di_vendor_id = dd_vendor_id desc,
      di_product_id = dd_product_id desc,
      di_class_code = dd_class_code desc,
      di_sub_class_code = dd_sub_class_code desc,
      di_protocol_code = dd_protocol_code desc,
      di_max_packet_size_ep0 = dd_max_packet_size desc,
      di_num_configurations = dd_num_configurations desc,
      di_usb_version = dd_usb_version desc,
      di_device_version = dd_device_version desc,
      di_speed = speed_from (ru_speed usb d),
      di_port_number = ru_port_number usb d,
      di_manufacturer = mfr,
      di_product = prd,
      di_serial_number = serial\<rparr>"

text \<open>
  \<open>handle\<close> is optional: without one no string is read. A configuration whose descriptor cannot
  be read is skipped.
\<close>

definition get_descriptors ::
  "('w, 'd, 'h) rusb \<Rightarrow> DeviceId \<Rightarrow> 'w \<Rightarrow> (WolfUsbError, DeviceDescriptorTree) result" where
  "get_descriptors usb did w =
     (case find_device usb did w of
        Inl e \<Rightarrow> Err e
      | Inr d \<Rightarrow>
          (case usb_result (ru_device_descriptor usb d w) of
             Inl e \<Rightarrow> Err e
           | Inr desc \<Rightarrow>
               let hd = ok (ru_open usb d w);
                   str = (\<lambda>idx. Option.bind hd (\<lambda>h. read_string_desc usb w h idx));
                   info = tree_device_info usb d did desc
                            (str (dd_manufacturer_string_index desc))
                            (str (dd_product_string_index desc))
                            (str (dd_serial_number_string_index desc));
                   cfgs = List.map_filter
                            (\<lambda>i. map_option (configuration_info str)
                                    (ok (ru_config_descriptor usb d (of_nat i) w)))
                            [0..<unat (dd_num_configurations desc)]
               in Ok \<lparr>tree_device = info, tree_configurations = cfgs\<rparr>))"

section \<open>Attaching and detaching\<close>

text \<open>The interfaces whose kernel driver was detached, in order; any error is only logged.\<close>

fun detach_drivers ::
  "('w, 'd, 'h) rusb \<Rightarrow> 'h \<Rightarrow> u8 list \<Rightarrow> 'w \<Rightarrow> u8 list \<times> 'w" where
  "detach_drivers usb h [] w = ([], w)"
| "detach_drivers usb h (iface_num # ifaces) w =
     (case ru_detach_kernel_driver usb h iface_num w of
        (Inr _, w) \<Rightarrow> (case detach_drivers usb h ifaces w of (ds, w) \<Rightarrow> (iface_num # ds, w))
      | (Inl _, w) \<Rightarrow> detach_drivers usb h ifaces w)"

definition dm_attach ::
  "('w, 'd, 'h) rusb \<Rightarrow> 'h DeviceManager \<Rightarrow> DeviceId \<Rightarrow> SocketAddr \<Rightarrow> 'w \<Rightarrow>
     (WolfUsbError, u64) result \<times> 'h DeviceManager \<times> 'w" where
  "dm_attach usb dm did addr w =
     (if attachments dm did \<noteq> None then (Err DeviceAlreadyAttached, dm, w)
      else
        (case find_device usb did w of
           Inl e \<Rightarrow> (Err e, dm, w)
         | Inr d \<Rightarrow>
             (case usb_result (ru_device_descriptor usb d w) of
                Inl e \<Rightarrow> (Err e, dm, w)
              | Inr desc \<Rightarrow>
                  (case usb_result (ru_open usb d w) of
                     Inl e \<Rightarrow> (Err e, dm, w)
                   | Inr h \<Rightarrow>
                       let (detached_drivers, w) =
                             (case ru_active_config_descriptor usb d w of
                                Inr config \<Rightarrow> detach_drivers usb h (map if_number (cd_interfaces config)) w
                              | Inl _ \<Rightarrow> ([], w));
                           session_id = next_session_id dm;
                           dm = dm\<lparr>next_session_id := next_session_id dm + 1\<rparr>;
                           dm = dm\<lparr>session_to_device := (session_to_device dm)(session_id \<mapsto> did)\<rparr>;
                           dm = dm\<lparr>attachments := (attachments dm)(did \<mapsto>
                                  \<lparr>handle = h, at_vendor_id = dd_vendor_id desc,
                                   at_product_id = dd_product_id desc,
                                   detached_kernel_drivers = detached_drivers,
                                   claimed_interfaces = [], client_addr = addr\<rparr>)\<rparr>
                       in (Ok session_id, dm, w)))))"

text \<open>The loops of \<open>detach\<close> over the claimed interfaces and the detached drivers.\<close>

definition release_all :: "('w, 'd, 'h) rusb \<Rightarrow> 'h \<Rightarrow> u8 list \<Rightarrow> 'w \<Rightarrow> 'w" where
  "release_all usb h ifaces w = fold (\<lambda>i w. snd (ru_release_interface usb h i w)) ifaces w"

definition reattach_all :: "('w, 'd, 'h) rusb \<Rightarrow> 'h \<Rightarrow> u8 list \<Rightarrow> 'w \<Rightarrow> 'w" where
  "reattach_all usb h ifaces w = fold (\<lambda>i w. snd (ru_attach_kernel_driver usb h i w)) ifaces w"

definition dm_detach ::
  "('w, 'd, 'h) rusb \<Rightarrow> 'h DeviceManager \<Rightarrow> DeviceId \<Rightarrow> u64 \<Rightarrow> 'w \<Rightarrow>
     (WolfUsbError, unit) result \<times> 'h DeviceManager \<times> 'w" where
  "dm_detach usb dm did session_id w =
     (case attachments dm did of
        None \<Rightarrow> (Err DeviceNotAttached, dm, w)
      | Some attachment \<Rightarrow>
          let dm = dm\<lparr>attachments := (attachments dm)(did := None)\<rparr>;
              w = release_all usb (handle attachment) (claimed_interfaces attachment) w;
              w = reattach_all usb (handle attachment) (detached_kernel_drivers attachment) w;
              dm = dm\<lparr>session_to_device := (session_to_device dm)(session_id := None)\<rparr>
          in (Ok (), dm, w))"

fun detach_all_for_sessions ::
  "('w, 'd, 'h) rusb \<Rightarrow> 'h DeviceManager \<Rightarrow> u64 list \<Rightarrow> 'w \<Rightarrow> 'h DeviceManager \<times> 'w" where
  "detach_all_for_sessions usb dm [] w = (dm, w)"
| "detach_all_for_sessions usb dm (session_id # sids) w =
     (case session_to_device dm session_id of
        Some did \<Rightarrow>
          (case dm_detach usb dm did session_id w of
             (_, dm, w) \<Rightarrow> detach_all_for_sessions usb dm sids w)
      | None \<Rightarrow> detach_all_for_sessions usb dm sids w)"

text \<open>The calls these loops make.\<close>

lemma detach_drivers_calls:
  "perform usb (map (CallDetachDriver h) ifaces) w = (rs, w') \<Longrightarrow>
     detach_drivers usb h ifaces w = ([i. (i, r) \<leftarrow> zip ifaces rs, r = Ok ()], w')"
  by (induction ifaces arbitrary: w rs) (auto split: prod.splits sum.splits)

lemma release_all_calls: "release_all usb h ifaces w = snd (perform usb (map (CallRelease h) ifaces) w)"
  by (induction ifaces arbitrary: w) (auto simp: release_all_def case_prod_beta)

lemma reattach_all_calls: "reattach_all usb h ifaces w = snd (perform usb (map (CallAttachDriver h) ifaces) w)"
  by (induction ifaces arbitrary: w) (auto simp: reattach_all_def case_prod_beta)

lemmas loop_calls = release_all_calls reattach_all_calls

section \<open>Operations on an attached device\<close>

definition dm_claim_interface ::
  "('w, 'd, 'h) rusb \<Rightarrow> 'h DeviceManager \<Rightarrow> DeviceId \<Rightarrow> u8 \<Rightarrow> 'w \<Rightarrow>
     (WolfUsbError, unit) result \<times> 'h DeviceManager \<times> 'w" where
  "dm_claim_interface usb dm did n w =
     (case attachments dm did of
        None \<Rightarrow> (Err DeviceNotAttached, dm, w)
      | Some attachment \<Rightarrow>
          (case ru_claim_interface usb (handle attachment) n w of
             (Inl e, w) \<Rightarrow> (Err (UsbError e), dm, w)
           | (Inr _, w) \<Rightarrow>
               (Ok (), dm\<lparr>attachments := (attachments dm)(did \<mapsto>
                   attachment\<lparr>claimed_interfaces := claimed_interfaces attachment @ [n]\<rparr>)\<rparr>, w)))"

definition dm_release_interface ::
  "('w, 'd, 'h) rusb \<Rightarrow> 'h DeviceManager \<Rightarrow> DeviceId \<Rightarrow> u8 \<Rightarrow> 'w \<Rightarrow>
     (WolfUsbError, unit) result \<times> 'h DeviceManager \<times> 'w" where
  "dm_release_interface usb dm did n w =
     (case attachments dm did of
        None \<Rightarrow> (Err DeviceNotAttached, dm, w)
      | Some attachment \<Rightarrow>
          (case ru_release_interface usb (handle attachment) n w of
             (Inl e, w) \<Rightarrow> (Err (UsbError e), dm, w)
           | (Inr _, w) \<Rightarrow>
               (Ok (), dm\<lparr>attachments := (attachments dm)(did \<mapsto>
                   attachment\<lparr>claimed_interfaces :=
                     filter (\<lambda>k. k \<noteq> n) (claimed_interfaces attachment)\<rparr>)\<rparr>, w)))"

definition dm_set_configuration ::
  "('w, 'd, 'h) rusb \<Rightarrow> 'h DeviceManager \<Rightarrow> DeviceId \<Rightarrow> u8 \<Rightarrow> 'w \<Rightarrow>
     (WolfUsbError, unit) result \<times> 'h DeviceManager \<times> 'w" where
  "dm_set_configuration usb dm did cfg w =
     (case attachments dm did of
        None \<Rightarrow> (Err DeviceNotAttached, dm, w)
      | Some attachment \<Rightarrow>
          (case ru_set_active_configuration usb (handle attachment) cfg w of
             (Inl e, w) \<Rightarrow> (Err (UsbError e), dm, w)
           | (Inr _, w) \<Rightarrow> (Ok (), dm, w)))"

text \<open>
  \<open>get_handle\<close> refuses a device whose vendor or product changed since it was attached. A
  device that is no longer found, or whose descriptor cannot be read, passes.
\<close>

definition get_handle ::
  "('w, 'd, 'h) rusb \<Rightarrow> 'h DeviceManager \<Rightarrow> DeviceId \<Rightarrow> 'w \<Rightarrow> (WolfUsbError, 'h) result" where
  "get_handle usb dm did w =
     (case attachments dm did of
        None \<Rightarrow> Err DeviceNotAttached
      | Some attachment \<Rightarrow>
          (case find_device usb did w of
             Inl _ \<Rightarrow> Ok (handle attachment)
           | Inr d \<Rightarrow>
               (case ru_device_descriptor usb d w of
                  Inl _ \<Rightarrow> Ok (handle attachment)
                | Inr desc \<Rightarrow>
                    if dd_vendor_id desc \<noteq> at_vendor_id attachment \<or>
                       dd_product_id desc \<noteq> at_product_id attachment
                    then Err (DeviceNotFound (bus_number did) (address did))
                    else Ok (handle attachment))))"

definition validate_session ::
  "'h DeviceManager \<Rightarrow> u64 \<Rightarrow> DeviceId \<Rightarrow> (WolfUsbError, unit) result" where
  "validate_session dm session_id did =
     (case session_to_device dm session_id of
        Some d \<Rightarrow> if d = did then Ok () else Err (InvalidSession session_id)
      | None \<Rightarrow> Err (InvalidSession session_id))"

section \<open>The table's invariant\<close>

text \<open>
  Sessions and attachments agree: each session in the table names an attached device, each
  attached device has a session, no two sessions name the same device, and every session was
  handed out by the counter.
\<close>

definition dm_inv :: "'h DeviceManager \<Rightarrow> bool" where
  "dm_inv dm \<longleftrightarrow>
     (\<forall>s d. session_to_device dm s = Some d \<longrightarrow> attachments dm d \<noteq> None) \<and>
     (\<forall>d. attachments dm d \<noteq> None \<longrightarrow> (\<exists>s. session_to_device dm s = Some d)) \<and>
     (\<forall>s s' d. session_to_device dm s = Some d \<and> session_to_device dm s' = Some d \<longrightarrow> s = s') \<and>
     (\<forall>s. session_to_device dm s \<noteq> None \<longrightarrow> s < next_session_id dm)"

lemma dm_invD:
  assumes "dm_inv dm"
  shows "session_to_device dm s = Some d \<Longrightarrow> attachments dm d \<noteq> None"
    and "attachments dm d \<noteq> None \<Longrightarrow> \<exists>s. session_to_device dm s = Some d"
    and "session_to_device dm s = Some d \<Longrightarrow> session_to_device dm s' = Some d \<Longrightarrow> s = s'"
    and "session_to_device dm s = Some d \<Longrightarrow> s < next_session_id dm"
  using assms unfolding dm_inv_def by blast+

lemma dm_invI:
  assumes "\<And>s d. session_to_device dm s = Some d \<Longrightarrow> attachments dm d \<noteq> None"
    and "\<And>d. attachments dm d \<noteq> None \<Longrightarrow> \<exists>s. session_to_device dm s = Some d"
    and "\<And>s s' d. session_to_device dm s = Some d \<Longrightarrow> session_to_device dm s' = Some d \<Longrightarrow> s = s'"
    and "\<And>s d. session_to_device dm s = Some d \<Longrightarrow> s < next_session_id dm"
  shows "dm_inv dm"
  using assms unfolding dm_inv_def by blast

lemma dm_inv_empty [simp]: "dm_inv dm_empty"
  by (simp add: dm_inv_def dm_empty_def)

lemma word_less_Suc:
  fixes x :: "'a::len word"
  assumes "x + 1 \<noteq> 0"
  shows "y < x + 1 \<longleftrightarrow> y \<le> x"
  using unatSuc [of x] assms by (simp add: word_less_nat_alt word_le_nat_alt add.commute less_Suc_eq_le)

text \<open>Attaching: what success and failure mean.\<close>

lemma dm_attach_OkE:
  assumes "dm_attach usb dm did addr w = (Ok sid, dm', w')"
  obtains d desc h ds where "attachments dm did = None" "sid = next_session_id dm"
    "find_device usb did w = Ok d" "ru_device_descriptor usb d w = Ok desc" "ru_open usb d w = Ok h"
    "(ds, w') = (case ru_active_config_descriptor usb d w of
        Inr config \<Rightarrow> detach_drivers usb h (map if_number (cd_interfaces config)) w
      | Inl _ \<Rightarrow> ([], w))"
    "dm' = dm\<lparr>next_session_id := next_session_id dm + 1,
         session_to_device := (session_to_device dm)(sid \<mapsto> did),
         attachments := (attachments dm)(did \<mapsto>
           \<lparr>handle = h, at_vendor_id = dd_vendor_id desc, at_product_id = dd_product_id desc,
            detached_kernel_drivers = ds, claimed_interfaces = [], client_addr = addr\<rparr>)\<rparr>"
proof -
  from assms obtain d where free: "attachments dm did = None" and d: "find_device usb did w = Ok d"
    by (auto simp: dm_attach_def split: if_splits sum.splits)
  with assms obtain desc where desc: "ru_device_descriptor usb d w = Ok desc"
    by (cases "ru_device_descriptor usb d w") (auto simp: dm_attach_def)
  with assms free d obtain h where h: "ru_open usb d w = Ok h"
    by (cases "ru_open usb d w") (auto simp: dm_attach_def)
  obtain ds w1 where ds: "(case ru_active_config_descriptor usb d w of
        Inr config \<Rightarrow> detach_drivers usb h (map if_number (cd_interfaces config)) w
      | Inl _ \<Rightarrow> ([], w)) = (ds, w1)" by fastforce
  from assms free d desc h ds show ?thesis
    by (intro that [of d desc h ds]) (auto simp: dm_attach_def Let_def)
qed

lemma dm_attach_Ok:
  assumes "dm_attach usb dm did addr w = (Ok sid, dm', w')"
  shows "attachments dm did = None" "sid = next_session_id dm"
    "next_session_id dm' = next_session_id dm + 1"
    "session_to_device dm' = (session_to_device dm)(sid \<mapsto> did)"
    "\<exists>at. attachments dm' = (attachments dm)(did \<mapsto> at)"
  by (rule dm_attach_OkE [OF assms]; simp; blast)+

lemma dm_attach_Err:
  "dm_attach usb dm did addr w = (Err e, dm', w') \<Longrightarrow> dm' = dm \<and> w' = w"
  by (auto simp: dm_attach_def Let_def split: if_splits sum.splits prod.splits)

lemma dm_detach_attached:
  "attachments dm did = Some at \<Longrightarrow>
     dm_detach usb dm did sid w =
       (Ok (), dm\<lparr>attachments := (attachments dm)(did := None),
                  session_to_device := (session_to_device dm)(sid := None)\<rparr>,
        reattach_all usb (handle at) (detached_kernel_drivers at)
          (release_all usb (handle at) (claimed_interfaces at) w))"
  by (simp add: dm_detach_def Let_def)

lemma dm_detach_unattached:
  "attachments dm did = None \<Longrightarrow> dm_detach usb dm did sid w = (Err DeviceNotAttached, dm, w)"
  by (simp add: dm_detach_def)

lemma validate_session_Ok [simp]:
  "validate_session dm sid did = Ok () \<longleftrightarrow> session_to_device dm sid = Some did"
  by (auto simp: validate_session_def split: option.splits)

text \<open>One preservation lemma per operation.\<close>

lemma dm_inv_attach:
  assumes "dm_inv dm" "dm_attach usb dm did addr w = (res, dm', w')"
    and "next_session_id dm + 1 \<noteq> 0"
  shows "dm_inv dm'"
proof (cases res)
  case (Inl e)
  with assms show ?thesis by (auto dest: dm_attach_Err)
next
  case (Inr sid)
  note ok = dm_attach_Ok [OF assms(2) [unfolded Inr]]
  from ok(5) obtain at where at: "attachments dm' = (attachments dm)(did \<mapsto> at)" by blast
  have fresh: "session_to_device dm sid = None"
    using dm_invD(4) [OF assms(1), of sid] ok(2) by (cases "session_to_device dm sid") auto
  have free: "session_to_device dm s \<noteq> Some did" for s
    using dm_invD(1) [OF assms(1), of s did] ok(1) by auto
  show ?thesis
    using assms(1) fresh free ok(2-4) at
    unfolding dm_inv_def by (auto simp: word_less_Suc [OF assms(3)] order_less_imp_le) (metis option.distinct(1))
qed

lemma dm_inv_detach:
  assumes "dm_inv dm" "session_to_device dm sid = Some did"
    and "dm_detach usb dm did sid w = (res, dm', w')"
  shows "dm_inv dm'"
proof -
  obtain at where "attachments dm did = Some at"
    using dm_invD(1) [OF assms(1,2)] by auto
  from dm_detach_attached [OF this, of usb sid w] assms(3)
  have dm': "dm' = dm\<lparr>attachments := (attachments dm)(did := None),
                  session_to_device := (session_to_device dm)(sid := None)\<rparr>" by simp
  have only: "session_to_device dm s = Some did \<Longrightarrow> s = sid" for s
    using dm_invD(3) [OF assms(1)] assms(2) by blast
  show ?thesis
  proof (rule dm_invI)
    fix s d
    assume "session_to_device dm' s = Some d"
    then have "session_to_device dm s = Some d" "s \<noteq> sid" by (auto simp: dm' split: if_splits)
    then show "attachments dm' d \<noteq> None" "s < next_session_id dm'"
      using dm_invD(1,4) [OF assms(1)] only by (auto simp: dm')
  next
    fix d
    assume "attachments dm' d \<noteq> None"
    then have "attachments dm d \<noteq> None" "d \<noteq> did" by (auto simp: dm' split: if_splits)
    then obtain s where "session_to_device dm s = Some d" "s \<noteq> sid"
      using dm_invD(2) [OF assms(1)] assms(2) by fastforce
    then show "\<exists>s. session_to_device dm' s = Some d" by (auto simp: dm')
  next
    fix s s' d
    assume "session_to_device dm' s = Some d" "session_to_device dm' s' = Some d"
    then show "s = s'" using dm_invD(3) [OF assms(1)] by (auto simp: dm' split: if_splits)
  qed
qed

lemma dm_inv_unchanged_tables:
  assumes "dm_inv dm" "dom (attachments dm') = dom (attachments dm)"
    "session_to_device dm' = session_to_device dm" "next_session_id dm' = next_session_id dm"
  shows "dm_inv dm'"
  using assms unfolding dm_inv_def by (metis domIff)

lemma claim_interface_tables:
  assumes "dm_claim_interface usb dm did n w = (res, dm', w')"
  shows "dom (attachments dm') = dom (attachments dm)"
    "session_to_device dm' = session_to_device dm" "next_session_id dm' = next_session_id dm"
    "map_option handle (attachments dm' d) = map_option handle (attachments dm d)"
  using assms by (auto simp: dm_claim_interface_def split: option.splits sum.splits prod.splits if_splits)

lemma release_interface_tables:
  assumes "dm_release_interface usb dm did n w = (res, dm', w')"
  shows "dom (attachments dm') = dom (attachments dm)"
    "session_to_device dm' = session_to_device dm" "next_session_id dm' = next_session_id dm"
    "map_option handle (attachments dm' d) = map_option handle (attachments dm d)"
  using assms by (auto simp: dm_release_interface_def split: option.splits sum.splits prod.splits if_splits)

lemma set_configuration_tables:
  "dm_set_configuration usb dm did c w = (res, dm', w') \<Longrightarrow> dm' = dm"
  by (auto simp: dm_set_configuration_def split: option.splits sum.splits prod.splits)

text \<open>
  Cleaning up a list of sessions: exactly the devices they held are freed, whatever the order
  of the list and however often a session occurs in it.
\<close>

lemma detach_all_Some:
  assumes "dm_inv dm" "session_to_device dm sid = Some did"
  obtains w1 where "detach_all_for_sessions usb dm (sid # sids) w =
      detach_all_for_sessions usb (dm\<lparr>attachments := (attachments dm)(did := None),
        session_to_device := (session_to_device dm)(sid := None)\<rparr>) sids w1"
    and "dm_inv (dm\<lparr>attachments := (attachments dm)(did := None),
        session_to_device := (session_to_device dm)(sid := None)\<rparr>)"
proof -
  obtain at where at: "attachments dm did = Some at"
    using dm_invD(1) [OF assms] by auto
  note det = dm_detach_attached [OF at, of usb sid w]
  from det assms(2) show ?thesis
    by (intro that dm_inv_detach [OF assms det]) simp
qed

definition sessions_removed :: "'h DeviceManager \<Rightarrow> u64 set \<Rightarrow> 'h DeviceManager \<Rightarrow> bool" where
  "sessions_removed dm S dm' \<longleftrightarrow>
     session_to_device dm' = (session_to_device dm) |` (- S) \<and>
     attachments dm' = (attachments dm) |` {d. \<forall>s \<in> S. session_to_device dm s \<noteq> Some d} \<and>
     next_session_id dm' = next_session_id dm"

lemma sessions_removed_None:
  "session_to_device dm sid = None \<Longrightarrow> sessions_removed dm S dm' \<Longrightarrow>
     sessions_removed dm (insert sid S) dm'"
  by (auto simp: sessions_removed_def restrict_map_def fun_eq_iff)

lemma sessions_removed_Some:
  assumes inj: "\<And>s. session_to_device dm s = Some did \<Longrightarrow> s = sid"
    and sid: "session_to_device dm sid = Some did"
    and rest: "sessions_removed (dm\<lparr>attachments := (attachments dm)(did := None),
        session_to_device := (session_to_device dm)(sid := None)\<rparr>) S dm'"
  shows "sessions_removed dm (insert sid S) dm'"
proof -
  from rest have s: "session_to_device dm' = ((session_to_device dm)(sid := None)) |` (- S)"
    and a: "attachments dm' = ((attachments dm)(did := None)) |`
        {d. \<forall>s \<in> S. ((session_to_device dm)(sid := None)) s \<noteq> Some d}"
    and n: "next_session_id dm' = next_session_id dm"
    by (simp_all add: sessions_removed_def)
  have "session_to_device dm' = (session_to_device dm) |` (- insert sid S)"
    unfolding s by (auto simp: restrict_map_def)
  moreover have "attachments dm' = (attachments dm) |` {d. \<forall>s \<in> insert sid S. session_to_device dm s \<noteq> Some d}"
  proof
    fix d
    show "attachments dm' d = (attachments dm |` {d. \<forall>s \<in> insert sid S. session_to_device dm s \<noteq> Some d}) d"
    proof (cases "d = did")
      case True
      then show ?thesis using sid by (simp add: a restrict_map_def)
    next
      case False
      then have "(\<forall>s \<in> S. ((session_to_device dm)(sid := None)) s \<noteq> Some d) \<longleftrightarrow>
          (\<forall>s \<in> insert sid S. session_to_device dm s \<noteq> Some d)"
        using sid by (metis fun_upd_apply insert_iff option.distinct(1) option.inject)
      with False show ?thesis by (simp add: a restrict_map_def)
    qed
  qed
  ultimately show ?thesis using n by (simp add: sessions_removed_def)
qed

lemma detach_all_effect:
  "dm_inv dm \<Longrightarrow> detach_all_for_sessions usb dm sids w = (dm', w') \<Longrightarrow>
     dm_inv dm' \<and> sessions_removed dm (set sids) dm'"
proof (induction sids arbitrary: dm w)
  case Nil
  then show ?case by (simp add: sessions_removed_def restrict_map_def)
next
  case (Cons sid sids)
  show ?case
  proof (cases "session_to_device dm sid")
    case None
    with Cons show ?thesis by (auto intro: sessions_removed_None)
  next
    case (Some did)
    from detach_all_Some [OF Cons.prems(1) Some, of usb sids w] Cons.prems(2)
    obtain w1 where "detach_all_for_sessions usb (dm\<lparr>attachments := (attachments dm)(did := None),
        session_to_device := (session_to_device dm)(sid := None)\<rparr>) sids w1 = (dm', w')"
      and "dm_inv (dm\<lparr>attachments := (attachments dm)(did := None),
        session_to_device := (session_to_device dm)(sid := None)\<rparr>)" by metis
    from Cons.IH [OF this(2,1)] sessions_removed_Some [OF _ Some] dm_invD(3) [OF Cons.prems(1) Some]
    show ?thesis by (metis list.simps(15))
  qed
qed

text \<open>
  Whatever state the tables are in: the devices named by the sessions are freed, and a session is
  forgotten when its turn finds its device still attached, so when it is the first of the list that
  names it.
\<close>

lemma detach_all_tables:
  assumes "detach_all_for_sessions usb dm sids w = (dm', w')"
  shows "next_session_id dm' = next_session_id dm"
    and "attachments dm' d =
      (if \<exists>s \<in> set sids. session_to_device dm s = Some d then None else attachments dm d)"
    and "session_to_device dm' s =
      (case session_to_device dm s of
         None \<Rightarrow> None
       | Some d \<Rightarrow>
           if attachments dm d \<noteq> None \<and> find (\<lambda>t. session_to_device dm t = Some d) sids = Some s
           then None else Some d)"
proof -
  have "next_session_id dm' = next_session_id dm \<and>
    (\<forall>d. attachments dm' d =
      (if \<exists>s \<in> set sids. session_to_device dm s = Some d then None else attachments dm d)) \<and>
    (\<forall>s. session_to_device dm' s =
      (case session_to_device dm s of
         None \<Rightarrow> None
       | Some d \<Rightarrow>
           if attachments dm d \<noteq> None \<and> find (\<lambda>t. session_to_device dm t = Some d) sids = Some s
           then None else Some d))"
    using assms
  proof (induction sids arbitrary: dm w)
    case Nil
    then show ?case by (auto split: option.splits)
  next
    case (Cons sid sids)
    show ?case
    proof (cases "session_to_device dm sid")
      case None
      with Cons.prems have "detach_all_for_sessions usb dm sids w = (dm', w')" by simp
      from Cons.IH [OF this] None show ?thesis by (auto split: option.splits)
    next
      case (Some did)
      show ?thesis
      proof (cases "attachments dm did")
        case None
        with Some Cons.prems have "detach_all_for_sessions usb dm sids w = (dm', w')"
          by (simp add: dm_detach_unattached)
        from Cons.IH [OF this] None Some show ?thesis by (auto split: option.splits)
      next
        case at: (Some at)
        let ?dm = "dm\<lparr>attachments := (attachments dm)(did := None),
          session_to_device := (session_to_device dm)(sid := None)\<rparr>"
        from Some at Cons.prems obtain w1 where "detach_all_for_sessions usb ?dm sids w1 = (dm', w')"
          by (simp add: dm_detach_attached)
        note IH = Cons.IH [OF this]
        have same: "find (\<lambda>t. session_to_device ?dm t = Some d) sids =
            find (\<lambda>t. session_to_device dm t = Some d) sids" if "d \<noteq> did" for d
          using Some that by (intro find_cong) auto
        have "attachments dm' d = (if \<exists>s \<in> set (sid # sids). session_to_device dm s = Some d
            then None else attachments dm d)" for d
          using IH Some by (cases "d = did") auto
        moreover have "session_to_device dm' s =
            (case session_to_device dm s of
               None \<Rightarrow> None
             | Some d \<Rightarrow>
                 if attachments dm d \<noteq> None \<and> find (\<lambda>t. session_to_device dm t = Some d) (sid # sids) = Some s
                 then None else Some d)" for s
          using IH Some at same by (cases "s = sid") (auto split: option.splits)
        ultimately show ?thesis using IH by simp
      qed
    qed
  qed
  then show "next_session_id dm' = next_session_id dm"
    and "attachments dm' d =
      (if \<exists>s \<in> set sids. session_to_device dm s = Some d then None else attachments dm d)"
    and "session_to_device dm' s =
      (case session_to_device dm s of
         None \<Rightarrow> None
       | Some d \<Rightarrow>
           if attachments dm d \<noteq> None \<and> find (\<lambda>t. session_to_device dm t = Some d) sids = Some s
           then None else Some d)"
    by blast+
qed

section \<open>The contract of the session table\<close>

text \<open>
  What the connections rely on, free of how the table is kept: \<open>holds t s k\<close> says that session
  \<open>s\<close> holds key \<open>k\<close>. A key has at most one holder, a session holds one key, attaching works on
  a free key only and hands out a session that was never issued before, and detaching a key by
  its holder removes exactly that pair.
\<close>

locale session_table =
  fixes invar :: "'t \<Rightarrow> bool"
    and holds :: "'t \<Rightarrow> 's \<Rightarrow> 'k \<Rightarrow> bool"
    and occupied :: "'t \<Rightarrow> 'k \<Rightarrow> bool"
    and issued :: "'t \<Rightarrow> 's set"
    and attaches :: "'t \<Rightarrow> 'k \<Rightarrow> 's \<Rightarrow> 't \<Rightarrow> bool"
    and detaches :: "'t \<Rightarrow> 'k \<Rightarrow> 's \<Rightarrow> 't \<Rightarrow> bool"
  assumes holds_functional: "holds t s k \<Longrightarrow> holds t s k' \<Longrightarrow> k = k'"
    and holds_injective: "invar t \<Longrightarrow> holds t s k \<Longrightarrow> holds t s' k \<Longrightarrow> s = s'"
    and occupied_iff: "invar t \<Longrightarrow> occupied t k \<longleftrightarrow> (\<exists>s. holds t s k)"
    and holds_issued: "invar t \<Longrightarrow> holds t s k \<Longrightarrow> s \<in> issued t"
    and attach_invar: "invar t \<Longrightarrow> attaches t k s t' \<Longrightarrow> invar t'"
    and attach_free: "attaches t k s t' \<Longrightarrow> \<not> occupied t k"
    and attach_issues: "attaches t k s t' \<Longrightarrow> s \<notin> issued t \<and> issued t' = insert s (issued t)"
    and attach_holds: "attaches t k s t' \<Longrightarrow> holds t' s k"
    and attach_others: "attaches t k s t' \<Longrightarrow> s' \<noteq> s \<Longrightarrow> holds t' s' k' \<longleftrightarrow> holds t s' k'"
    and detach_invar: "invar t \<Longrightarrow> holds t s k \<Longrightarrow> detaches t k s t' \<Longrightarrow> invar t'"
    and detach_issued: "detaches t k s t' \<Longrightarrow> issued t' = issued t"
    and detach_holds: "holds t s k \<Longrightarrow> detaches t k s t' \<Longrightarrow> holds t' s' k' \<longleftrightarrow> s' \<noteq> s \<and> holds t s' k'"
begin

lemma attach_fresh: "invar t \<Longrightarrow> attaches t k s t' \<Longrightarrow> \<not> holds t s k'"
  using attach_issues holds_issued by metis

lemma attach_occupies: "invar t \<Longrightarrow> attaches t k s t' \<Longrightarrow> occupied t' k"
  using attach_invar attach_holds occupied_iff by metis

lemma attach_excludes: "invar t \<Longrightarrow> attaches t k s t' \<Longrightarrow> \<not> attaches t' k s' t''"
  using attach_occupies attach_free by metis

lemma detach_frees:
  assumes "invar t" "holds t s k" "detaches t k s t'"
  shows "\<not> occupied t' k"
proof
  assume "occupied t' k"
  then obtain s' where h: "holds t' s' k"
    using occupied_iff [OF detach_invar [OF assms]] by blast
  then have "s' \<noteq> s" "holds t s' k" using detach_holds [OF assms(2,3)] by simp_all
  then show False using holds_injective [OF assms(1,2)] by simp
qed

lemma attach_detach:
  assumes "invar t" "attaches t k s t'" "detaches t' k s t''"
  shows "invar t'' \<and> (holds t'' s' k' \<longleftrightarrow> holds t s' k')"
proof (cases "s' = s")
  case True
  then show ?thesis
    using detach_holds [OF attach_holds [OF assms(2)] assms(3)] attach_fresh [OF assms(1,2)]
      detach_invar [OF attach_invar [OF assms(1,2)] attach_holds [OF assms(2)] assms(3)] by simp
next
  case False
  then show ?thesis
    using detach_holds [OF attach_holds [OF assms(2)] assms(3)] attach_others [OF assms(2) False]
      detach_invar [OF attach_invar [OF assms(1,2)] attach_holds [OF assms(2)] assms(3)] by simp
qed

text \<open>A session that was given up is never handed out again.\<close>

lemma session_never_reused:
  assumes "(\<lambda>t t'. (\<exists>k s. attaches t k s t') \<or> (\<exists>k s. detaches t k s t'))\<^sup>*\<^sup>* t t'"
    and "s \<in> issued t"
  shows "s \<in> issued t' \<and> \<not> attaches t' k s t''"
proof -
  from assms(1) have "s \<in> issued t'"
  proof induction
    case base
    show ?case by (rule assms(2))
  next
    case (step y z)
    from step.hyps(2) show ?case
      using step.IH attach_issues detach_issued by (metis insertCI)
  qed
  then show ?thesis using attach_issues by metis
qed

end

definition dm_attaches ::
  "('w, 'd, 'h) rusb \<Rightarrow> 'h DeviceManager \<Rightarrow> DeviceId \<Rightarrow> u64 \<Rightarrow> 'h DeviceManager \<Rightarrow> bool" where
  "dm_attaches usb dm did sid dm' \<longleftrightarrow>
     next_session_id dm + 1 \<noteq> 0 \<and> (\<exists>addr w w'. dm_attach usb dm did addr w = (Ok sid, dm', w'))"

definition dm_detaches ::
  "('w, 'd, 'h) rusb \<Rightarrow> 'h DeviceManager \<Rightarrow> DeviceId \<Rightarrow> u64 \<Rightarrow> 'h DeviceManager \<Rightarrow> bool" where
  "dm_detaches usb dm did sid dm' \<longleftrightarrow> (\<exists>w w'. dm_detach usb dm did sid w = (Ok (), dm', w'))"

lemma dm_attach_counter:
  "dm_attach usb dm did addr w = (Ok sid, dm', w') \<Longrightarrow>
     sid = next_session_id dm \<and> next_session_id dm' = next_session_id dm + 1"
  by (simp add: dm_attach_Ok)

lemma dm_detach_Ok:
  "dm_detach usb dm did sid w = (Ok (), dm', w') \<Longrightarrow>
     attachments dm did \<noteq> None \<and>
     dm' = dm\<lparr>attachments := (attachments dm)(did := None),
              session_to_device := (session_to_device dm)(sid := None)\<rparr>"
  by (auto simp: dm_detach_def Let_def split: option.splits)

interpretation dmt: session_table dm_inv
  "\<lambda>dm s d. validate_session dm s d = Ok ()" "\<lambda>dm d. attachments dm d \<noteq> None"
  "\<lambda>dm. {s. s < next_session_id dm}" "dm_attaches usb" "dm_detaches usb" for usb :: "('w, 'd, 'h) rusb"
proof
  fix t t' :: "'h DeviceManager" and s s' k k'
  show "validate_session t s k = Ok () \<Longrightarrow> validate_session t s k' = Ok () \<Longrightarrow> k = k'" by simp
  show "dm_inv t \<Longrightarrow> validate_session t s k = Ok () \<Longrightarrow> validate_session t s' k = Ok () \<Longrightarrow> s = s'"
    by (auto dest: dm_invD)
  show "dm_inv t \<Longrightarrow> (attachments t k \<noteq> None) = (\<exists>s. validate_session t s k = Ok ())"
    using dm_invD(1,2) by (metis validate_session_Ok)
  show "dm_inv t \<Longrightarrow> validate_session t s k = Ok () \<Longrightarrow> s \<in> {s. s < next_session_id t}"
    by (auto dest: dm_invD)
  show "dm_inv t \<Longrightarrow> dm_attaches usb t k s t' \<Longrightarrow> dm_inv t'"
    by (auto simp: dm_attaches_def intro: dm_inv_attach)
  show "dm_attaches usb t k s t' \<Longrightarrow> \<not> attachments t k \<noteq> None"
    by (auto simp: dm_attaches_def dest: dm_attach_Ok(1))
  show "dm_attaches usb t k s t' \<Longrightarrow> s \<notin> {s. s < next_session_id t} \<and>
      {s. s < next_session_id t'} = insert s {s. s < next_session_id t}"
    by (auto simp: dm_attaches_def word_less_Suc dest!: dm_attach_counter)
  show "dm_attaches usb t k s t' \<Longrightarrow> validate_session t' s k = Ok ()"
    by (auto simp: dm_attaches_def dest!: dm_attach_Ok(4))
  show "dm_attaches usb t k s t' \<Longrightarrow> s' \<noteq> s \<Longrightarrow>
      (validate_session t' s' k' = Ok ()) = (validate_session t s' k' = Ok ())"
    by (auto simp: dm_attaches_def dest!: dm_attach_Ok(4))
  show "dm_inv t \<Longrightarrow> validate_session t s k = Ok () \<Longrightarrow> dm_detaches usb t k s t' \<Longrightarrow> dm_inv t'"
    by (auto simp: dm_detaches_def intro: dm_inv_detach)
  show "dm_detaches usb t k s t' \<Longrightarrow> {s. s < next_session_id t'} = {s. s < next_session_id t}"
    by (auto simp: dm_detaches_def dest!: dm_detach_Ok)
  show "validate_session t s k = Ok () \<Longrightarrow> dm_detaches usb t k s t' \<Longrightarrow>
      (validate_session t' s' k' = Ok ()) = (s' \<noteq> s \<and> validate_session t s' k' = Ok ())"
    by (auto simp: dm_detaches_def dest!: dm_detach_Ok split: if_splits)
qed

section \<open>What the manager promises\<close>

abbreviation sample_device :: DeviceId where
  "sample_device \<equiv> \<lparr>bus_number = 1, address = 2\<rparr>"

text \<open>The table after one attach to an empty table, over an interface with one device.\<close>

definition sample_dm :: "(u8 \<times> u8) DeviceManager" where
  "sample_dm = \<lparr>attachments = [sample_device \<mapsto>
               \<lparr>handle = (1, 2), at_vendor_id = 1, at_product_id = 2, detached_kernel_drivers = [],
                claimed_interfaces = [], client_addr = ''peer''\<rparr>],
             next_session_id = 2, session_to_device = [1 \<mapsto> sample_device]\<rparr>"

lemma sample_attach:
  "dm_attach (idle_usb [(1, 2)]) dm_empty sample_device ''peer'' () = (Ok 1, sample_dm, ())"
  by (simp add: dm_attach_def dm_empty_def find_device_def idle_usb_def idle_descriptor_def sample_dm_def)

lemma sample_counter: "next_session_id (dm_empty :: 'h DeviceManager) + 1 \<noteq> 0"
  by (simp add: dm_empty_def)

text \<open>
  The manager as a state machine over its table and the USB state. The environment may change
  the USB state between operations; every other step is one operation, whatever its outcome.
\<close>

datatype dm_event =
  EvAttach DeviceId | EvDetach DeviceId u64 | EvClaim DeviceId u8 | EvRelease DeviceId u8
| EvConfigure DeviceId u8 | EvUsb

inductive dm_step ::
  "('w, 'd, 'h) rusb \<Rightarrow> 'h DeviceManager \<times> 'w \<Rightarrow> dm_event \<Rightarrow> 'h DeviceManager \<times> 'w \<Rightarrow> bool"
  for usb where
  step_attach: "dm_attach usb dm did addr w = (res, dm', w') \<Longrightarrow>
     dm_step usb (dm, w) (EvAttach did) (dm', w')"
| step_detach: "dm_detach usb dm did sid w = (res, dm', w') \<Longrightarrow>
     dm_step usb (dm, w) (EvDetach did sid) (dm', w')"
| step_claim: "dm_claim_interface usb dm did n w = (res, dm', w') \<Longrightarrow>
     dm_step usb (dm, w) (EvClaim did n) (dm', w')"
| step_release: "dm_release_interface usb dm did n w = (res, dm', w') \<Longrightarrow>
     dm_step usb (dm, w) (EvRelease did n) (dm', w')"
| step_configure: "dm_set_configuration usb dm did c w = (res, dm', w') \<Longrightarrow>
     dm_step usb (dm, w) (EvConfigure did c) (dm', w')"
| step_usb: "dm_step usb (dm, w) EvUsb (dm, w')"

inductive dm_run ::
  "('w, 'd, 'h) rusb \<Rightarrow> 'h DeviceManager \<times> 'w \<Rightarrow> dm_event list \<Rightarrow> 'h DeviceManager \<times> 'w \<Rightarrow> bool"
  for usb where
  run_Nil: "dm_run usb s [] s"
| run_Cons: "dm_step usb s e t \<Longrightarrow> dm_run usb t es u \<Longrightarrow> dm_run usb s (e # es) u"

inductive_cases dm_step_pairE: "dm_step usb (dm, w) e s'"

text \<open>Every step but a detach of the device keeps it attached, with the same handle and
  identity.\<close>

lemma dm_step_keeps_attached:
  assumes "dm_step usb s e s'" and "\<forall>sid. e \<noteq> EvDetach did sid"
    and "attachments (fst s) did = Some at"
  shows "\<exists>at'. attachments (fst s') did = Some at' \<and> handle at' = handle at \<and>
         at_vendor_id at' = at_vendor_id at \<and> at_product_id at' = at_product_id at"
  using assms
proof cases
  case (step_attach dm d addr w res dm' w')
  show ?thesis
  proof (cases res)
    case (Inr sid)
    with step_attach have a: "dm_attach usb dm d addr w = (Ok sid, dm', w')" by simp
    from dm_attach_Ok(1,5) [OF a] step_attach assms(3) show ?thesis by auto
  qed (use step_attach assms(3) in \<open>auto dest: dm_attach_Err\<close>)
next
  case (step_detach dm d sid w res dm' w')
  with assms have "d \<noteq> did" by auto
  with step_detach assms(3) show ?thesis
    by (auto simp: dm_detach_def Let_def split: option.splits)
qed (use assms(3) in \<open>auto simp: dm_claim_interface_def dm_release_interface_def
      dest: set_configuration_tables split: option.splits sum.splits prod.splits if_splits\<close>)

lemma dm_run_keeps_attached:
  "dm_run usb s es s' \<Longrightarrow> \<forall>sid. EvDetach did sid \<notin> set es \<Longrightarrow> attachments (fst s) did = Some at \<Longrightarrow>
     \<exists>at'. attachments (fst s') did = Some at' \<and> handle at' = handle at \<and>
         at_vendor_id at' = at_vendor_id at \<and> at_product_id at' = at_product_id at"
proof (induction arbitrary: at rule: dm_run.induct)
  case (run_Cons s e t es u)
  have "\<forall>sid. e \<noteq> EvDetach did sid" using run_Cons.prems(1) by auto
  from dm_step_keeps_attached [OF run_Cons.hyps(1) this run_Cons.prems(2)]
  show ?case using run_Cons.IH run_Cons.prems(1) by fastforce
qed simp

text \<open>C7: once a device is attached, it stays attached through any run of the manager that does
  not detach it, whatever else is attached, claimed, released, configured or plugged meanwhile,
  and a further attach of it, from any client, fails with \<open>DeviceAlreadyAttached\<close> and touches
  neither the tables nor the USB state.\<close>

theorem attach_is_exclusive:
  assumes "dm_attach usb dm did addr w = (Ok sid, dm1, w1)"
    and "dm_run usb (dm1, w1) es (dm2, w2)"
    and "\<forall>s. EvDetach did s \<notin> set es"
  shows "dm_attach usb dm2 did addr2 w2 = (Err DeviceAlreadyAttached, dm2, w2)"
proof -
  obtain at where "attachments dm1 did = Some at" using dm_attach_Ok(5) [OF assms(1)] by auto
  from dm_run_keeps_attached [OF assms(2,3)] this show ?thesis by (auto simp: dm_attach_def)
qed

theorem attach_is_exclusive_witness:
  "dm_attach (idle_usb [(1, 2)]) sample_dm sample_device ''other'' () =
     (Err DeviceAlreadyAttached, sample_dm, ())"
proof -
  let ?usb = "idle_usb [(1, 2)]" and ?s = "(sample_dm, ())"
  have "dm_set_configuration ?usb sample_dm \<lparr>bus_number = 3, address = 3\<rparr> 1 () =
      (Err DeviceNotAttached, sample_dm, ())"
    by (simp add: dm_set_configuration_def sample_dm_def)
  from run_Cons [OF step_usb run_Cons [OF step_configure [OF this] run_Nil]]
  have "dm_run ?usb ?s [EvUsb, EvConfigure \<lparr>bus_number = 3, address = 3\<rparr> 1] ?s" .
  from attach_is_exclusive [OF sample_attach this] show ?thesis by simp
qed

text \<open>C19: on consistent tables, before the session counter wraps: a detach by the session that attach
  returned undoes it. Both tables are what they were before, the session is spent (the counter has
  moved on), and the only calls that change the USB state are one driver detach for every interface of
  the active configuration in its order, at the attach, and, at the detach, one driver attach for
  exactly those interfaces where it succeeded, in the same order.\<close>

theorem attach_detach_roundtrip:
  assumes "dm_inv dm" and "next_session_id dm + 1 \<noteq> 0"
    and "dm_attach usb dm did addr w = (Ok sid, dm1, w1)"
    and "dm_detach usb dm1 did sid w2 = (res, dm2, w3)"
  shows "res = Ok () \<and> attachments dm2 = attachments dm \<and> session_to_device dm2 = session_to_device dm \<and>
         next_session_id dm2 = next_session_id dm + 1 \<and> dm_inv dm2 \<and>
         (\<exists>d h ifaces rs. find_device usb did w = Ok d \<and> ru_open usb d w = Ok h \<and>
            ifaces = (case ru_active_config_descriptor usb d w of
                Inr config \<Rightarrow> map if_number (cd_interfaces config) | Inl _ \<Rightarrow> []) \<and>
            perform usb (map (CallDetachDriver h) ifaces) w = (rs, w1) \<and>
            w3 = snd (perform usb [CallAttachDriver h i. (i, r) \<leftarrow> zip ifaces rs, r = Ok ()] w2))"
proof (rule dm_attach_OkE [OF assms(3)])
  fix d desc h ds
  assume a: "attachments dm did = None" "sid = next_session_id dm" "find_device usb did w = Ok d"
    "ru_open usb d w = Ok h"
    and ds: "(ds, w1) = (case ru_active_config_descriptor usb d w of
        Inr config \<Rightarrow> detach_drivers usb h (map if_number (cd_interfaces config)) w
      | Inl _ \<Rightarrow> ([], w))"
    and dm1: "dm1 = dm\<lparr>next_session_id := next_session_id dm + 1,
         session_to_device := (session_to_device dm)(sid \<mapsto> did),
         attachments := (attachments dm)(did \<mapsto>
           \<lparr>handle = h, at_vendor_id = dd_vendor_id desc, at_product_id = dd_product_id desc,
            detached_kernel_drivers = ds, claimed_interfaces = [], client_addr = addr\<rparr>)\<rparr>"
  define ifaces where "ifaces = (case ru_active_config_descriptor usb d w of
      Inr config \<Rightarrow> map if_number (cd_interfaces config) | Inl _ \<Rightarrow> [])"
  obtain rs v where p: "perform usb (map (CallDetachDriver h) ifaces) w = (rs, v)" by fastforce
  have calls: "v = w1" "ds = [i. (i, r) \<leftarrow> zip ifaces rs, r = Ok ()]"
    using ds p detach_drivers_calls [OF p] by (auto simp: ifaces_def split: sum.splits)
  have rel: "dm_attaches usb dm did sid dm1" using assms(2,3) by (auto simp: dm_attaches_def)
  have "session_to_device dm sid = None"
    using dmt.attach_fresh [OF assms(1) rel] by (cases "session_to_device dm sid") auto
  then have maps: "(attachments dm)(did := None) = attachments dm"
    "(session_to_device dm)(sid := None) = session_to_device dm"
    using a(1) by (simp_all add: fun_upd_idem)
  have "map (CallAttachDriver h) ds = [CallAttachDriver h i. (i, r) \<leftarrow> zip ifaces rs, r = Ok ()]"
    unfolding calls(2) map_concat by (intro arg_cong [where f = concat]) (auto simp: comp_def)
  then have "dm_detach usb dm1 did sid w2 = (Ok (), dm\<lparr>next_session_id := next_session_id dm + 1\<rparr>,
      snd (perform usb [CallAttachDriver h i. (i, r) \<leftarrow> zip ifaces rs, r = Ok ()] w2))"
    by (simp add: dm_detach_def dm1 maps loop_calls)
  with assms(4) have r: "res = Ok ()" "dm2 = dm\<lparr>next_session_id := next_session_id dm + 1\<rparr>"
    "w3 = snd (perform usb [CallAttachDriver h i. (i, r) \<leftarrow> zip ifaces rs, r = Ok ()] w2)" by simp_all
  moreover have "dm_inv dm2"
    using dmt.attach_detach [OF assms(1) rel, of dm2] assms(4) r(1) by (auto simp: dm_detaches_def)
  ultimately show ?thesis using a(3,4) p calls(1) ifaces_def by auto
qed

theorem attach_detach_roundtrip_witness:
  "\<exists>dm1 w1. dm_attach logging_usb dm_empty sample_device ''peer'' [] = (Ok 1, dm1, w1) \<and>
     w1 = map (CallDetachDriver (1, 2)) [0, 1, 2] \<and>
     snd (snd (dm_detach logging_usb dm1 sample_device 1 [])) = map (CallAttachDriver (1, 2)) [0, 2]"
proof -
  obtain dm1 w1 where a: "dm_attach logging_usb dm_empty sample_device ''peer'' [] = (Ok 1, dm1, w1)"
    by (simp add: dm_attach_def dm_empty_def find_device_def logging_usb_def three_interfaces_def)
  obtain res dm2 w3 where d: "dm_detach logging_usb dm1 sample_device 1 [] = (res, dm2, w3)"
    by (metis prod_cases3)
  have "find_device logging_usb sample_device [] = Ok (1, 2)"
    by (simp add: find_device_def logging_usb_def)
  with attach_detach_roundtrip [OF dm_inv_empty sample_counter a d] a d show ?thesis
    by (auto simp: logging_usb_def three_interfaces_def)
qed

lemma dm_step_counter:
  assumes "dm_step usb s e t"
  shows "next_session_id (fst t) = next_session_id (fst s) \<or>
         next_session_id (fst t) = next_session_id (fst s) + 1"
  using assms
proof cases
  case (step_attach dm d addr w res dm' w')
  then show ?thesis by (cases res) (auto dest: dm_attach_Err dm_attach_counter)
next
  case step_detach
  then show ?thesis by (auto simp: dm_detach_def Let_def split: option.splits)
qed (auto dest: claim_interface_tables(3) release_interface_tables(3) set_configuration_tables)

lemma counter_room:
  fixes x y :: u64
  assumes "y = x \<or> y = x + 1" "unat x + Suc k < 2 ^ 64"
  shows "x + 1 \<noteq> 0" and "unat y + k < 2 ^ 64"
proof -
  have eq: "unat (x + 1) = unat x + 1"
    using assms(2) by (simp add: unat_word_ariths)
  then show "x + 1 \<noteq> 0" by auto
  show "unat y + k < 2 ^ 64" using assms eq by auto
qed

text \<open>
  Every session in the table is below the counter, which no step takes back: so a session that is
  handed out was in the table of no earlier state, whoever detached what.
\<close>

definition issued_below :: "'h DeviceManager \<Rightarrow> bool" where
  "issued_below dm \<longleftrightarrow> (\<forall>s. session_to_device dm s \<noteq> None \<longrightarrow> s < next_session_id dm)"

lemma issued_below_empty [simp]: "issued_below dm_empty"
  by (simp add: issued_below_def dm_empty_def)

lemma issued_below_tables:
  "issued_below dm \<Longrightarrow> session_to_device dm' = session_to_device dm \<Longrightarrow>
     next_session_id dm' = next_session_id dm \<Longrightarrow> issued_below dm'"
  by (simp add: issued_below_def)

lemma dm_step_issued:
  assumes "dm_step usb s e t" "issued_below (fst s)" "next_session_id (fst s) + 1 \<noteq> 0"
  shows "issued_below (fst t)"
  using assms(1)
proof cases
  case (step_attach dm d addr w res dm' w')
  show ?thesis
  proof (cases res)
    case (Inr sid)
    with step_attach have a: "dm_attach usb dm d addr w = (Ok sid, dm', w')" by simp
    show ?thesis
      using dm_attach_Ok(2-4) [OF a] assms(2,3) step_attach
      by (auto simp: issued_below_def word_less_Suc order_less_imp_le)
  qed (use step_attach assms(2) in \<open>auto dest: dm_attach_Err\<close>)
next
  case step_detach
  with assms(2) show ?thesis
    by (auto simp: dm_detach_def Let_def issued_below_def split: option.splits if_splits)
next
  case step_claim
  with assms(2) claim_interface_tables(2,3) show ?thesis by (metis issued_below_tables fst_conv)
next
  case step_release
  with assms(2) release_interface_tables(2,3) show ?thesis by (metis issued_below_tables fst_conv)
qed (use assms(2) in \<open>auto dest: set_configuration_tables\<close>)

lemma dm_run_issued:
  "dm_run usb s es t \<Longrightarrow> issued_below (fst s) \<Longrightarrow> unat (next_session_id (fst s)) + length es < 2 ^ 64 \<Longrightarrow>
     issued_below (fst t) \<and> next_session_id (fst s) \<le> next_session_id (fst t) \<and>
     unat (next_session_id (fst t)) \<le> unat (next_session_id (fst s)) + length es"
proof (induction rule: dm_run.induct)
  case (run_Cons s e t es u)
  have room: "unat (next_session_id (fst s)) + Suc (length es) < 2 ^ 64" using run_Cons.prems(2) by simp
  note ctr = dm_step_counter [OF run_Cons.hyps(1)]
  note r = counter_room [OF ctr room]
  have up: "unat (next_session_id (fst s)) \<le> unat (next_session_id (fst t))"
    "unat (next_session_id (fst t)) \<le> Suc (unat (next_session_id (fst s)))"
    using ctr room by (auto simp: unat_word_ariths)
  from run_Cons.IH [OF dm_step_issued [OF run_Cons.hyps(1) run_Cons.prems(1) r(1)] r(2)] up
  show ?case by (auto simp: word_le_nat_alt)
qed simp

text \<open>C18: in any run of the manager from its start that is shorter than the 64-bit session counter,
  whatever was attached and detached under whatever session meanwhile: an attach that fails leaves
  the tables and the USB state as they were. One that succeeds was on a free device, which is now
  recorded with the handle that was opened, the identity read from its descriptor and no claimed
  interface; the session it returns was not valid for any device in this or any earlier state of the
  run, is valid for this device and no other now, and no other session's validity changes.\<close>

theorem attach_outcome:
  assumes "dm_run usb (dm_empty, v) es1 (dm0, v0)" and "dm_run usb (dm0, v0) es2 (dm, w)"
    and "length es1 + length es2 < 2 ^ 64 - 1"
    and "dm_attach usb dm did addr w = (res, dm', w')"
  shows "case res of
      Err e \<Rightarrow> dm' = dm \<and> w' = w
    | Ok sid \<Rightarrow>
        attachments dm did = None \<and>
        (\<exists>d desc h at. find_device usb did w = Ok d \<and> ru_device_descriptor usb d w = Ok desc \<and>
           ru_open usb d w = Ok h \<and> attachments dm' = (attachments dm)(did \<mapsto> at) \<and> handle at = h \<and>
           at_vendor_id at = dd_vendor_id desc \<and> at_product_id at = dd_product_id desc \<and>
           claimed_interfaces at = [] \<and> client_addr at = addr) \<and>
        (\<forall>d. validate_session dm0 sid d \<noteq> Ok ()) \<and> (\<forall>d. validate_session dm sid d \<noteq> Ok ()) \<and>
        (\<forall>d. validate_session dm' sid d = Ok () \<longleftrightarrow> d = did) \<and>
        (\<forall>s d. s \<noteq> sid \<longrightarrow> validate_session dm' s d = validate_session dm s d)"
proof (cases res)
  case (Inl e)
  with assms(4) show ?thesis by (auto dest: dm_attach_Err)
next
  case (Inr sid)
  from assms(4) Inr have at: "dm_attach usb dm did addr w = (Ok sid, dm', w')" by simp
  have "issued_below dm0" "unat (next_session_id dm0) \<le> 1 + length es1"
    using dm_run_issued [OF assms(1)] assms(3) by (simp_all, simp_all add: dm_empty_def)
  with dm_run_issued [OF assms(2)] assms(3)
  have "issued_below dm0" "issued_below dm" "next_session_id dm0 \<le> next_session_id dm" by auto
  then have "session_to_device dm0 sid = None" "session_to_device dm sid = None"
    using dm_attach_Ok(2) [OF at] unfolding issued_below_def by (metis leD order_less_irrefl)+
  with dm_attach_Ok(4) [OF at] show ?thesis
    by (rule_tac dm_attach_OkE [OF at]) (auto simp: Inr validate_session_def split: option.splits)
qed

theorem attach_outcome_witness:
  "\<exists>sid dm. dm_attach (idle_usb [(1, 2), (1, 3)]) sample_dm \<lparr>bus_number = 1, address = 3\<rparr> ''peer'' () = (Ok sid, dm, ()) \<and>
     validate_session dm sid \<lparr>bus_number = 1, address = 3\<rparr> = Ok () \<and>
     validate_session sample_dm sid sample_device \<noteq> Ok ()"
proof -
  let ?usb = "idle_usb [(1, 2), (1, 3)]" and ?d = "\<lparr>bus_number = 1, address = 3\<rparr>"
  have "dm_attach ?usb dm_empty sample_device ''peer'' () = (Ok 1, sample_dm, ())"
    by (simp add: dm_attach_def dm_empty_def find_device_def idle_usb_def idle_descriptor_def sample_dm_def)
  from run_Cons [OF step_attach [OF this] run_Nil]
  have run: "dm_run ?usb (dm_empty, ()) [EvAttach sample_device] (sample_dm, ())" .
  have configured: "dm_set_configuration ?usb sample_dm \<lparr>bus_number = 3, address = 3\<rparr> 1 () =
      (Err DeviceNotAttached, sample_dm, ())"
    by (simp add: dm_set_configuration_def sample_dm_def)
  obtain sid dm where a: "dm_attach ?usb sample_dm ?d ''peer'' () = (Ok sid, dm, ())"
    by (simp add: dm_attach_def find_device_def idle_usb_def idle_descriptor_def sample_dm_def)
  from attach_outcome [OF run run_Cons [OF step_configure [OF configured] run_Nil] _ a]
  have "validate_session dm sid ?d = Ok ()" "validate_session sample_dm sid sample_device \<noteq> Ok ()" by auto
  with a show ?thesis by blast
qed

text \<open>
  A run of the manager in which every detach is made with the session that holds the device,
  and which starts far enough from the end of the session counter.
\<close>

fun detach_by_holder :: "'h DeviceManager \<Rightarrow> dm_event \<Rightarrow> bool" where
  "detach_by_holder dm (EvDetach did sid) = (session_to_device dm sid = Some did)"
| "detach_by_holder dm _ = True"

inductive owned_run ::
  "('w, 'd, 'h) rusb \<Rightarrow> 'h DeviceManager \<times> 'w \<Rightarrow> dm_event list \<Rightarrow> 'h DeviceManager \<times> 'w \<Rightarrow> bool"
  for usb where
  owned_Nil: "owned_run usb s [] s"
| owned_Cons: "dm_step usb s e t \<Longrightarrow> detach_by_holder (fst s) e \<Longrightarrow> owned_run usb t es u \<Longrightarrow>
     owned_run usb s (e # es) u"

lemma dm_step_inv:
  assumes "dm_step usb s e t" "detach_by_holder (fst s) e" "dm_inv (fst s)"
    and "next_session_id (fst s) + 1 \<noteq> 0"
  shows "dm_inv (fst t)"
  using assms(1)
proof cases
  case step_attach
  with assms show ?thesis by (auto intro: dm_inv_attach)
next
  case step_detach
  with assms show ?thesis by (auto intro: dm_inv_detach)
next
  case step_claim
  with assms show ?thesis
    using claim_interface_tables by (metis dm_inv_unchanged_tables fst_conv)
next
  case step_release
  with assms show ?thesis
    using release_interface_tables by (metis dm_inv_unchanged_tables fst_conv)
next
  case step_configure
  with assms show ?thesis by (auto dest: set_configuration_tables)
next
  case step_usb
  with assms show ?thesis by simp
qed

text \<open>The agreement of the two tables is an invariant: from a consistent table, any run of
  attaches, claims, releases, configuration changes, hardware changes and detaches by the
  holding session leads to a consistent table, as long as the run is shorter than what is left
  of the 64-bit session counter.\<close>

lemma tables_stay_consistent:
  assumes "owned_run usb s es t" and "dm_inv (fst s)"
    and "unat (next_session_id (fst s)) + length es < 2 ^ 64"
  shows "dm_inv (fst t)"
  using assms
proof (induction rule: owned_run.induct)
  case (owned_Cons s e t es u)
  have room: "unat (next_session_id (fst s)) + Suc (length es) < 2 ^ 64"
    using owned_Cons.prems(2) by simp
  note r = counter_room [OF dm_step_counter [OF owned_Cons.hyps(1)] room]
  from dm_step_inv [OF owned_Cons.hyps(1,2) owned_Cons.prems(1) r(1)] r(2)
  show ?case by (rule owned_Cons.IH)
qed simp

lemma tables_stay_consistent_instance: "dm_inv sample_dm"
proof -
  have st: "dm_step (idle_usb [(1, 2)]) (dm_empty, ()) (EvAttach sample_device) (sample_dm, ())"
    by (rule step_attach [OF sample_attach])
  have "owned_run (idle_usb [(1, 2)]) (dm_empty, ()) [EvAttach sample_device] (sample_dm, ())"
    by (rule owned_Cons [OF st _ owned_Nil]) simp
  from tables_stay_consistent [OF this] show ?thesis by (simp add: dm_empty_def [symmetric]) (simp add: dm_empty_def)
qed

text \<open>C20: cleaning up a list of sessions, in whatever state the tables are: exactly the devices the
  sessions name are freed, and every other attachment stays as it was; a session is forgotten exactly
  when it is the first of the list to name a device that is attached. In consistent tables that is:
  exactly the sessions of the list are forgotten, whatever its order (the hash map's iteration order)
  and its repetitions, and the tables stay consistent.\<close>

theorem cleanup_frees_exactly:
  assumes "detach_all_for_sessions usb dm sids w = (dm', w')"
  shows "(\<forall>d. attachments dm' d =
       (if \<exists>s \<in> set sids. validate_session dm s d = Ok () then None else attachments dm d)) \<and>
    (\<forall>s d. validate_session dm' s d = Ok () \<longleftrightarrow> validate_session dm s d = Ok () \<and>
       \<not> (attachments dm d \<noteq> None \<and> find (\<lambda>t. validate_session dm t d = Ok ()) sids = Some s)) \<and>
    next_session_id dm' = next_session_id dm \<and>
    (dm_inv dm \<longrightarrow> dm_inv dm' \<and>
       (\<forall>s. session_to_device dm' s = (if s \<in> set sids then None else session_to_device dm s)))"
proof -
  have "validate_session dm' s d = Ok () \<longleftrightarrow> validate_session dm s d = Ok () \<and>
       \<not> (attachments dm d \<noteq> None \<and> find (\<lambda>t. validate_session dm t d = Ok ()) sids = Some s)" for s d
    using detach_all_tables(3) [OF assms, of s] by (auto split: option.splits if_splits)
  moreover have "dm_inv dm' \<and>
       (\<forall>s. session_to_device dm' s = (if s \<in> set sids then None else session_to_device dm s))" if "dm_inv dm"
    using detach_all_effect [OF that assms] by (auto simp: sessions_removed_def restrict_map_def)
  ultimately show ?thesis using detach_all_tables(1,2) [OF assms] by simp
qed

theorem cleanup_frees_exactly_witness:
  "attachments (fst (detach_all_for_sessions (idle_usb [(1, 2)]) sample_dm [7, 1, 1] ())) sample_device = None \<and>
   session_to_device (fst (detach_all_for_sessions (idle_usb [(1, 2)]) sample_dm [7, 1, 1] ())) 1 = None"
proof -
  have inv: "dm_inv sample_dm"
    using dmt.attach_invar [OF dm_inv_empty, of "idle_usb [(1, 2)]" sample_device 1 sample_dm]
      sample_attach sample_counter by (auto simp: dm_attaches_def)
  obtain dm' w' where d: "detach_all_for_sessions (idle_usb [(1, 2)]) sample_dm [7, 1, 1] () = (dm', w')"
    by (metis surj_pair)
  have "validate_session sample_dm 1 sample_device = Ok ()"
    by (simp add: sample_dm_def)
  with cleanup_frees_exactly [OF d] inv show ?thesis unfolding d by auto
qed











section \<open>Looking devices up\<close>

lemma find_device_Ok:
  assumes "find_device usb did w = Ok d"
  obtains ds where "ru_devices usb w = Ok ds" "d \<in> set ds" "device_id_of usb d = did"
proof -
  from assms obtain ds where "ru_devices usb w = Ok ds"
    and "find (\<lambda>d. ru_bus_number usb d = bus_number did \<and> ru_address usb d = address did) ds = Some d"
    by (auto simp: find_device_def elim!: usb_result.elims split: sum.splits option.splits)
  then show ?thesis by (intro that) (auto simp: device_id_of_def find_Some_iff)
qed

lemma find_device_unique:
  assumes "ru_devices usb w = Ok ds" "distinct (map (device_id_of usb) ds)" "d \<in> set ds"
  shows "find_device usb (device_id_of usb d) w = Ok d"
proof -
  let ?P = "\<lambda>e. ru_bus_number usb e = ru_bus_number usb d \<and> ru_address usb e = ru_address usb d"
  have "find ?P ds = Some d"
  proof (cases "find ?P ds")
    case None
    with assms(3) show ?thesis by (auto simp: find_None_iff)
  next
    case (Some e)
    then have "e \<in> set ds" "?P e" by (auto simp: find_Some_iff)
    then have "device_id_of usb e = device_id_of usb d" by (simp add: device_id_of_def)
    with assms(2,3) \<open>e \<in> set ds\<close> Some show ?thesis by (auto dest: inj_onD simp: distinct_map)
  qed
  with assms(1) show ?thesis by (simp add: find_device_def device_id_of_def)
qed

text \<open>C33: from an attach on until a detach of the device, through any run of the manager without one,
  \<open>get_handle\<close> hands out the handle that attach opened, unless the device found at this bus and
  address now reports another vendor or product than at the attach: then it is refused as not found.
  A device that has vanished, or whose descriptor cannot be read, still passes. After a detach,
  whoever makes it, there is no handle to get.\<close>

theorem handle_until_replug:
  assumes "dm_attach usb dm did addr w = (Ok sid, dm1, w1)"
    and "find_device usb did w = Ok d0" "ru_device_descriptor usb d0 w = Ok desc0" "ru_open usb d0 w = Ok h"
    and "dm_run usb (dm1, w1) es (dm2, w2)" and "\<forall>s. EvDetach did s \<notin> set es"
  shows "get_handle usb dm2 did w2 =
     (if \<exists>d desc. find_device usb did w2 = Ok d \<and> ru_device_descriptor usb d w2 = Ok desc \<and>
           (dd_vendor_id desc, dd_product_id desc) \<noteq> (dd_vendor_id desc0, dd_product_id desc0)
      then Err (DeviceNotFound (bus_number did) (address did))
      else Ok h) \<and>
    (\<forall>s v v'. get_handle usb (fst (snd (dm_detach usb dm2 did s v))) did v' = Err DeviceNotAttached)"
proof -
  obtain at where at: "attachments dm1 did = Some at" "handle at = h"
    "at_vendor_id at = dd_vendor_id desc0" "at_product_id at = dd_product_id desc0"
    by (rule dm_attach_OkE [OF assms(1)]) (use assms(2-4) in auto)
  from dm_run_keeps_attached [OF assms(5,6)] at obtain at2 where "attachments dm2 did = Some at2"
    "handle at2 = h" "at_vendor_id at2 = dd_vendor_id desc0" "at_product_id at2 = dd_product_id desc0"
    by fastforce
  then show ?thesis by (auto simp: get_handle_def dm_detach_attached split: sum.splits)
qed

theorem handle_until_replug_witness:
  "get_handle (idle_usb [(1, 2)]) sample_dm sample_device () = Ok (1, 2)"
proof -
  let ?usb = "idle_usb [(1, 2)]"
  have d: "find_device ?usb sample_device () = Ok (1, 2)"
    "ru_device_descriptor ?usb (1, 2) () = Ok idle_descriptor" "ru_open ?usb (1, 2) () = Ok (1, 2)"
    by (simp_all add: find_device_def idle_usb_def)
  from handle_until_replug [OF sample_attach d run_Nil] d show ?thesis by auto
qed

text \<open>C34: the two enumeration paths agree: when no two devices share bus and address, every
  entry of the device list can be looked up by its identifier, and the descriptor tree of that
  identifier carries the very same device information, strings included.\<close>

theorem list_agrees_with_descriptors:
  assumes "ru_devices usb w = Ok ds" and "distinct (map (device_id_of usb) ds)"
    and "list_devices usb w = Ok infos" and "info \<in> set infos"
  shows "\<exists>tree. get_descriptors usb (di_device_id info) w = Ok tree \<and> tree_device tree = info"
proof -
  from assms(1,3,4) obtain d where d: "d \<in> set ds" "list_one usb w d = Some info"
    by (auto simp: list_devices_def map_filter_def)
  then obtain desc where desc: "ru_device_descriptor usb d w = Ok desc"
    by (auto simp: list_one_def split: sum.splits)
  from d(2) desc have id: "di_device_id info = device_id_of usb d"
    by (auto simp: list_one_def device_info_def Let_def split: prod.splits)
  have "find_device usb (di_device_id info) w = Ok d"
    unfolding id by (rule find_device_unique [OF assms(1,2) d(1)])
  with d(2) desc id show ?thesis
    by (cases "ru_open usb d w")
      (auto simp: get_descriptors_def list_one_def Let_def device_info_def tree_device_info_def)
qed

theorem list_agrees_with_descriptors_witness:
  "\<exists>info. list_devices (idle_usb [(1, 2), (1, 3)]) () = Ok [info, info\<lparr>di_device_id := \<lparr>bus_number = 1, address = 3\<rparr>\<rparr>] \<and>
     (\<exists>tree. get_descriptors (idle_usb [(1, 2), (1, 3)]) sample_device () = Ok tree \<and> tree_device tree = info)"
proof -
  let ?usb = "idle_usb [(1, 2), (1, 3)]"
  let ?info = "device_info ?usb (1, 2) sample_device idle_descriptor None None None"
  have ds: "ru_devices ?usb () = Ok [(1, 2), (1, 3)]" by (simp add: idle_usb_def)
  have dist: "distinct (map (device_id_of ?usb) [(1, 2), (1, 3)])"
    by (simp add: idle_usb_def device_id_of_def)
  have l: "list_devices ?usb () = Ok [?info, ?info\<lparr>di_device_id := \<lparr>bus_number = 1, address = 3\<rparr>\<rparr>]"
    by (simp add: list_devices_def list_one_def idle_usb_def map_filter_def device_id_of_def
        device_info_def read_string_desc_def idle_descriptor_def)
  have "di_device_id ?info = sample_device" by (simp add: device_info_def)
  then show ?thesis using l list_agrees_with_descriptors [OF ds dist l, of ?info] by auto
qed

end
