(* ===== verification/Connection.thy ===== *)
theory Connection
  imports DeviceManager UsbTransfer Codec
begin

text \<open>
  \<open>src/src/server/connection.rs\<close>: one client's connection. Its own state is a record; the
  device manager all connections share and the USB state are passed in and returned.
  Parameters: the \<open>rusb\<close> interface, \<open>hmac\<close> for HMAC-SHA256 (key, then data), and, for each
  handler that runs a closure with \<open>spawn_blocking\<close>, \<open>jn\<close>: \<open>None\<close> when the closure runs to its
  end, \<open>Some e\<close> when the runtime drops it before it starts and awaiting it gives the
  \<open>JoinError\<close> with text \<open>e\<close>. Log output is left out.
\<close>

section \<open>State\<close>

datatype ServerStream = Plain | Tls

text \<open>
  What tokio polls of a stream: \<open>None\<close> is pending. A \<open>ServerStream\<close> passes each poll on to the stream it
  wraps, here the operations \<open>plain\<close> and \<open>tls\<close> of the TCP stream and of the TLS session over it.
\<close>

record 'w async_io =
  poll_read :: "nat \<Rightarrow> 'w \<Rightarrow> (string, bytes) result option \<times> 'w"
  poll_write :: "bytes \<Rightarrow> 'w \<Rightarrow> (string, nat) result option \<times> 'w"
  poll_flush :: "'w \<Rightarrow> (string, unit) result option \<times> 'w"
  poll_shutdown :: "'w \<Rightarrow> (string, unit) result option \<times> 'w"

definition server_stream_io :: "'w async_io \<Rightarrow> 'w async_io \<Rightarrow> ServerStream \<Rightarrow> 'w async_io" where
  "server_stream_io plain tls strm =
     \<lparr>poll_read = (\<lambda>n w. case strm of Plain \<Rightarrow> poll_read plain n w | Tls \<Rightarrow> poll_read tls n w),
      poll_write = (\<lambda>bs w. case strm of Plain \<Rightarrow> poll_write plain bs w | Tls \<Rightarrow> poll_write tls bs w),
      poll_flush = (\<lambda>w. case strm of Plain \<Rightarrow> poll_flush plain w | Tls \<Rightarrow> poll_flush tls w),
      poll_shutdown = (\<lambda>w. case strm of Plain \<Rightarrow> poll_shutdown plain w | Tls \<Rightarrow> poll_shutdown tls w)\<rparr>"

record Connection =
  stream :: ServerStream
  peer_addr :: SocketAddr
  authenticated :: bool
  shared_key :: "bytes option"
  sessions :: "u64 \<rightharpoonup> DeviceId"

datatype Action = Reply Message | BridgeTo Message DeviceId

definition connection_new :: "ServerStream \<Rightarrow> SocketAddr \<Rightarrow> bytes option \<Rightarrow> Connection" where
  "connection_new strm addr key =
     \<lparr>stream = strm, peer_addr = addr, authenticated = False, shared_key = key, sessions = Map.empty\<rparr>"

section \<open>Handshake\<close>

definition hello_refused :: "string \<Rightarrow> Message" where
  "hello_refused text = HelloResponse
     \<lparr>hr_protocol_version = PROTOCOL_VERSION, hr_server_name = ''wolfusb'', hr_auth_accepted = False,
      hr_auth_challenge_response = [], hr_error_message = Some text\<rparr>"

definition hello_accepted :: "bytes \<Rightarrow> Message" where
  "hello_accepted proof_bytes = HelloResponse
     \<lparr>hr_protocol_version = PROTOCOL_VERSION, hr_server_name = ''wolfusb'', hr_auth_accepted = True,
      hr_auth_challenge_response = proof_bytes, hr_error_message = None\<rparr>"

definition handle_hello ::
  "(bytes \<Rightarrow> bytes \<Rightarrow> bytes) \<Rightarrow> Connection \<Rightarrow> HelloRequest \<Rightarrow> Message \<times> Connection" where
  "handle_hello hmac c req =
     (if hq_protocol_version req \<noteq> PROTOCOL_VERSION then
        (hello_refused (''Protocol version mismatch: server='' @ show_word PROTOCOL_VERSION
           @ '', client='' @ show_word (hq_protocol_version req)), c)
      else
        (case shared_key c of
           Some key \<Rightarrow>
             if hq_auth_proof req \<noteq> client_tag hmac key (hq_auth_nonce req) then
               (hello_refused ''Authentication failed'', c)
             else
               (hello_accepted (server_tag hmac key (hq_auth_nonce req)), c\<lparr>authenticated := True\<rparr>)
         | None \<Rightarrow> (hello_accepted [], c\<lparr>authenticated := True\<rparr>)))"

section \<open>Handlers\<close>

definition error_reply :: "ErrorCode \<Rightarrow> string \<Rightarrow> Message" where
  "error_reply ec text = Error \<lparr>er_code = ec, er_message = text\<rparr>"

definition handle_list_devices ::
  "('w, 'd, 'h) rusb \<Rightarrow> string option \<Rightarrow> 'w \<Rightarrow> Message" where
  "handle_list_devices usb jn w =
     (case jn of
        Some e \<Rightarrow> error_reply EC_InternalError e
      | None \<Rightarrow>
          (case list_devices usb w of
             Inr ds \<Rightarrow> DeviceList \<lparr>dl_devices = ds\<rparr>
           | Inl e \<Rightarrow> error_reply EC_UsbError (error_to_string (ru_strerror usb) e)))"

definition handle_get_descriptors ::
  "('w, 'd, 'h) rusb \<Rightarrow> string option \<Rightarrow> GetDescriptorsRequest \<Rightarrow> 'w \<Rightarrow> Message" where
  "handle_get_descriptors usb jn req w =
     (case jn of
        Some e \<Rightarrow> error_reply EC_InternalError e
      | None \<Rightarrow>
          (case get_descriptors usb (gdq_device_id req) w of
             Inr tree \<Rightarrow> DescriptorData \<lparr>ddr_device_id = gdq_device_id req, ddr_descriptors = tree\<rparr>
           | Inl e \<Rightarrow> error_reply EC_DeviceNotFound (error_to_string (ru_strerror usb) e)))"

definition attach_failed :: "DeviceId \<Rightarrow> string \<Rightarrow> Message" where
  "attach_failed did text = AttachResult
     \<lparr>ar_device_id = did, ar_success = False, ar_error_message = Some text, ar_session_id = None\<rparr>"

definition handle_attach ::
  "('w, 'd, 'h) rusb \<Rightarrow> string option \<Rightarrow> Connection \<Rightarrow> 'h DeviceManager \<Rightarrow> AttachRequest \<Rightarrow> 'w \<Rightarrow>
     Message \<times> Connection \<times> 'h DeviceManager \<times> 'w" where
  "handle_attach usb jn c dm req w =
     (case jn of
        Some e \<Rightarrow> (attach_failed (aq_device_id req) e, c, dm, w)
      | None \<Rightarrow>
          (case dm_attach usb dm (aq_device_id req) (peer_addr c) w of
             (Inr session_id, dm, w) \<Rightarrow>
               (AttachResult \<lparr>ar_device_id = aq_device_id req, ar_success = True,
                  ar_error_message = None, ar_session_id = Some session_id\<rparr>,
                c\<lparr>sessions := (sessions c)(session_id \<mapsto> aq_device_id req)\<rparr>, dm, w)
           | (Inl e, dm, w) \<Rightarrow>
               (attach_failed (aq_device_id req) (error_to_string (ru_strerror usb) e), c, dm, w)))"

definition detach_result :: "DeviceId \<Rightarrow> string option \<Rightarrow> Message" where
  "detach_result did err = DetachResult
     \<lparr>dr_device_id = did, dr_success = (err = None), dr_error_message = err\<rparr>"

definition handle_detach ::
  "('w, 'd, 'h) rusb \<Rightarrow> string option \<Rightarrow> Connection \<Rightarrow> 'h DeviceManager \<Rightarrow> DetachRequest \<Rightarrow> 'w \<Rightarrow>
     Message \<times> Connection \<times> 'h DeviceManager \<times> 'w" where
  "handle_detach usb jn c dm req w =
     (if sessions c (dq_session_id req) = None then
        (detach_result (dq_device_id req) (Some ''Session does not belong to this connection''), c, dm, w)
      else
        (case jn of
           Some e \<Rightarrow> (detach_result (dq_device_id req) (Some e), c, dm, w)
         | None \<Rightarrow>
             (case dm_detach usb dm (dq_device_id req) (dq_session_id req) w of
                (Inr _, dm, w) \<Rightarrow>
                  (detach_result (dq_device_id req) None,
                   c\<lparr>sessions := (sessions c)(dq_session_id req := None)\<rparr>, dm, w)
              | (Inl e, dm, w) \<Rightarrow>
                  (detach_result (dq_device_id req) (Some (error_to_string (ru_strerror usb) e)),
                   c\<lparr>sessions := (sessions c)(dq_session_id req := None)\<rparr>, dm, w))))"

definition transfer_error :: "u64 \<Rightarrow> DeviceId \<Rightarrow> string \<Rightarrow> Message" where
  "transfer_error session_id did msg = TransferResult
     \<lparr>tr_session_id = session_id, tr_device_id = did, tr_success = False, tr_data = [],
      tr_bytes_transferred = 0, tr_error_message = Some msg\<rparr>"

text \<open>
  The three transfer handlers begin alike: the session must be one of this connection, the
  manager must confirm that it holds the device, and the manager gives the handle. The lock on
  the manager is dropped before the transfer runs.
\<close>

definition authorize_transfer ::
  "('w, 'd, 'h) rusb \<Rightarrow> Connection \<Rightarrow> 'h DeviceManager \<Rightarrow> u64 \<Rightarrow> DeviceId \<Rightarrow> 'w \<Rightarrow> (Message, 'h) result" where
  "authorize_transfer usb c dm sid did w =
     (if sessions c sid = None then Err (transfer_error sid did ''Invalid session'')
      else
        (case validate_session dm sid did of
           Inl e \<Rightarrow> Err (transfer_error sid did (error_to_string (ru_strerror usb) e))
         | Inr _ \<Rightarrow>
             (case get_handle usb dm did w of
                Inl e \<Rightarrow> Err (transfer_error sid did (error_to_string (ru_strerror usb) e))
              | Inr h \<Rightarrow> Ok h)))"

definition handle_control_transfer ::
  "('w, 'd, 'h) rusb \<Rightarrow> string option \<Rightarrow> Connection \<Rightarrow> 'h DeviceManager \<Rightarrow> ControlTransferRequest \<Rightarrow> 'w \<Rightarrow>
     Message \<times> 'w" where
  "handle_control_transfer usb jn c dm req w =
     (case authorize_transfer usb c dm (ctq_session_id req) (ctq_device_id req) w of
        Inl m \<Rightarrow> (m, w)
      | Inr h \<Rightarrow>
          (case jn of
             None \<Rightarrow> (case execute_control_transfer usb h req w of (resp, w) \<Rightarrow> (TransferResult resp, w))
           | Some e \<Rightarrow> (error_reply EC_InternalError e, w)))"

definition handle_bulk_transfer ::
  "('w, 'd, 'h) rusb \<Rightarrow> string option \<Rightarrow> Connection \<Rightarrow> 'h DeviceManager \<Rightarrow> BulkTransferRequest \<Rightarrow> 'w \<Rightarrow>
     Message \<times> 'w" where
  "handle_bulk_transfer usb jn c dm req w =
     (case authorize_transfer usb c dm (btq_session_id req) (btq_device_id req) w of
        Inl m \<Rightarrow> (m, w)
      | Inr h \<Rightarrow>
          (case jn of
             None \<Rightarrow> (case execute_bulk_transfer usb h req w of (resp, w) \<Rightarrow> (TransferResult resp, w))
           | Some e \<Rightarrow> (error_reply EC_InternalError e, w)))"

definition handle_interrupt_transfer ::
  "('w, 'd, 'h) rusb \<Rightarrow> string option \<Rightarrow> Connection \<Rightarrow> 'h DeviceManager \<Rightarrow> InterruptTransferRequest \<Rightarrow> 'w \<Rightarrow>
     Message \<times> 'w" where
  "handle_interrupt_transfer usb jn c dm req w =
     (case authorize_transfer usb c dm (itq_session_id req) (itq_device_id req) w of
        Inl m \<Rightarrow> (m, w)
      | Inr h \<Rightarrow>
          (case jn of
             None \<Rightarrow> (case execute_interrupt_transfer usb h req w of (resp, w) \<Rightarrow> (TransferResult resp, w))
           | Some e \<Rightarrow> (error_reply EC_InternalError e, w)))"

definition claim_result :: "string option \<Rightarrow> Message" where
  "claim_result err = ClaimInterfaceResult \<lparr>cir_success = (err = None), cir_error_message = err\<rparr>"

definition handle_claim_interface ::
  "('w, 'd, 'h) rusb \<Rightarrow> string option \<Rightarrow> Connection \<Rightarrow> 'h DeviceManager \<Rightarrow> ClaimInterfaceRequest \<Rightarrow> 'w \<Rightarrow>
     Message \<times> 'h DeviceManager \<times> 'w" where
  "handle_claim_interface usb jn c dm req w =
     (if sessions c (ciq_session_id req) = None then (claim_result (Some ''Invalid session''), dm, w)
      else
        (case jn of
           Some e \<Rightarrow> (claim_result (Some e), dm, w)
         | None \<Rightarrow>
             (case dm_claim_interface usb dm (ciq_device_id req) (ciq_interface_number req) w of
                (Inr _, dm, w) \<Rightarrow> (claim_result None, dm, w)
              | (Inl e, dm, w) \<Rightarrow> (claim_result (Some (error_to_string (ru_strerror usb) e)), dm, w))))"

definition release_result :: "string option \<Rightarrow> Message" where
  "release_result err = ReleaseInterfaceResult \<lparr>rir_success = (err = None), rir_error_message = err\<rparr>"

definition handle_release_interface ::
  "('w, 'd, 'h) rusb \<Rightarrow> string option \<Rightarrow> Connection \<Rightarrow> 'h DeviceManager \<Rightarrow> ReleaseInterfaceRequest \<Rightarrow> 'w \<Rightarrow>
     Message \<times> 'h DeviceManager \<times> 'w" where
  "handle_release_interface usb jn c dm req w =
     (if sessions c (riq_session_id req) = None then (release_result (Some ''Invalid session''), dm, w)
      else
        (case jn of
           Some e \<Rightarrow> (release_result (Some e), dm, w)
         | None \<Rightarrow>
             (case dm_release_interface usb dm (riq_device_id req) (riq_interface_number req) w of
                (Inr _, dm, w) \<Rightarrow> (release_result None, dm, w)
              | (Inl e, dm, w) \<Rightarrow> (release_result (Some (error_to_string (ru_strerror usb) e)), dm, w))))"

definition configuration_result :: "string option \<Rightarrow> Message" where
  "configuration_result err = SetConfigurationResult \<lparr>scr_success = (err = None), scr_error_message = err\<rparr>"

definition handle_set_configuration ::
  "('w, 'd, 'h) rusb \<Rightarrow> string option \<Rightarrow> Connection \<Rightarrow> 'h DeviceManager \<Rightarrow> SetConfigurationRequest \<Rightarrow> 'w \<Rightarrow>
     Message \<times> 'h DeviceManager \<times> 'w" where
  "handle_set_configuration usb jn c dm req w =
     (if sessions c (scq_session_id req) = None then (configuration_result (Some ''Invalid session''), dm, w)
      else
        (case jn of
           Some e \<Rightarrow> (configuration_result (Some e), dm, w)
         | None \<Rightarrow>
             (case dm_set_configuration usb dm (scq_device_id req) (scq_configuration req) w of
                (Inr _, dm, w) \<Rightarrow> (configuration_result None, dm, w)
              | (Inl e, dm, w) \<Rightarrow> (configuration_result (Some (error_to_string (ru_strerror usb) e)), dm, w))))"

text \<open>
  \<open>handle_bridge\<close> enumerates on \<open>rusb\<close>'s global context. A lost closure and a failed
  enumeration both count as no device found.
\<close>

definition handle_bridge ::
  "('w, 'd, 'h) rusb \<Rightarrow> string option \<Rightarrow> BridgeRequest \<Rightarrow> 'w \<Rightarrow> Action" where
  "handle_bridge usb jn req w =
     (let target_bus = bus_number (bq_device_id req);
          target_addr = address (bq_device_id req);
          busid =
            (case jn of
               Some _ \<Rightarrow> None
             | None \<Rightarrow>
                 Option.bind (ok (ru_global_devices usb w)) (\<lambda>ds.
                   map_option (\<lambda>d. show_word (ru_bus_number usb d) @ ''-'' @ show_word (ru_address usb d)
                                     @ ''-'' @ show_word (ru_port_number usb d))
                     (find (\<lambda>d. ru_bus_number usb d = target_bus \<and> ru_address usb d = target_addr) ds)))
      in case busid of
           None \<Rightarrow> Reply (BridgeRejected \<lparr>br_error_message =
             ''Device not found at bus='' @ show_word target_bus @ '' addr='' @ show_word target_addr\<rparr>)
         | Some b \<Rightarrow>
             BridgeTo (BridgeAccepted
               \<lparr>ba_device_id = bq_device_id req, ba_busid = b, ba_devid = 0, ba_speed = 0,
                ba_vendor_id = 0, ba_product_id = 0, ba_bcd_device = 0, ba_device_class = 0,
                ba_device_subclass = 0, ba_device_protocol = 0, ba_num_configurations = 0,
                ba_num_interfaces = 0, ba_config_value = 0\<rparr>) (bq_device_id req))"

section \<open>Dispatch\<close>

definition handle_message ::
  "('w, 'd, 'h) rusb \<Rightarrow> (bytes \<Rightarrow> bytes \<Rightarrow> bytes) \<Rightarrow> string option \<Rightarrow> Connection \<Rightarrow> 'h DeviceManager \<Rightarrow>
     Message \<Rightarrow> 'w \<Rightarrow> Action \<times> Connection \<times> 'h DeviceManager \<times> 'w" where
  "handle_message usb hmac jn c dm msg w =
     (case msg of
        Hello req \<Rightarrow> (case handle_hello hmac c req of (m, c) \<Rightarrow> (Reply m, c, dm, w))
      | Ping \<Rightarrow> (Reply Pong, c, dm, w)
      | _ \<Rightarrow>
        if shared_key c \<noteq> None \<and> \<not> authenticated c then
          (Reply (error_reply EC_AuthenticationFailed ''Not authenticated. Send Hello first.''), c, dm, w)
        else
          (case msg of
             ListDevices \<Rightarrow> (Reply (handle_list_devices usb jn w), c, dm, w)
           | GetDescriptors req \<Rightarrow> (Reply (handle_get_descriptors usb jn req w), c, dm, w)
           | Attach req \<Rightarrow> (case handle_attach usb jn c dm req w of (m, c, dm, w) \<Rightarrow> (Reply m, c, dm, w))
           | Detach req \<Rightarrow> (case handle_detach usb jn c dm req w of (m, c, dm, w) \<Rightarrow> (Reply m, c, dm, w))
           | ControlTransfer req \<Rightarrow>
               (case handle_control_transfer usb jn c dm req w of (m, w) \<Rightarrow> (Reply m, c, dm, w))
           | BulkTransfer req \<Rightarrow>
               (case handle_bulk_transfer usb jn c dm req w of (m, w) \<Rightarrow> (Reply m, c, dm, w))
           | InterruptTransfer req \<Rightarrow>
               (case handle_interrupt_transfer usb jn c dm req w of (m, w) \<Rightarrow> (Reply m, c, dm, w))
           | ClaimInterface req \<Rightarrow>
               (case handle_claim_interface usb jn c dm req w of (m, dm, w) \<Rightarrow> (Reply m, c, dm, w))
           | ReleaseInterface req \<Rightarrow>
               (case handle_release_interface usb jn c dm req w of (m, dm, w) \<Rightarrow> (Reply m, c, dm, w))
           | SetConfiguration req \<Rightarrow>
               (case handle_set_configuration usb jn c dm req w of (m, dm, w) \<Rightarrow> (Reply m, c, dm, w))
           | Bridge req \<Rightarrow> (handle_bridge usb jn req w, c, dm, w)
           | _ \<Rightarrow> (Reply (error_reply EC_InternalError ''Unexpected message type''), c, dm, w)))"

text \<open>
  \<open>cleanup\<close>: \<open>keys\<close> lists the sessions in the hash map's iteration order.
\<close>

definition cleanup ::
  "('w, 'd, 'h) rusb \<Rightarrow> string option \<Rightarrow> u64 list \<Rightarrow> Connection \<Rightarrow> 'h DeviceManager \<Rightarrow> 'w \<Rightarrow>
     Connection \<times> 'h DeviceManager \<times> 'w" where
  "cleanup usb jn keys c dm w =
     (if sessions c = Map.empty then (c, dm, w)
      else
        (case (case jn of None \<Rightarrow> detach_all_for_sessions usb dm keys w | Some _ \<Rightarrow> (dm, w)) of
           (dm, w) \<Rightarrow> (c\<lparr>sessions := Map.empty\<rparr>, dm, w)))"

section \<open>The connection's loop\<close>

text \<open>
  One iteration: what \<open>framed.next()\<close> gives, whether the closure runs, and whether the socket
  takes what is sent and flushed are the environment's part of it. \<open>framed.send\<close> first encodes
  the message (\<open>enc\<close> is bincode's encoder, as in the codec) and fails with the codec when that
  fails. \<open>Break\<close> carries the device of a bridge handoff.
\<close>

datatype incoming = Frame Message | FrameError WolfUsbError | EndOfStream

datatype flow = Continue | Break "DeviceId option"

record turn =
  t_incoming :: incoming
  t_join :: "string option"
  t_send_ok :: bool
  t_flush_ok :: bool

definition framed_send :: "bincode_enc \<Rightarrow> bool \<Rightarrow> Message \<Rightarrow> bool" where
  "framed_send enc socket_ok m = (ok (fst (encode enc m [])) \<noteq> None \<and> socket_ok)"

definition conn_turn ::
  "('w, 'd, 'h) rusb \<Rightarrow> (bytes \<Rightarrow> bytes \<Rightarrow> bytes) \<Rightarrow> bincode_enc \<Rightarrow> turn \<Rightarrow> Connection \<Rightarrow>
     'h DeviceManager \<Rightarrow> 'w \<Rightarrow> flow \<times> Message list \<times> Connection \<times> 'h DeviceManager \<times> 'w" where
  "conn_turn usb hmac enc t c dm w =
     (case t_incoming t of
        FrameError e \<Rightarrow> (Break None, [], c, dm, w)
      | EndOfStream \<Rightarrow> (Break None, [], c, dm, w)
      | Frame msg \<Rightarrow>
          (case handle_message usb hmac (t_join t) c dm msg w of
             (Reply resp, c, dm, w) \<Rightarrow>
               if framed_send enc (t_send_ok t) resp then (Continue, [resp], c, dm, w)
               else (Break None, [], c, dm, w)
           | (BridgeTo reply target, c, dm, w) \<Rightarrow>
               if \<not> framed_send enc (t_send_ok t) reply then (Break None, [], c, dm, w)
               else if \<not> t_flush_ok t then (Break None, [reply], c, dm, w)
               else (Break (Some target), [reply], c, dm, w)))"

fun run_loop ::
  "('w, 'd, 'h) rusb \<Rightarrow> (bytes \<Rightarrow> bytes \<Rightarrow> bytes) \<Rightarrow> bincode_enc \<Rightarrow> turn list \<Rightarrow> Connection \<Rightarrow>
     'h DeviceManager \<Rightarrow> 'w \<Rightarrow> DeviceId option \<times> Message list \<times> Connection \<times> 'h DeviceManager \<times> 'w" where
  "run_loop usb hmac enc [] c dm w = (None, [], c, dm, w)"
| "run_loop usb hmac enc (t # ts) c dm w =
     (case conn_turn usb hmac enc t c dm w of
        (Break handoff, out, c, dm, w) \<Rightarrow> (handoff, out, c, dm, w)
      | (Continue, out, c, dm, w) \<Rightarrow>
          (case run_loop usb hmac enc ts c dm w of
             (handoff, out', c, dm, w) \<Rightarrow> (handoff, out @ out', c, dm, w)))"

text \<open>
  \<open>run\<close>, for a stream that delivers \<open>turns\<close> and then ends. \<open>bridge\<close> is what the server's bridge
  (\<open>src/src/server/bridge.rs\<close>) does to the outside world until it ends, if it does; it has no part in
  the connection and the manager. After a handoff there is no cleanup. \<open>keys\<close> gives the hash
  map's iteration order.
\<close>

definition run ::
  "('w, 'd, 'h) rusb \<Rightarrow> (bytes \<Rightarrow> bytes \<Rightarrow> bytes) \<Rightarrow> bincode_enc \<Rightarrow> (DeviceId \<Rightarrow> 'w \<Rightarrow> 'w) \<Rightarrow> string option \<Rightarrow>
     ((u64 \<rightharpoonup> DeviceId) \<Rightarrow> u64 list) \<Rightarrow> turn list \<Rightarrow> Connection \<Rightarrow> 'h DeviceManager \<Rightarrow> 'w \<Rightarrow>
     Message list \<times> Connection \<times> 'h DeviceManager \<times> 'w" where
  "run usb hmac enc bridge jn keys turns c dm w =
     (case run_loop usb hmac enc turns c dm w of
        (Some target, out, c, dm, w) \<Rightarrow>
          (case stream c of
             Plain \<Rightarrow> (out, c, dm, bridge target w)
           | Tls \<Rightarrow> (out, c, dm, w))
      | (None, out, c, dm, w) \<Rightarrow>
          (case cleanup usb jn (keys (sessions c)) c dm w of (c, dm, w) \<Rightarrow> (out, c, dm, w)))"

section \<open>A transfer in two halves\<close>

text \<open>
  The transfer handlers give the manager's lock back before the transfer runs. Up to there, the
  authentication and the authorisation; from there on, the transfer with the handle obtained, and
  the sending of the answer.
\<close>

fun transfer_target :: "Message \<Rightarrow> (u64 \<times> DeviceId) option" where
  "transfer_target (ControlTransfer req) = Some (ctq_session_id req, ctq_device_id req)"
| "transfer_target (BulkTransfer req) = Some (btq_session_id req, btq_device_id req)"
| "transfer_target (InterruptTransfer req) = Some (itq_session_id req, itq_device_id req)"
| "transfer_target _ = None"

fun execute_transfer ::
  "('w, 'd, 'h) rusb \<Rightarrow> 'h \<Rightarrow> Message \<Rightarrow> 'w \<Rightarrow> (TransferResponse \<times> 'w) option" where
  "execute_transfer usb h (ControlTransfer req) w = Some (execute_control_transfer usb h req w)"
| "execute_transfer usb h (BulkTransfer req) w = Some (execute_bulk_transfer usb h req w)"
| "execute_transfer usb h (InterruptTransfer req) w = Some (execute_interrupt_transfer usb h req w)"
| "execute_transfer usb h _ w = None"

definition begin_transfer ::
  "('w, 'd, 'h) rusb \<Rightarrow> turn \<Rightarrow> Connection \<Rightarrow> 'h DeviceManager \<Rightarrow> 'w \<Rightarrow> 'h option" where
  "begin_transfer usb t c dm w =
     (case t_incoming t of
        Frame msg \<Rightarrow>
          (case transfer_target msg of
             Some (sid, did) \<Rightarrow>
               if shared_key c \<noteq> None \<and> \<not> authenticated c then None
               else ok (authorize_transfer usb c dm sid did w)
           | None \<Rightarrow> None)
      | _ \<Rightarrow> None)"

definition end_transfer ::
  "('w, 'd, 'h) rusb \<Rightarrow> bincode_enc \<Rightarrow> turn \<Rightarrow> 'h \<Rightarrow> 'w \<Rightarrow> flow \<times> Message list \<times> 'w" where
  "end_transfer usb enc t h w =
     (case t_incoming t of
        Frame msg \<Rightarrow>
          (case (t_join t, execute_transfer usb h msg w) of
             (None, Some (resp, w)) \<Rightarrow>
               if framed_send enc (t_send_ok t) (TransferResult resp) then (Continue, [TransferResult resp], w)
               else (Break None, [], w)
           | (Some e, _) \<Rightarrow>
               if framed_send enc (t_send_ok t) (error_reply EC_InternalError e)
               then (Continue, [error_reply EC_InternalError e], w)
               else (Break None, [], w)
           | (None, None) \<Rightarrow> (Break None, [], w))
      | _ \<Rightarrow> (Break None, [], w))"

lemma transfer_targetE:
  assumes "transfer_target msg = Some (sid, did)"
  obtains req where "msg = ControlTransfer req" "sid = ctq_session_id req" "did = ctq_device_id req"
    | req where "msg = BulkTransfer req" "sid = btq_session_id req" "did = btq_device_id req"
    | req where "msg = InterruptTransfer req" "sid = itq_session_id req" "did = itq_device_id req"
  using assms by (cases msg) auto

lemma begin_transferE:
  assumes "begin_transfer usb t c dm w = Some h"
  obtains msg sid did where "t_incoming t = Frame msg" "transfer_target msg = Some (sid, did)"
    "shared_key c = None \<or> authenticated c" "authorize_transfer usb c dm sid did w = Ok h"
  using assms by (auto simp: begin_transfer_def elim!: ok.elims split: incoming.splits option.splits if_splits)

text \<open>The two halves of a transfer are its turn, when nothing happens in between.\<close>

lemma turn_in_halves:
  assumes "begin_transfer usb t c dm w = Some h"
  shows "conn_turn usb hmac enc t c dm w = (case end_transfer usb enc t h w of (fl, out, w) \<Rightarrow> (fl, out, c, dm, w))"
proof -
  obtain msg sid did where m: "t_incoming t = Frame msg" "transfer_target msg = Some (sid, did)"
    "shared_key c = None \<or> authenticated c" "authorize_transfer usb c dm sid did w = Ok h"
    using assms by (rule begin_transferE)
  from m(2) show ?thesis
    by (cases rule: transfer_targetE; cases "t_join t")
      (use m in \<open>auto simp: conn_turn_def end_transfer_def handle_message_def handle_control_transfer_def
        handle_bulk_transfer_def handle_interrupt_transfer_def split: prod.splits\<close>)
qed

section \<open>The effect of a message\<close>

definition same_tables :: "'h DeviceManager \<Rightarrow> 'h DeviceManager \<Rightarrow> bool" where
  "same_tables dm dm' \<longleftrightarrow> dom (attachments dm') = dom (attachments dm) \<and>
     (\<forall>d. map_option handle (attachments dm' d) = map_option handle (attachments dm d)) \<and>
     session_to_device dm' = session_to_device dm \<and> next_session_id dm' = next_session_id dm"

lemma same_tables_refl [simp]: "same_tables dm dm"
  by (simp add: same_tables_def)

lemma same_tables_claim:
  "dm_claim_interface usb dm did n w = (res, dm', w') \<Longrightarrow> same_tables dm dm'"
  unfolding same_tables_def using claim_interface_tables by metis

lemma same_tables_release:
  "dm_release_interface usb dm did n w = (res, dm', w') \<Longrightarrow> same_tables dm dm'"
  unfolding same_tables_def using release_interface_tables by metis

lemma same_tables_configure:
  "dm_set_configuration usb dm did n w = (res, dm', w') \<Longrightarrow> same_tables dm dm'"
  by (auto dest: set_configuration_tables)

lemmas same_tables_ops = same_tables_claim same_tables_release same_tables_configure

text \<open>
  Each handler that may change the tables, and what it does to them and to the connection's
  sessions.
\<close>

lemma handle_hello_same:
  "handle_hello hmac c req = (m, c') \<Longrightarrow>
     sessions c' = sessions c \<and> shared_key c' = shared_key c \<and> peer_addr c' = peer_addr c"
  by (auto simp: handle_hello_def split: if_splits option.splits)

lemma handle_claim_same:
  "handle_claim_interface usb jn c dm req w = (m, dm', w') \<Longrightarrow> same_tables dm dm'"
  by (auto simp: handle_claim_interface_def dest: same_tables_ops split: if_splits option.splits prod.splits sum.splits)

lemma handle_release_same:
  "handle_release_interface usb jn c dm req w = (m, dm', w') \<Longrightarrow> same_tables dm dm'"
  by (auto simp: handle_release_interface_def dest: same_tables_ops split: if_splits option.splits prod.splits sum.splits)

lemma handle_configuration_same:
  "handle_set_configuration usb jn c dm req w = (m, dm', w') \<Longrightarrow> same_tables dm dm'"
  by (auto simp: handle_set_configuration_def dest: same_tables_ops split: if_splits option.splits prod.splits sum.splits)

lemma handle_attach_effect:
  assumes "handle_attach usb jn c dm req w = (m, c', dm', w')"
  shows "(c', dm') = (c, dm) \<or>
    (\<exists>sid. dm_attach usb dm (aq_device_id req) (peer_addr c) w = (Ok sid, dm', w') \<and>
       c' = c\<lparr>sessions := (sessions c)(sid \<mapsto> aq_device_id req)\<rparr>)"
  using assms by (auto simp: handle_attach_def dest: dm_attach_Err split: option.splits prod.splits sum.splits)

lemma handle_detach_effect:
  assumes "handle_detach usb jn c dm req w = (m, c', dm', w')"
  shows "(c', dm') = (c, dm) \<or>
    (\<exists>res. sessions c (dq_session_id req) \<noteq> None \<and>
       dm_detach usb dm (dq_device_id req) (dq_session_id req) w = (res, dm', w') \<and>
       c' = c\<lparr>sessions := (sessions c)(dq_session_id req := None)\<rparr>)"
  using assms by (auto simp: handle_detach_def split: if_splits option.splits prod.splits sum.splits)

text \<open>A message changes the tables by one attach or one detach, or leaves them as they were.\<close>

inductive msg_effect ::
  "('w, 'd, 'h) rusb \<Rightarrow> Connection \<Rightarrow> 'h DeviceManager \<Rightarrow> 'w \<Rightarrow> Message \<Rightarrow>
     Connection \<Rightarrow> 'h DeviceManager \<Rightarrow> bool"
  for usb c dm w msg where
  eff_same: "same_tables dm dm' \<Longrightarrow> sessions c' = sessions c \<Longrightarrow> msg_effect usb c dm w msg c' dm'"
| eff_attach: "dm_attach usb dm (aq_device_id req) addr w = (Ok sid, dm', w') \<Longrightarrow>
     sessions c' = (sessions c)(sid \<mapsto> aq_device_id req) \<Longrightarrow> msg = Attach req \<Longrightarrow> msg_effect usb c dm w msg c' dm'"
| eff_detach: "msg = Detach req \<Longrightarrow> sessions c (dq_session_id req) \<noteq> None \<Longrightarrow>
     dm_detach usb dm (dq_device_id req) (dq_session_id req) w = (res, dm', w') \<Longrightarrow>
     sessions c' = (sessions c)(dq_session_id req := None) \<Longrightarrow> msg_effect usb c dm w msg c' dm'"

lemma handle_message_effect:
  assumes "handle_message usb hmac jn c dm msg w = (act, c', dm', w')"
  shows "msg_effect usb c dm w msg c' dm'"
proof (cases msg)
  case (Hello req)
  with assms show ?thesis
    by (auto simp: handle_message_def intro: msg_effect.intros dest: handle_hello_same split: prod.splits)
next
  case (Attach req)
  with assms show ?thesis
    by (auto simp: handle_message_def intro: msg_effect.intros dest!: handle_attach_effect split: prod.splits if_splits)
next
  case (Detach req)
  with assms show ?thesis
    by (auto simp: handle_message_def intro: msg_effect.intros dest!: handle_detach_effect split: prod.splits if_splits)
next
  case (ClaimInterface req)
  with assms show ?thesis
    by (auto simp: handle_message_def intro: msg_effect.intros dest: handle_claim_same split: prod.splits if_splits)
next
  case (ReleaseInterface req)
  with assms show ?thesis
    by (auto simp: handle_message_def intro: msg_effect.intros dest: handle_release_same split: prod.splits if_splits)
next
  case (SetConfiguration req)
  with assms show ?thesis
    by (auto simp: handle_message_def intro: msg_effect.intros dest: handle_configuration_same split: prod.splits if_splits)
qed (use assms in \<open>auto simp: handle_message_def intro: eff_same split: prod.splits if_splits\<close>)

lemma handle_message_key:
  assumes "handle_message usb hmac jn c dm msg w = (act, c', dm', w')"
  shows "shared_key c' = shared_key c"
  using assms
  by (cases msg) (auto simp: handle_message_def intro: msg_effect.intros dest!: handle_hello_same handle_attach_effect
      handle_detach_effect split: prod.splits if_splits)

section \<open>A connection and the devices it holds\<close>

text \<open>
  The sessions a connection keeps are sessions of the manager for the same devices.
  \<open>others\<close> are the sessions of the manager that are not this connection's.
\<close>

definition conn_ok :: "Connection \<Rightarrow> 'h DeviceManager \<Rightarrow> bool" where
  "conn_ok c dm \<longleftrightarrow> finite (dom (sessions c)) \<and> sessions c \<subseteq>\<^sub>m session_to_device dm"

definition others :: "Connection \<Rightarrow> 'h DeviceManager \<Rightarrow> (u64 \<rightharpoonup> DeviceId)" where
  "others c dm = (session_to_device dm) |` (- dom (sessions c))"

text \<open>A client that detaches a device with the session it was given for that device.\<close>

fun honest_msg :: "Connection \<Rightarrow> Message \<Rightarrow> bool" where
  "honest_msg c (Detach req) =
     (sessions c (dq_session_id req) = None \<or> sessions c (dq_session_id req) = Some (dq_device_id req))"
| "honest_msg c _ = True"

lemma conn_ok_effect:
  assumes "msg_effect usb c dm w msg c' dm'" "conn_ok c dm"
  shows "conn_ok c' dm'"
  using assms(1)
proof cases
  case eff_same
  with assms(2) show ?thesis by (simp add: conn_ok_def same_tables_def)
next
  case (eff_attach req addr sid w')
  with assms(2) dm_attach_Ok(4) [OF eff_attach(1)] show ?thesis
    by (auto simp: conn_ok_def map_le_def)
next
  case (eff_detach req res w')
  with assms(2) show ?thesis
    by (auto simp: conn_ok_def map_le_def dm_detach_def Let_def split: option.splits if_splits)
qed

lemma msg_effect_counter:
  assumes "msg_effect usb c dm w msg c' dm'"
  shows "next_session_id dm' = next_session_id dm \<or> next_session_id dm' = next_session_id dm + 1"
  using assms
  by cases (auto simp: same_tables_def dm_detach_def Let_def dest: dm_attach_counter split: option.splits)

lemma honest_effect:
  assumes "msg_effect usb c dm w msg c' dm'" "honest_msg c msg" "conn_ok c dm" "dm_inv dm"
    and "next_session_id dm + 1 \<noteq> 0"
  shows "dm_inv dm' \<and> others c' dm' = others c dm"
  using assms(1)
proof cases
  case eff_same
  with assms(4) show ?thesis
    using dm_inv_unchanged_tables by (auto simp: others_def same_tables_def)
next
  case (eff_attach req addr sid w')
  note ok = dm_attach_Ok [OF eff_attach(1)]
  have "session_to_device dm sid = None"
    using dm_invD(4) [OF assms(4), of sid] ok(2) by (cases "session_to_device dm sid") auto
  then have "others c' dm' = others c dm"
    by (auto simp: others_def eff_attach(2) ok(4) restrict_map_def)
  with dm_inv_attach [OF assms(4) eff_attach(1) assms(5)] show ?thesis by simp
next
  case (eff_detach req res w')
  with assms(2,3) have sid: "session_to_device dm (dq_session_id req) = Some (dq_device_id req)"
    by (auto simp: conn_ok_def map_le_def dom_def)
  obtain at where "attachments dm (dq_device_id req) = Some at"
    using dm_invD(1) [OF assms(4) sid] by auto
  from dm_detach_attached [OF this, of usb "dq_session_id req" w] eff_detach
  have "others c' dm' = others c dm" by (auto simp: others_def restrict_map_def fun_eq_iff)
  with dm_inv_detach [OF assms(4) sid eff_detach(3)] show ?thesis by simp
qed

section \<open>Runs of the loop\<close>

lemma conn_turn_effect:
  assumes "conn_turn usb hmac enc t c dm w = (fl, out, c', dm', w')"
  shows "(c', dm', w') = (c, dm, w) \<and> (\<forall>msg. t_incoming t \<noteq> Frame msg) \<or>
    (\<exists>msg act. t_incoming t = Frame msg \<and>
       handle_message usb hmac (t_join t) c dm msg w = (act, c', dm', w'))"
proof (cases "t_incoming t")
  case (Frame msg)
  obtain act c1 dm1 w1 where h: "handle_message usb hmac (t_join t) c dm msg w = (act, c1, dm1, w1)"
    by (metis prod_cases4)
  with assms Frame have "(c', dm', w') = (c1, dm1, w1)"
    by (cases act) (auto simp: conn_turn_def split: if_splits)
  with h Frame show ?thesis by simp
qed (use assms in \<open>auto simp: conn_turn_def\<close>)

fun honest ::
  "('w, 'd, 'h) rusb \<Rightarrow> (bytes \<Rightarrow> bytes \<Rightarrow> bytes) \<Rightarrow> bincode_enc \<Rightarrow> turn list \<Rightarrow> Connection \<Rightarrow>
     'h DeviceManager \<Rightarrow> 'w \<Rightarrow> bool" where
  "honest usb hmac enc [] c dm w = True"
| "honest usb hmac enc (t # ts) c dm w =
     ((case t_incoming t of Frame msg \<Rightarrow> honest_msg c msg | _ \<Rightarrow> True) \<and>
      (case conn_turn usb hmac enc t c dm w of (_, _, c, dm, w) \<Rightarrow> honest usb hmac enc ts c dm w))"

lemma conn_turn_honest:
  assumes "conn_turn usb hmac enc t c dm w = (fl, out, c', dm', w')"
    and "case t_incoming t of Frame msg \<Rightarrow> honest_msg c msg | _ \<Rightarrow> True"
    and "conn_ok c dm" "dm_inv dm" "unat (next_session_id dm) + Suc k < 2 ^ 64"
  shows "conn_ok c' dm'" "dm_inv dm'" "others c' dm' = others c dm"
    "unat (next_session_id dm') + k < 2 ^ 64"
proof -
  consider "c' = c" "dm' = dm" |
    msg where "t_incoming t = Frame msg" "msg_effect usb c dm w msg c' dm'"
    using conn_turn_effect [OF assms(1)] by (auto dest: handle_message_effect)
  then have "conn_ok c' dm' \<and> dm_inv dm' \<and> others c' dm' = others c dm \<and>
      unat (next_session_id dm') + k < 2 ^ 64"
  proof cases
    case 2
    note r = counter_room [OF msg_effect_counter [OF 2(2)] assms(5)]
    have "honest_msg c msg" using assms(2) 2(1) by simp
    from honest_effect [OF 2(2) this assms(3,4) r(1)] conn_ok_effect [OF 2(2) assms(3)] r(2)
    show ?thesis by simp
  qed (use assms in auto)
  then show "conn_ok c' dm'" "dm_inv dm'" "others c' dm' = others c dm"
    "unat (next_session_id dm') + k < 2 ^ 64" by simp_all
qed

lemma run_loop_honest:
  "run_loop usb hmac enc ts c dm w = (ho, out, c', dm', w') \<Longrightarrow> honest usb hmac enc ts c dm w \<Longrightarrow>
     conn_ok c dm \<Longrightarrow> dm_inv dm \<Longrightarrow> unat (next_session_id dm) + length ts < 2 ^ 64 \<Longrightarrow>
     conn_ok c' dm' \<and> dm_inv dm' \<and> others c' dm' = others c dm"
proof (induction ts arbitrary: c dm w out)
  case (Cons t ts)
  obtain fl out1 c1 dm1 w1 where t: "conn_turn usb hmac enc t c dm w = (fl, out1, c1, dm1, w1)"
    by (metis prod_cases5)
  have h: "case t_incoming t of Frame msg \<Rightarrow> honest_msg c msg | _ \<Rightarrow> True"
    and hs: "honest usb hmac enc ts c1 dm1 w1" using Cons.prems(2) t by simp_all
  have room: "unat (next_session_id dm) + Suc (length ts) < 2 ^ 64" using Cons.prems(5) by simp
  note inv = conn_turn_honest [OF t h Cons.prems(3,4) room]
  show ?case
  proof (cases fl)
    case Continue
    with Cons.prems(1) t obtain out2 where
      "run_loop usb hmac enc ts c1 dm1 w1 = (ho, out2, c', dm', w')" by (auto split: prod.splits)
    from Cons.IH [OF this hs inv(1,2,4)] inv(3) show ?thesis by simp
  next
    case (Break x)
    with Cons.prems(1) t inv show ?thesis by simp
  qed
qed simp

definition keys_ok :: "((u64 \<rightharpoonup> DeviceId) \<Rightarrow> u64 list) \<Rightarrow> bool" where
  "keys_ok keys \<longleftrightarrow> (\<forall>m. finite (dom m) \<longrightarrow> set (keys m) = dom m)"

lemma cleanup_honest:
  assumes "cleanup usb None (keys (sessions c)) c dm w = (c', dm', w')"
    and "conn_ok c dm" "dm_inv dm" "keys_ok keys"
  shows "sessions c' = Map.empty" "dm_inv dm'" "session_to_device dm' = others c dm"
proof -
  have ks: "set (keys (sessions c)) = dom (sessions c)"
    using assms(2,4) by (simp add: keys_ok_def conn_ok_def)
  obtain dm1 w1 where d: "detach_all_for_sessions usb dm (keys (sessions c)) w = (dm1, w1)"
    by (metis surj_pair)
  have "dm_inv dm1" "session_to_device dm1 = others c dm"
    using detach_all_effect [OF assms(3) d] by (simp_all add: ks sessions_removed_def others_def)
  moreover have "others c dm = session_to_device dm" if "sessions c = Map.empty"
    using that by (simp add: others_def restrict_map_def)
  ultimately show "sessions c' = Map.empty" "dm_inv dm'" "session_to_device dm' = others c dm"
    using assms(1,3) by (auto simp: cleanup_def d split: if_splits)
qed

text \<open>C10: a connection leaves no trace: when its client detaches each device with the session it
  was given for it, and the connection ends by the stream ending, failing or a send failing
  rather than by a handoff to the bridge, then afterwards exactly the devices that were attached
  before the connection are attached, under the same sessions, whatever the client attached,
  claimed, transferred or left attached.\<close>

theorem connection_leaves_no_trace:
  assumes "dm_inv dm" "unat (next_session_id dm) + length turns < 2 ^ 64" "keys_ok keys"
    and "honest usb hmac enc turns (connection_new strm addr key) dm w"
    and "run_loop usb hmac enc turns (connection_new strm addr key) dm w = (None, out0, c0, dm0, w0)"
    and "run usb hmac enc bridge None keys turns (connection_new strm addr key) dm w = (out, c', dm', w')"
  shows "sessions c' = Map.empty \<and> dm_inv dm' \<and>
    session_to_device dm' = session_to_device dm \<and> dom (attachments dm') = dom (attachments dm)"
proof -
  let ?c = "connection_new strm addr key"
  have "conn_ok ?c dm" "others ?c dm = session_to_device dm"
    by (simp_all add: conn_ok_def others_def connection_new_def restrict_map_def)
  with run_loop_honest [OF assms(5,4) _ assms(1,2)]
  have inv: "conn_ok c0 dm0" "dm_inv dm0" "others c0 dm0 = session_to_device dm" by simp_all
  have "cleanup usb None (keys (sessions c0)) c0 dm0 w0 = (c', dm', w')"
    using assms(6) unfolding run_def assms(5) by (auto split: prod.splits)
  note cl = cleanup_honest [OF this inv(1,2) assms(3)]
  have "attachments dm' d \<noteq> None \<longleftrightarrow> attachments dm d \<noteq> None" for d
    using dm_invD(1,2) [OF cl(2)] dm_invD(1,2) [OF assms(1)] cl(3) inv(3) by metis
  then show ?thesis using cl inv(3) by auto
qed

section \<open>What a connection promises\<close>

text \<open>What a server answers to a client it does not know.\<close>

fun refusal :: "Message \<Rightarrow> bool" where
  "refusal Pong = True"
| "refusal (HelloResponse r) = (\<not> hr_auth_accepted r \<and> hr_auth_challenge_response r = [])"
| "refusal (Error e) = (er_code e = EC_AuthenticationFailed)"
| "refusal _ = False"

fun proves :: "(bytes \<Rightarrow> bytes \<Rightarrow> bytes) \<Rightarrow> bytes \<Rightarrow> Message \<Rightarrow> bool" where
  "proves hmac key (Hello req) =
     (hq_protocol_version req = PROTOCOL_VERSION \<and>
      hq_auth_proof req = client_tag hmac key (hq_auth_nonce req))"
| "proves _ _ _ = False"

lemma unproved_message:
  assumes "shared_key c = Some key" "\<not> authenticated c" "\<not> proves hmac key msg"
    and "handle_message usb hmac jn c dm msg w = (act, c', dm', w')"
  shows "(c', dm', w') = (c, dm, w) \<and> (\<exists>m. act = Reply m \<and> refusal m)"
  using assms
  by (cases msg) (auto simp: handle_message_def handle_hello_def hello_refused_def error_reply_def
      split: if_splits)

lemma unproved_turn:
  assumes "shared_key c = Some key" "\<not> authenticated c"
    and "\<forall>msg. t_incoming t = Frame msg \<longrightarrow> \<not> proves hmac key msg"
    and "conn_turn usb hmac enc t c dm w = (fl, out, c', dm', w')"
  shows "(c', dm', w') = (c, dm, w)" "\<forall>m \<in> set out. refusal m" "fl = Continue \<or> fl = Break None"
proof -
  have "(c', dm', w') = (c, dm, w) \<and> (\<forall>m \<in> set out. refusal m) \<and> (fl = Continue \<or> fl = Break None)"
  proof (cases "t_incoming t")
    case (Frame msg)
    obtain act c1 dm1 w1 where h: "handle_message usb hmac (t_join t) c dm msg w = (act, c1, dm1, w1)"
      by (metis prod_cases4)
    from unproved_message [OF assms(1,2) _ h] assms(3,4) Frame h show ?thesis
      by (auto simp: conn_turn_def split: if_splits)
  qed (use assms(4) in \<open>auto simp: conn_turn_def\<close>)
  then show "(c', dm', w') = (c, dm, w)" "\<forall>m \<in> set out. refusal m" "fl = Continue \<or> fl = Break None"
    by simp_all
qed

lemma unproved_loop:
  "shared_key c = Some key \<Longrightarrow> \<not> authenticated c \<Longrightarrow>
   \<forall>t \<in> set ts. \<forall>msg. t_incoming t = Frame msg \<longrightarrow> \<not> proves hmac key msg \<Longrightarrow>
   run_loop usb hmac enc ts c dm w = (ho, out, c', dm', w') \<Longrightarrow>
     ho = None \<and> (c', dm', w') = (c, dm, w) \<and> (\<forall>m \<in> set out. refusal m)"
proof (induction ts arbitrary: out)
  case (Cons t ts)
  obtain fl out1 c1 dm1 w1 where t: "conn_turn usb hmac enc t c dm w = (fl, out1, c1, dm1, w1)"
    by (metis prod_cases5)
  have "\<forall>msg. t_incoming t = Frame msg \<longrightarrow> \<not> proves hmac key msg" using Cons.prems(3) by simp
  note u = unproved_turn [OF Cons.prems(1,2) this t]
  show ?case
  proof (cases fl)
    case Continue
    with Cons.prems(4) t u(1) obtain out2 where
      "run_loop usb hmac enc ts c dm w = (ho, out2, c', dm', w')" "out = out1 @ out2"
      by (auto split: prod.splits)
    with Cons.IH [OF Cons.prems(1,2)] Cons.prems(3) u(2) show ?thesis by auto
  next
    case (Break x)
    with Cons.prems(4) t u show ?thesis by simp
  qed
qed simp

text \<open>C3: without the key a client gets nowhere: on a server with a shared key, a connection on
  which no \<open>Hello\<close> carries the right proof and version leaves the connection, the device
  manager and the USB state exactly as they were, whatever it sends, is handed to no bridge, and
  every message it is sent is a refusal or a \<open>Pong\<close> (no device data, no proof of the
  server's).\<close>

theorem unauthenticated_is_powerless:
  assumes "\<forall>t \<in> set turns. \<forall>msg. t_incoming t = Frame msg \<longrightarrow> \<not> proves hmac key msg"
    and "run usb hmac enc bridge jn keys turns (connection_new strm addr (Some key)) dm w =
      (out, c', dm', w')"
  shows "c' = connection_new strm addr (Some key) \<and> dm' = dm \<and> w' = w \<and> (\<forall>m \<in> set out. refusal m)"
proof -
  let ?c = "connection_new strm addr (Some key)"
  obtain ho out1 c1 dm1 w1 where l: "run_loop usb hmac enc turns ?c dm w = (ho, out1, c1, dm1, w1)"
    by (metis prod_cases5)
  have "shared_key ?c = Some key" "\<not> authenticated ?c" by (simp_all add: connection_new_def)
  from unproved_loop [OF this assms(1) l] have u: "ho = None" "c1 = ?c" "dm1 = dm" "w1 = w"
    "\<forall>m \<in> set out1. refusal m" by simp_all
  from u(1-4) l assms(2) show ?thesis
    using u(5) by (auto simp: run_def cleanup_def connection_new_def)
qed

text \<open>C23: the handshake accepts exactly the right version with the right proof (any, on a server
  without a key), an accepted \<open>Hello\<close> carries the server's own proof over the client's nonce,
  the connection counts as authenticated from then on, and no other message changes that. The
  answer depends on the connection only through the key: nothing in it is fresh on the server's
  side, so the same bytes are accepted again on any connection.\<close>

theorem handshake_outcome:
  assumes "handle_message usb hmac jn c dm msg w = (act, c', dm', w')"
  shows "(authenticated c' \<longleftrightarrow> authenticated c \<or>
      (\<exists>req. msg = Hello req \<and> hq_protocol_version req = PROTOCOL_VERSION \<and>
         (\<forall>key. shared_key c = Some key \<longrightarrow> hq_auth_proof req = client_tag hmac key (hq_auth_nonce req)))) \<and>
    (\<forall>req. msg = Hello req \<longrightarrow>
      (\<exists>r. act = Reply (HelloResponse r) \<and> hr_protocol_version r = PROTOCOL_VERSION \<and>
         (hr_auth_accepted r \<longleftrightarrow> hq_protocol_version req = PROTOCOL_VERSION \<and>
           (\<forall>key. shared_key c = Some key \<longrightarrow> proves hmac key (Hello req))) \<and>
         (hr_auth_accepted r \<longrightarrow> hr_auth_challenge_response r =
           (case shared_key c of None \<Rightarrow> [] | Some key \<Rightarrow> server_tag hmac key (hq_auth_nonce req)))) \<and>
      (\<forall>d jn' dm2 v. shared_key d = shared_key c \<longrightarrow>
         fst (handle_message usb hmac jn' d dm2 msg v) = act))"
proof (cases msg)
  case (Hello req)
  with assms show ?thesis
    by (auto simp: handle_message_def handle_hello_def hello_accepted_def hello_refused_def
        split: if_splits option.splits)
next
  case (Attach req)
  with assms show ?thesis
    by (auto simp: handle_message_def dest!: handle_attach_effect split: prod.splits if_splits)
next
  case (Detach req)
  with assms show ?thesis
    by (auto simp: handle_message_def dest!: handle_detach_effect split: prod.splits if_splits)
qed (use assms in \<open>auto simp: handle_message_def split: prod.splits if_splits\<close>)

text \<open>The session a request names.\<close>

fun session_of :: "Message \<Rightarrow> u64 option" where
  "session_of (Detach r) = Some (dq_session_id r)"
| "session_of (ControlTransfer r) = Some (ctq_session_id r)"
| "session_of (BulkTransfer r) = Some (btq_session_id r)"
| "session_of (InterruptTransfer r) = Some (itq_session_id r)"
| "session_of (ClaimInterface r) = Some (ciq_session_id r)"
| "session_of (ReleaseInterface r) = Some (riq_session_id r)"
| "session_of (SetConfiguration r) = Some (scq_session_id r)"
| "session_of _ = None"

text \<open>An answer that reports a failure.\<close>

fun failed :: "Message \<Rightarrow> bool" where
  "failed (DetachResult r) = (\<not> dr_success r)"
| "failed (TransferResult r) = (\<not> tr_success r \<and> tr_data r = [] \<and> tr_bytes_transferred r = 0)"
| "failed (ClaimInterfaceResult r) = (\<not> cir_success r)"
| "failed (ReleaseInterfaceResult r) = (\<not> rir_success r)"
| "failed (SetConfigurationResult r) = (\<not> scr_success r)"
| "failed (AttachResult r) = (\<not> ar_success r \<and> ar_session_id r = None)"
| "failed (Error e) = True"
| "failed _ = False"

lemmas answer_defs = error_reply_def transfer_error_def claim_result_def release_result_def
  configuration_result_def detach_result_def attach_failed_def

text \<open>C22: a session is good only on the connection that attached: a request that names a session
  this connection does not hold is answered with a failure and changes nothing, even when the
  manager knows the session (another connection, or an earlier one of the same client, attached
  the device).\<close>

theorem foreign_session_refused:
  assumes "session_of msg = Some sid" and "sessions c sid = None"
  shows "\<exists>m. handle_message usb hmac jn c dm msg w = (Reply m, c, dm, w) \<and> failed m"
  using assms
  by (cases msg) (auto simp: handle_message_def handle_detach_def handle_control_transfer_def
      handle_bulk_transfer_def handle_interrupt_transfer_def handle_claim_interface_def
      handle_release_interface_def handle_set_configuration_def authorize_transfer_def answer_defs
      split: sum.splits)

text \<open>The transfer that a request asks for: its device, and what it does with the device's handle.\<close>

fun transfer_of :: "('w, 'd, 'h) rusb \<Rightarrow> Message \<Rightarrow>
    (DeviceId \<times> ('h \<Rightarrow> 'w \<Rightarrow> TransferResponse \<times> 'w)) option" where
  "transfer_of usb (ControlTransfer r) = Some (ctq_device_id r, \<lambda>h. execute_control_transfer usb h r)"
| "transfer_of usb (BulkTransfer r) = Some (btq_device_id r, \<lambda>h. execute_bulk_transfer usb h r)"
| "transfer_of usb (InterruptTransfer r) = Some (itq_device_id r, \<lambda>h. execute_interrupt_transfer usb h r)"
| "transfer_of usb _ = None"

lemma authorize_transfer_Ok:
  "authorize_transfer usb c dm sid did w = Ok h \<longleftrightarrow>
     sessions c sid \<noteq> None \<and> validate_session dm sid did = Ok () \<and> get_handle usb dm did w = Ok h"
  by (auto simp del: validate_session_Ok simp: authorize_transfer_def split: sum.splits)

lemma authorize_transfer_Err:
  "authorize_transfer usb c dm sid did w = Err m \<Longrightarrow> failed m"
  by (auto simp: authorize_transfer_def transfer_error_def split: sum.splits if_splits)

lemma get_handle_attached:
  "get_handle usb dm did w = Ok h \<Longrightarrow> \<exists>at. attachments dm did = Some at \<and> handle at = h"
  by (auto simp: get_handle_def split: option.splits sum.splits if_splits)

text \<open>C4: a transfer reaches the hardware only through the right session: a transfer request
  either is answered with a failure and touches nothing, or this connection holds the session,
  the manager confirms that it holds the device, and the answer and the new USB state are those
  of the transfer run on the handle with which the device is attached. The connection and the
  manager never change.\<close>

theorem transfers_are_authorised:
  assumes "transfer_of usb msg = Some (did, exec)" and "session_of msg = Some sid"
    and "handle_message usb hmac jn c dm msg w = (act, c', dm', w')"
  shows "c' = c \<and> dm' = dm \<and>
    (w' = w \<and> (\<exists>m. act = Reply m \<and> failed m) \<or>
     sessions c sid \<noteq> None \<and> validate_session dm sid did = Ok () \<and>
     (\<exists>at resp. attachments dm did = Some at \<and> exec (handle at) w = (resp, w') \<and>
        act = Reply (TransferResult resp)))"
  using assms
  by (cases msg) (auto simp: handle_message_def handle_control_transfer_def handle_bulk_transfer_def
      handle_interrupt_transfer_def error_reply_def authorize_transfer_Ok
      dest: authorize_transfer_Err get_handle_attached
      split: sum.splits option.splits prod.splits if_splits)

text \<open>
  A connection in use: one client attached the sample device and holds session 1.
\<close>

definition sample_conn :: Connection where
  "sample_conn = \<lparr>stream = Plain, peer_addr = ''peer'', authenticated = True, shared_key = None,
     sessions = [1 \<mapsto> sample_device]\<rparr>"

abbreviation sample_turn :: "Message \<Rightarrow> turn" where
  "sample_turn msg \<equiv> \<lparr>t_incoming = Frame msg, t_join = None, t_send_ok = True, t_flush_ok = True\<rparr>"

theorem foreign_session_refused_witness:
  "\<exists>m. handle_message (idle_usb [(1, 2)]) (\<lambda>k d. k @ d) None (connection_new Plain ''other'' None) sample_dm
     (ControlTransfer \<lparr>ctq_session_id = 1, ctq_device_id = sample_device, ctq_request_type = 0x80,
        ctq_request = 6, ctq_value = 0x100, ctq_index = 0, ctq_data = [], ctq_length = 18,
        ctq_timeout_ms = 1000\<rparr>) () = (Reply m, connection_new Plain ''other'' None, sample_dm, ()) \<and> failed m"
  by (rule foreign_session_refused [of _ 1]) (simp_all add: connection_new_def)

theorem transfers_are_authorised_witness:
  "\<exists>resp. handle_message (idle_usb [(1, 2)]) (\<lambda>k d. k @ d) None sample_conn sample_dm
     (BulkTransfer (sample_bulk_read 4)) () = (Reply (TransferResult resp), sample_conn, sample_dm, ()) \<and>
     tr_success resp"
proof -
  let ?usb = "idle_usb [(1, 2)]"
  let ?msg = "BulkTransfer (sample_bulk_read 4)"
  obtain act c' dm' w' where h: "handle_message ?usb (\<lambda>k d. k @ d) None sample_conn sample_dm ?msg () =
      (act, c', dm', w')" by (metis prod_cases4)
  have "authorize_transfer ?usb sample_conn sample_dm 1 sample_device () = Ok (1, 2)"
    by (simp add: authorize_transfer_Ok sample_conn_def sample_dm_def get_handle_def find_device_def
        idle_usb_def idle_descriptor_def)
  moreover have ex: "tr_success (fst (execute_bulk_transfer ?usb (1, 2) (sample_bulk_read 4) ()))"
    by (simp add: execute_bulk_transfer_def sample_bulk_read_def idle_usb_def capped_length_def
        MAX_TRANSFER_BUFFER_def)
  ultimately have nf: "\<not> (\<exists>m. act = Reply m \<and> failed m)"
    using h by (auto simp: handle_message_def handle_bulk_transfer_def sample_bulk_read_def sample_conn_def
       split: prod.splits)
  have tr: "transfer_of ?usb ?msg = Some (sample_device, \<lambda>h. execute_bulk_transfer ?usb h (sample_bulk_read 4))"
    "session_of ?msg = Some 1" by (simp_all add: sample_bulk_read_def)
  have "attachments sample_dm sample_device = Some at \<Longrightarrow> handle at = (1, 2)" for at
    by (auto simp: sample_dm_def)
  with transfers_are_authorised [OF tr h] nf ex h show ?thesis by fastforce
qed

text \<open>C28: claiming, releasing and configuring check the session and the device separately: the
  answer and the effect are the same for any two sessions of the connection, whichever device
  they were issued for. In particular a client that holds any device can claim an interface of,
  release an interface of, and reconfigure a device attached by another client.\<close>

theorem device_operations_ignore_holder:
  assumes "sessions c s1 \<noteq> None" "sessions c s2 \<noteq> None"
  shows "handle_claim_interface usb jn c dm (r1\<lparr>ciq_session_id := s1\<rparr>) w =
         handle_claim_interface usb jn c dm (r1\<lparr>ciq_session_id := s2\<rparr>) w \<and>
         handle_release_interface usb jn c dm (r2\<lparr>riq_session_id := s1\<rparr>) w =
         handle_release_interface usb jn c dm (r2\<lparr>riq_session_id := s2\<rparr>) w \<and>
         handle_set_configuration usb jn c dm (r3\<lparr>scq_session_id := s1\<rparr>) w =
         handle_set_configuration usb jn c dm (r3\<lparr>scq_session_id := s2\<rparr>) w"
  using assms
  by (cases jn) (auto simp: handle_claim_interface_def handle_release_interface_def handle_set_configuration_def)

text \<open>C26: a detach checks only that the session is one of this connection, not that it holds the
  device. Naming another client's device with one's own session therefore succeeds: that
  device is freed while its holder's session still counts as valid for it, the connection's
  own session is spent, and the device this session held is left attached with no session at
  all, so that no transfer can use it and no cleanup of any sessions frees it.\<close>

theorem detach_of_foreign_device:
  assumes "dm_inv dm" "conn_ok c dm" and "sessions c sid = Some mine"
    and "session_to_device dm sid2 = Some theirs" and "theirs \<noteq> mine"
    and "shared_key c \<noteq> None \<longrightarrow> authenticated c"
    and "handle_message usb hmac None c dm (Detach \<lparr>dq_device_id = theirs, dq_session_id = sid\<rparr>) w =
      (act, c', dm', w')"
  shows "act = Reply (detach_result theirs None) \<and>
    attachments dm' theirs = None \<and> validate_session dm' sid2 theirs = Ok () \<and>
    sessions c' sid = None \<and>
    attachments dm' mine \<noteq> None \<and> (\<forall>s. validate_session dm' s mine \<noteq> Ok ()) \<and>
    (\<forall>sids v. attachments (fst (detach_all_for_sessions usb dm' sids v)) mine \<noteq> None)"
proof -
  have mine: "session_to_device dm sid = Some mine"
    using assms(2,3) by (auto simp: conn_ok_def map_le_def dom_def)
  then have ne: "sid2 \<noteq> sid" using assms(4,5) by auto
  obtain at where at: "attachments dm theirs = Some at"
    using dm_invD(1) [OF assms(1,4)] by auto
  have dm': "attachments dm' = (attachments dm)(theirs := None)"
    "session_to_device dm' = (session_to_device dm)(sid := None)"
    "sessions c' = (sessions c)(sid := None)" "act = Reply (detach_result theirs None)"
    using assms(3,6,7)
    by (auto simp: handle_message_def handle_detach_def dm_detach_attached [OF at, of usb sid w])
  have orphan: "session_to_device dm' s \<noteq> Some mine" for s
    using dm_invD(3) [OF assms(1) mine] dm'(2) by auto
  have keep: "attachments (fst (detach_all_for_sessions usb d sids v)) mine = attachments d mine"
    if "\<And>s. session_to_device d s \<noteq> Some mine" for d sids v
    using that
  proof (induction sids arbitrary: d v)
    case (Cons s sids)
    show ?case
    proof (cases "session_to_device d s")
      case (Some e)
      with Cons.prems have "e \<noteq> mine" by auto
      with Cons Some show ?thesis
        by (auto simp: dm_detach_def Let_def split: option.splits prod.splits if_splits)
    qed (use Cons in simp)
  qed simp
  show ?thesis
    using dm' assms(4,5) ne orphan keep [OF orphan] dm_invD(1) [OF assms(1) mine] by auto
qed

theorem unauthenticated_is_powerless_witness:
  "fst (snd (snd (run (idle_usb [(1, 2)]) (\<lambda>k d. k @ d) sample_enc (\<lambda>_ w. w) None (\<lambda>_. [])
     [sample_turn ListDevices, sample_turn (Attach \<lparr>aq_device_id = sample_device\<rparr>)]
     (connection_new Plain ''peer'' (Some [1, 2, 3])) dm_empty ()))) = dm_empty"
proof -
  let ?ts = "[sample_turn ListDevices, sample_turn (Attach \<lparr>aq_device_id = sample_device\<rparr>)]"
  obtain out c' dm' w' where r: "run (idle_usb [(1, 2)]) (\<lambda>k d. k @ d) sample_enc (\<lambda>_ w. w) None (\<lambda>_. [])
     ?ts (connection_new Plain ''peer'' (Some [1, 2, 3])) dm_empty () = (out, c', dm', w')"
    by (metis prod_cases4)
  have "\<forall>t \<in> set ?ts. \<forall>msg. t_incoming t = Frame msg \<longrightarrow> \<not> proves (\<lambda>k d. k @ d) [1, 2, 3] msg" by simp
  from unauthenticated_is_powerless [OF this r] show ?thesis unfolding r by simp
qed

theorem handshake_outcome_witness:
  "authenticated (fst (snd (handle_message (idle_usb []) (\<lambda>k d. k @ d) None
     (connection_new Plain ''peer'' (Some [7])) dm_empty
     (Hello \<lparr>hq_protocol_version = PROTOCOL_VERSION, hq_client_name = ''c'', hq_auth_nonce = [1, 2],
        hq_auth_proof = [7, 1, 2] @ as_bytes ''wolfusb-client''\<rparr>) ())))"
proof -
  let ?msg = "Hello \<lparr>hq_protocol_version = PROTOCOL_VERSION, hq_client_name = ''c'', hq_auth_nonce = [1, 2],
        hq_auth_proof = [7, 1, 2] @ as_bytes ''wolfusb-client''\<rparr>"
  obtain act c' dm' w' where h: "handle_message (idle_usb []) (\<lambda>k d. k @ d) None
     (connection_new Plain ''peer'' (Some [7])) dm_empty ?msg () = (act, c', dm', w')"
    by (metis prod_cases4)
  have "proves (\<lambda>k d. k @ d) [7] ?msg" by (simp add: client_tag_def)
  with handshake_outcome [OF h] h show ?thesis by (simp add: connection_new_def client_tag_def)
qed

text \<open>
  Two clients: this connection holds device 1-2 under session 1, another holds 1-3 under
  session 2.
\<close>

abbreviation other_device :: DeviceId where
  "other_device \<equiv> \<lparr>bus_number = 1, address = 3\<rparr>"

definition two_dm :: "(u8 \<times> u8) DeviceManager" where
  "two_dm = fst (snd (dm_attach (idle_usb [(1, 2), (1, 3)]) sample_dm other_device ''other'' ()))"

lemma two_dm_attach:
  "dm_attach (idle_usb [(1, 2), (1, 3)]) sample_dm other_device ''other'' () = (Ok 2, two_dm, ())"
  by (simp add: two_dm_def dm_attach_def sample_dm_def find_device_def idle_usb_def)

lemma sample_dm_inv: "dm_inv sample_dm"
  using dmt.attach_invar [OF dm_inv_empty, of "idle_usb [(1, 2)]" sample_device 1 sample_dm]
    sample_attach sample_counter by (auto simp: dm_attaches_def)

lemma two_dm_inv: "dm_inv two_dm"
  by (rule dm_inv_attach [OF sample_dm_inv two_dm_attach]) (simp add: sample_dm_def)

lemma two_dm_sessions:
  "session_to_device two_dm 1 = Some sample_device" "session_to_device two_dm 2 = Some other_device"
  using dm_attach_Ok(4) [OF two_dm_attach] by (simp_all add: sample_dm_def)

lemma sample_conn_ok: "conn_ok sample_conn two_dm"
  using two_dm_sessions by (simp add: conn_ok_def sample_conn_def map_le_def)

theorem detach_of_foreign_device_witness:
  "attachments (fst (snd (snd (handle_message (idle_usb [(1, 2), (1, 3)]) (\<lambda>k d. k @ d) None sample_conn two_dm
     (Detach \<lparr>dq_device_id = other_device, dq_session_id = 1\<rparr>) ())))) other_device = None"
proof -
  obtain act c' dm' w' where h: "handle_message (idle_usb [(1, 2), (1, 3)]) (\<lambda>k d. k @ d) None sample_conn two_dm
     (Detach \<lparr>dq_device_id = other_device, dq_session_id = 1\<rparr>) () = (act, c', dm', w')"
    by (metis prod_cases4)
  from detach_of_foreign_device [OF two_dm_inv sample_conn_ok _ two_dm_sessions(2) _ _ h]
  show ?thesis unfolding h by (simp add: sample_conn_def)
qed

theorem device_operations_ignore_holder_witness:
  "handle_claim_interface (idle_usb [(1, 2), (1, 3)]) None (sample_conn\<lparr>sessions := [1 \<mapsto> sample_device, 2 \<mapsto> other_device]\<rparr>)
     two_dm \<lparr>ciq_session_id = 1, ciq_device_id = other_device, ciq_interface_number = 0\<rparr> () =
   handle_claim_interface (idle_usb [(1, 2), (1, 3)]) None (sample_conn\<lparr>sessions := [1 \<mapsto> sample_device, 2 \<mapsto> other_device]\<rparr>)
     two_dm \<lparr>ciq_session_id = 2, ciq_device_id = other_device, ciq_interface_number = 0\<rparr> ()"
  using device_operations_ignore_holder [of "sample_conn\<lparr>sessions := [1 \<mapsto> sample_device, 2 \<mapsto> other_device]\<rparr>" 1 2
      "idle_usb [(1, 2), (1, 3)]" None two_dm
      "\<lparr>ciq_session_id = 1, ciq_device_id = other_device, ciq_interface_number = 0\<rparr>" "()"]
  by simp

text \<open>C27: a handoff to the bridge skips the cleanup. When a client that detaches by its own sessions is
  handed off on consistent tables, every device its connection holds then stays attached under the
  connection's session after the connection is gone; and through any later run of the manager it stays
  attached, and no attach of it by anyone succeeds, until a detach of that device.\<close>

theorem bridge_handoff_keeps_attachments:
  assumes "dm_inv dm" "unat (next_session_id dm) + length turns < 2 ^ 64"
    and "honest usb hmac enc turns (connection_new strm addr key) dm w"
    and "run_loop usb hmac enc turns (connection_new strm addr key) dm w = (Some target, out0, c0, dm0, w0)"
    and "run usb hmac enc bridge jn keys turns (connection_new strm addr key) dm w = (out, c', dm', w')"
  shows "dm' = dm0 \<and>
    (\<forall>sid did. sessions c0 sid = Some did \<longrightarrow> validate_session dm' sid did = Ok () \<and>
      (\<forall>v es dm2 w2. dm_run usb (dm', v) es (dm2, w2) \<and> (\<forall>s. EvDetach did s \<notin> set es) \<longrightarrow>
         attachments dm2 did \<noteq> None \<and>
         (\<forall>addr u. dm_attach usb dm2 did addr u = (Err DeviceAlreadyAttached, dm2, u))))"
proof -
  have same: "dm' = dm0" using assms(4,5) by (auto simp: run_def split: ServerStream.splits)
  have "conn_ok (connection_new strm addr key) dm" by (simp add: conn_ok_def connection_new_def)
  with run_loop_honest [OF assms(4,3) _ assms(1,2)] have inv: "conn_ok c0 dm0" "dm_inv dm0" by simp_all
  have "attachments dm2 did \<noteq> None"
    if "session_to_device dm0 sid = Some did" "dm_run usb (dm0, v) es (dm2, w2)" "\<forall>s. EvDetach did s \<notin> set es"
    for sid did v es dm2 w2
    using dm_invD(1) [OF inv(2) that(1)] dm_run_keeps_attached [OF that(2,3)] by auto
  moreover have "session_to_device dm0 sid = Some did" if "sessions c0 sid = Some did" for sid did
    using inv(1) that by (auto simp: conn_ok_def map_le_def dom_def)
  moreover have "dm_attach usb dm2 did addr u = (Err DeviceAlreadyAttached, dm2, u)"
    if "attachments dm2 did \<noteq> None" for dm2 :: "'a DeviceManager" and did addr u
    using that by (simp add: dm_attach_def)
  ultimately show ?thesis unfolding same validate_session_Ok by blast
qed

lemma sample_attach_message:
  "handle_message (idle_usb [(1, 2)]) hmac None (connection_new Plain ''peer'' None) dm_empty
     (Attach \<lparr>aq_device_id = sample_device\<rparr>) () =
   (Reply (AttachResult \<lparr>ar_device_id = sample_device, ar_success = True, ar_error_message = None,
      ar_session_id = Some 1\<rparr>), (connection_new Plain ''peer'' None)\<lparr>sessions := [1 \<mapsto> sample_device]\<rparr>,
    sample_dm, ())"
  by (simp add: handle_message_def handle_attach_def connection_new_def sample_attach)

lemma sample_send: "framed_send (\<lambda>_. Ok [0]) True m"
  by (simp add: framed_send_def encode_def MAX_FRAME_SIZE_def)

lemma sample_handoff:
  "\<exists>out. run_loop (idle_usb [(1, 2)]) hmac (\<lambda>_. Ok [0])
     [sample_turn (Attach \<lparr>aq_device_id = sample_device\<rparr>), sample_turn (Bridge \<lparr>bq_device_id = sample_device\<rparr>)]
     (connection_new Plain ''peer'' None) dm_empty () =
   (Some sample_device, out, (connection_new Plain ''peer'' None)\<lparr>sessions := [1 \<mapsto> sample_device]\<rparr>, sample_dm, ())"
proof -
  obtain reply where "handle_bridge (idle_usb [(1, 2)]) None \<lparr>bq_device_id = sample_device\<rparr> () =
      BridgeTo reply sample_device"
    by (simp add: handle_bridge_def idle_usb_def)
  then have bridge: "handle_message (idle_usb [(1, 2)]) hmac None
      ((connection_new Plain ''peer'' None)\<lparr>sessions := [1 \<mapsto> sample_device]\<rparr>) sample_dm
      (Bridge \<lparr>bq_device_id = sample_device\<rparr>) () = (BridgeTo reply sample_device,
       (connection_new Plain ''peer'' None)\<lparr>sessions := [1 \<mapsto> sample_device]\<rparr>, sample_dm, ())"
    by (simp add: handle_message_def connection_new_def)
  show ?thesis by (simp add: conn_turn_def sample_attach_message bridge sample_send)
qed

theorem bridge_handoff_keeps_attachments_witness:
  "dm_attach (idle_usb [(1, 2)]) (fst (snd (snd (run (idle_usb [(1, 2)]) (\<lambda>k d. k @ d) (\<lambda>_. Ok [0]) (\<lambda>_ w. w)
      None (\<lambda>_. [])
      [sample_turn (Attach \<lparr>aq_device_id = sample_device\<rparr>), sample_turn (Bridge \<lparr>bq_device_id = sample_device\<rparr>)]
      (connection_new Plain ''peer'' None) dm_empty ())))) sample_device ''next'' () =
   (Err DeviceAlreadyAttached, sample_dm, ())"
proof -
  let ?ts = "[sample_turn (Attach \<lparr>aq_device_id = sample_device\<rparr>), sample_turn (Bridge \<lparr>bq_device_id = sample_device\<rparr>)]"
  let ?c0 = "(connection_new Plain ''peer'' None)\<lparr>sessions := [1 \<mapsto> sample_device]\<rparr>"
  obtain out where l: "run_loop (idle_usb [(1, 2)]) (\<lambda>k d. k @ d) (\<lambda>_. Ok [0]) ?ts
      (connection_new Plain ''peer'' None) dm_empty () = (Some sample_device, out, ?c0, sample_dm, ())"
    using sample_handoff by metis
  obtain out' c' dm' w' where r: "run (idle_usb [(1, 2)]) (\<lambda>k d. k @ d) (\<lambda>_. Ok [0]) (\<lambda>_ w. w)
      None (\<lambda>_. []) ?ts (connection_new Plain ''peer'' None) dm_empty () = (out', c', dm', w')"
    by (metis prod_cases4)
  have room: "unat (next_session_id (dm_empty :: (u8 \<times> u8) DeviceManager)) + length ?ts < 2 ^ 64"
    by (simp add: dm_empty_def)
  have honest: "honest (idle_usb [(1, 2)]) (\<lambda>k d. k @ d) (\<lambda>_. Ok [0]) ?ts (connection_new Plain ''peer'' None) dm_empty ()"
    by (simp split: prod.splits)
  note kept = bridge_handoff_keeps_attachments [OF dm_inv_empty room honest l r]
  have "sessions ?c0 1 = Some sample_device" by simp
  with kept have "dm_attach (idle_usb [(1, 2)]) dm' sample_device ''next'' () = (Err DeviceAlreadyAttached, dm', ())"
    using run_Nil [of "idle_usb [(1, 2)]" "(dm', ())"] by (metis empty_iff list.set(1))
  with kept show ?thesis unfolding r by simp
qed

text \<open>
  bincode writes the bytes of a message in full: a variant number, varint fields and lengths,
  and the data as it is. So the encoding of an answer that carries data and no error text is a
  little longer than the data.
\<close>

definition bincode_overhead :: "bincode_enc \<Rightarrow> bool" where
  "bincode_overhead enc \<longleftrightarrow>
     (\<forall>r p. enc (TransferResult r) = Ok p \<and> tr_error_message r = None \<longrightarrow>
        length (tr_data r) < length p \<and> length p < length (tr_data r) + 2 ^ 16)"

lemma encode_full_answer:
  assumes "bincode_overhead enc" "tr_error_message r = None" "length (tr_data r) = 2 ^ 24"
  shows "\<not> framed_send enc b (TransferResult r)"
proof (cases "enc (TransferResult r)")
  case (Inr p)
  with assms have "2 ^ 24 < length p" "length p < 2 ^ 32"
    unfolding bincode_overhead_def by (metis, fastforce)
  with Inr have "MAX_FRAME_SIZE < (of_nat (length p) :: u32)"
    by (simp add: word_less_nat_alt MAX_FRAME_SIZE_def unat_of_nat)
  with Inr show ?thesis by (simp add: framed_send_def encode_def)
qed (simp add: framed_send_def encode_def)

text \<open>C29: the limit on a transfer's buffer equals the limit on a frame, so a read that fills the
  largest buffer the server grants is performed and then cannot be answered: the encoding of
  the answer exceeds the frame limit, nothing is sent, and the loop ends the connection.\<close>

theorem full_read_drops_connection:
  assumes "bincode_overhead enc" and "shared_key c \<noteq> None \<longrightarrow> authenticated c"
    and "authorize_transfer usb c dm (btq_session_id req) (btq_device_id req) w = Ok h"
    and "btq_endpoint req AND 0x80 \<noteq> 0" and "btq_length req = MAX_TRANSFER_BUFFER"
    and "ru_read_bulk usb h (btq_endpoint req) (replicate (2 ^ 24) 0) (safe_timeout (btq_timeout_ms req)) w =
      (Ok (2 ^ 24), buf, w')" and "length buf = 2 ^ 24"
    and "t_incoming t = Frame (BulkTransfer req)" and "t_join t = None"
  shows "conn_turn usb hmac enc t c dm w = (Break None, [], c, dm, w')"
proof -
  obtain len where len: "capped_length (btq_length req) (btq_session_id req) (btq_device_id req) = Ok len"
    "len = 2 ^ 24"
    using assms(5) by (simp add: capped_length_Ok unat_MAX_TRANSFER_BUFFER)
  obtain resp where "execute_bulk_transfer usb h req w = (resp, w')"
    and resp: "tr_data resp = take (2 ^ 24) buf" "tr_error_message resp = None"
    using assms(4,6) len by (simp add: execute_bulk_transfer_def Let_def)
  then have "handle_message usb hmac None c dm (BulkTransfer req) w = (Reply (TransferResult resp), c, dm, w')"
    using assms(2,3) by (auto simp: handle_message_def handle_bulk_transfer_def)
  moreover have "\<not> framed_send enc b (TransferResult resp)" for b
    using encode_full_answer [OF assms(1) resp(2)] resp(1) assms(7) by simp
  ultimately show ?thesis using assms(8,9) by (simp add: conn_turn_def)
qed

definition copying_enc :: bincode_enc where
  "copying_enc m = (case m of TransferResult r \<Rightarrow> Ok (replicate 20 0 @ tr_data r) | _ \<Rightarrow> Err ''unsupported'')"

theorem full_read_drops_connection_witness:
  "conn_turn (idle_usb [(1, 2)]) (\<lambda>k d. k @ d) copying_enc
     (sample_turn (BulkTransfer (sample_bulk_read MAX_TRANSFER_BUFFER))) sample_conn sample_dm () =
   (Break None, [], sample_conn, sample_dm, ())"
proof (rule full_read_drops_connection [where h = "(1, 2)" and buf = "replicate (2 ^ 24) 0"])
  show "bincode_overhead copying_enc" by (auto simp: bincode_overhead_def copying_enc_def)
  show "authorize_transfer (idle_usb [(1, 2)]) sample_conn sample_dm
      (btq_session_id (sample_bulk_read MAX_TRANSFER_BUFFER))
      (btq_device_id (sample_bulk_read MAX_TRANSFER_BUFFER)) () = Ok (1, 2)"
    by (simp add: authorize_transfer_Ok sample_conn_def sample_dm_def get_handle_def find_device_def
        idle_usb_def idle_descriptor_def sample_bulk_read_def)
qed (simp_all add: sample_conn_def sample_bulk_read_def idle_usb_def)

text \<open>A client that attaches and goes away without detaching.\<close>

theorem connection_leaves_no_trace_witness:
  "dom (attachments (fst (snd (snd (run (idle_usb [(1, 2)]) (\<lambda>k d. k @ d) (\<lambda>_. Ok [0]) (\<lambda>_ w. w)
      None (\<lambda>m. sorted_list_of_set (dom m)) [sample_turn (Attach \<lparr>aq_device_id = sample_device\<rparr>)]
      (connection_new Plain ''peer'' None) dm_empty ()))))) = {}"
proof -
  let ?usb = "idle_usb [(1, 2)]" and ?hmac = "\<lambda>k d :: bytes. k @ d" and ?enc = "\<lambda>_. Ok [0] :: (string, bytes) result"
  let ?ts = "[sample_turn (Attach \<lparr>aq_device_id = sample_device\<rparr>)]"
  let ?c = "connection_new Plain ''peer'' None" and ?keys = "\<lambda>m :: u64 \<rightharpoonup> DeviceId. sorted_list_of_set (dom m)"
  have keys: "keys_ok ?keys" by (simp add: keys_ok_def)
  have room: "unat (next_session_id (dm_empty :: (u8 \<times> u8) DeviceManager)) + length ?ts < 2 ^ 64"
    by (simp add: dm_empty_def)
  obtain out0 c0 where l: "run_loop ?usb ?hmac ?enc ?ts ?c dm_empty () = (None, out0, c0, sample_dm, ())"
    by (simp add: conn_turn_def sample_attach_message sample_send)
  have honest: "honest ?usb ?hmac ?enc ?ts ?c dm_empty ()" by (simp split: prod.splits)
  obtain out c' dm' w' where r: "run ?usb ?hmac ?enc (\<lambda>_ w. w) None ?keys ?ts ?c dm_empty () = (out, c', dm', w')"
    by (metis prod_cases4)
  from connection_leaves_no_trace [OF dm_inv_empty room keys honest l r] show ?thesis
    unfolding r by (simp add: dm_empty_def)
qed

end
