(* ===== verification/Simulation.thy ===== *)
theory Simulation
  imports Main
begin

text \<open>
  Runs of a step relation with the labels of their steps, and simulation of one system by another.
\<close>

inductive trace :: "('s \<Rightarrow> 'l \<Rightarrow> 's \<Rightarrow> bool) \<Rightarrow> 's \<Rightarrow> 'l list \<Rightarrow> 's \<Rightarrow> bool" for step s where
  trace_nil [simp, intro]: "trace step s [] s"
| trace_snoc: "trace step s ls t \<Longrightarrow> step t l u \<Longrightarrow> trace step s (ls @ [l]) u"

inductive_cases trace_nilE: "trace step s [] t"
inductive_cases trace_snocE: "trace step s (ls @ [l]) u"

lemma trace_single: "step s l t \<Longrightarrow> trace step s [l] t"
  using trace_snoc [OF trace_nil, of step s l t] by simp

lemma trace_append:
  assumes "trace step s ls t" "trace step t ms u"
  shows "trace step s (ls @ ms) u"
  using assms(2)
proof induction
  case trace_nil
  from assms(1) show ?case by simp
next
  case (trace_snoc ms v l u)
  from trace.trace_snoc [OF trace_snoc.IH trace_snoc.hyps(2)] show ?case by simp
qed

text \<open>
  An abstract system simulates a concrete one when each step of the concrete one is matched by
  some steps of the abstract one, among those its label allows.
\<close>

locale simulation =
  fixes step :: "'s \<Rightarrow> 'l \<Rightarrow> 's \<Rightarrow> bool" and astep :: "'a \<Rightarrow> 'e \<Rightarrow> 'a \<Rightarrow> bool"
    and rel :: "'s \<Rightarrow> 'a \<Rightarrow> bool" and allows :: "'l \<Rightarrow> 'e list \<Rightarrow> bool"
  assumes square: "rel s a \<Longrightarrow> step s l s' \<Longrightarrow> \<exists>es a'. allows l es \<and> trace astep a es a' \<and> rel s' a'"
begin

lemma simulates:
  assumes "trace step s ls t" "rel s a"
  shows "\<exists>ess b. list_all2 allows ls ess \<and> trace astep a (concat ess) b \<and> rel t b"
  using assms(1)
proof induction
  case trace_nil
  have "list_all2 allows [] [] \<and> trace astep a (concat []) a \<and> rel s a" using assms(2) by simp
  then show ?case by blast
next
  case (trace_snoc ls t l u)
  then obtain ess b where ih: "list_all2 allows ls ess" "trace astep a (concat ess) b" "rel t b" by blast
  from square [OF ih(3) trace_snoc.hyps(2)] obtain es b' where
    "allows l es" "trace astep b es b'" "rel u b'" by blast
  with ih trace_append [OF ih(2)] have "list_all2 allows (ls @ [l]) (ess @ [es]) \<and>
      trace astep a (concat (ess @ [es])) b' \<and> rel u b'" by (simp add: list_all2_appendI)
  then show ?case by blast
qed

end

end
