(* ===== verification/Server.thy ===== *)
theory Server
  imports Connection Simulation
begin

text \<open>
  \<open>src/src/server/listener.rs\<close>: the server, one device manager behind a lock and one task per
  accepted connection. The listening socket is a parameter: what \<open>accept\<close> and the TLS
  handshake give. The tasks interleave where they give the manager's lock back: a turn of a
  connection's loop takes the lock once and touches only the connection besides, a transfer is
  authorised under the lock and then runs without it, and the cleanup takes the lock again.
\<close>

section \<open>Accepting\<close>

text \<open>
  The task spawned for an accepted stream: with an acceptor, the result of the TLS handshake
  decides whether there is a connection.
\<close>

definition spawn_connection ::
  "(string, unit) result option \<Rightarrow> SocketAddr \<Rightarrow> bytes option \<Rightarrow> Connection option" where
  "spawn_connection tls addr key =
     (case tls of
        Some (Inr _) \<Rightarrow> Some (connection_new Tls addr key)
      | Some (Inl e) \<Rightarrow> None
      | None \<Rightarrow> Some (connection_new Plain addr key))"

text \<open>
  \<open>run_server\<close> up to the loop, and the loop over what \<open>accept\<close> gives: an error of \<open>accept\<close> ends
  the server. \<open>handshake\<close> is the TLS acceptor's answer for a peer when there is an acceptor.
\<close>

definition server_start ::
  "('w, 'd, 'h) rusb \<Rightarrow> (string \<Rightarrow> (string, unit) result) \<Rightarrow> string \<Rightarrow> u16 \<Rightarrow> 'w \<Rightarrow>
     (WolfUsbError, 'h DeviceManager) result" where
  "server_start usb listen bind_addr port w =
     (case dm_new usb w of
        Inl e \<Rightarrow> Err e
      | Inr dm \<Rightarrow>
          (case listen (bind_addr @ '':'' @ show_word port) of
             Inl e \<Rightarrow> Err (ConnectionFailed e)
           | Inr _ \<Rightarrow> Ok dm))"

fun accept_loop ::
  "(SocketAddr \<Rightarrow> (string, unit) result) option \<Rightarrow> bytes option \<Rightarrow>
     (string, SocketAddr) result list \<Rightarrow> Connection list \<times> WolfUsbError option" where
  "accept_loop handshake key [] = ([], None)"
| "accept_loop handshake key (Inl e # rest) = ([], Some (ConnectionFailed e))"
| "accept_loop handshake key (Inr peer # rest) =
     (case accept_loop handshake key rest of
        (cs, e) \<Rightarrow>
          (case spawn_connection (map_option (\<lambda>h. h peer) handshake) peer key of
             Some c \<Rightarrow> (c # cs, e)
           | None \<Rightarrow> (cs, e)))"

section \<open>The system of connections\<close>

text \<open>
  What a connection's task is doing between two steps: waiting for a frame, running a transfer it
  was given the handle for, or past its loop and about to clean up.
\<close>

datatype 'h phase = Ready | Transferring turn 'h | Closing

record ('w, 'h) server =
  conns :: "nat \<rightharpoonup> Connection"
  phases :: "nat \<Rightarrow> 'h phase"
  manager :: "'h DeviceManager"
  usb_state :: 'w

fun phase_after :: "flow \<Rightarrow> 'h phase" where
  "phase_after Continue = Ready"
| "phase_after (Break _) = Closing"

datatype label = Accept nat | Turn nat turn | Begin nat turn | End nat | Close nat | Handoff nat turn | Environment

inductive sys_step ::
  "('w, 'd, 'h) rusb \<Rightarrow> (bytes \<Rightarrow> bytes \<Rightarrow> bytes) \<Rightarrow> bincode_enc \<Rightarrow>
     ((u64 \<rightharpoonup> DeviceId) \<Rightarrow> u64 list) \<Rightarrow> bytes option \<Rightarrow>
     ('w, 'h) server \<Rightarrow> label \<Rightarrow> ('w, 'h) server \<Rightarrow> bool"
  for usb hmac enc keys key where
  sys_accept: "conns s cid = None \<Longrightarrow> spawn_connection tls addr key = Some c \<Longrightarrow>
     sys_step usb hmac enc keys key s (Accept cid)
       (s\<lparr>conns := (conns s)(cid \<mapsto> c), phases := (phases s)(cid := Ready)\<rparr>)"
| sys_turn: "conns s cid = Some c \<Longrightarrow> phases s cid = Ready \<Longrightarrow>
     begin_transfer usb t c (manager s) (usb_state s) = None \<Longrightarrow>
     conn_turn usb hmac enc t c (manager s) (usb_state s) = (fl, out, c', dm', w') \<Longrightarrow>
     (\<And>target. fl \<noteq> Break (Some target)) \<Longrightarrow>
     sys_step usb hmac enc keys key s (Turn cid t)
       (s\<lparr>conns := (conns s)(cid \<mapsto> c'), phases := (phases s)(cid := phase_after fl),
          manager := dm', usb_state := w'\<rparr>)"
| sys_begin: "conns s cid = Some c \<Longrightarrow> phases s cid = Ready \<Longrightarrow>
     begin_transfer usb t c (manager s) (usb_state s) = Some h \<Longrightarrow>
     sys_step usb hmac enc keys key s (Begin cid t) (s\<lparr>phases := (phases s)(cid := Transferring t h)\<rparr>)"
| sys_end: "phases s cid = Transferring t h \<Longrightarrow>
     end_transfer usb enc t h (usb_state s) = (fl, out, w') \<Longrightarrow>
     sys_step usb hmac enc keys key s (End cid)
       (s\<lparr>phases := (phases s)(cid := phase_after fl), usb_state := w'\<rparr>)"
| sys_close: "conns s cid = Some c \<Longrightarrow> phases s cid = Closing \<Longrightarrow>
     cleanup usb None (keys (sessions c)) c (manager s) (usb_state s) = (c', dm', w') \<Longrightarrow>
     sys_step usb hmac enc keys key s (Close cid)
       (s\<lparr>conns := (conns s)(cid := None), manager := dm', usb_state := w'\<rparr>)"
| sys_handoff: "conns s cid = Some c \<Longrightarrow> phases s cid = Ready \<Longrightarrow>
     conn_turn usb hmac enc t c (manager s) (usb_state s) = (Break (Some target), out, c', dm', w') \<Longrightarrow>
     sys_step usb hmac enc keys key s (Handoff cid t)
       (s\<lparr>conns := (conns s)(cid := None), manager := dm', usb_state := w'\<rparr>)"
| sys_environment: "sys_step usb hmac enc keys key s Environment (s\<lparr>usb_state := w'\<rparr>)"

text \<open>A run, with its labels; \<open>allowed\<close> may restrict what is done in which state.\<close>

definition sys_run ::
  "('w, 'd, 'h) rusb \<Rightarrow> (bytes \<Rightarrow> bytes \<Rightarrow> bytes) \<Rightarrow> bincode_enc \<Rightarrow>
     ((u64 \<rightharpoonup> DeviceId) \<Rightarrow> u64 list) \<Rightarrow> bytes option \<Rightarrow> (('w, 'h) server \<Rightarrow> label \<Rightarrow> bool) \<Rightarrow>
     ('w, 'h) server \<Rightarrow> label list \<Rightarrow> ('w, 'h) server \<Rightarrow> bool" where
  "sys_run usb hmac enc keys key allowed =
     trace (\<lambda>s l s'. allowed s l \<and> sys_step usb hmac enc keys key s l s')"

lemma sys_run_induct [consumes 1, case_names start step]:
  assumes "sys_run usb hmac enc keys key allowed s ls t" "P [] s"
    and "\<And>ls t l u. sys_run usb hmac enc keys key allowed s ls t \<Longrightarrow> P ls t \<Longrightarrow> allowed t l \<Longrightarrow>
      sys_step usb hmac enc keys key t l u \<Longrightarrow> P (ls @ [l]) u"
  shows "P ls t"
  using assms(1) unfolding sys_run_def
  by (induction rule: trace.induct) (use assms(2,3) in \<open>auto simp: sys_run_def\<close>)

definition server_init :: "'w \<Rightarrow> ('w, 'h) server" where
  "server_init w = \<lparr>conns = Map.empty, phases = (\<lambda>_. Ready), manager = dm_empty, usb_state = w\<rparr>"

section \<open>Sessions are private\<close>

definition private_sessions :: "('w, 'h) server \<Rightarrow> bool" where
  "private_sessions s \<longleftrightarrow>
     (\<forall>cid c. conns s cid = Some c \<longrightarrow> conn_ok c (manager s)) \<and>
     (\<forall>cid cid' c c'. conns s cid = Some c \<and> conns s cid' = Some c' \<and> cid \<noteq> cid' \<longrightarrow>
        dom (sessions c) \<inter> dom (sessions c') = {}) \<and>
     (\<forall>x. session_to_device (manager s) x \<noteq> None \<longrightarrow> x < next_session_id (manager s))"

lemma private_sessionsD:
  assumes "private_sessions s"
  shows "conns s cid = Some c \<Longrightarrow> conn_ok c (manager s)"
    and "conns s cid = Some c \<Longrightarrow> conns s cid' = Some c' \<Longrightarrow> cid \<noteq> cid' \<Longrightarrow>
      sessions c x = None \<or> sessions c' x = None"
    and "session_to_device (manager s) x = Some d \<Longrightarrow> x < next_session_id (manager s)"
  using assms unfolding private_sessions_def by (blast, blast, blast)

text \<open>
  What a turn of one connection does to the table of sessions: nothing that is not its own, but
  for the one session it may be handed out.
\<close>

definition own_change :: "Connection \<Rightarrow> 'h DeviceManager \<Rightarrow> Connection \<Rightarrow> 'h DeviceManager \<Rightarrow> bool" where
  "own_change c dm c' dm' \<longleftrightarrow>
     next_session_id dm' = next_session_id dm \<and> dom (sessions c') \<subseteq> dom (sessions c) \<and>
       session_to_device dm' \<subseteq>\<^sub>m session_to_device dm \<and>
       (\<forall>x. sessions c x = None \<longrightarrow> session_to_device dm' x = session_to_device dm x) \<or>
     next_session_id dm' = next_session_id dm + 1 \<and>
       dom (sessions c') = insert (next_session_id dm) (dom (sessions c)) \<and>
       (\<exists>d. session_to_device dm' = (session_to_device dm)(next_session_id dm \<mapsto> d))"

lemma own_change_refl [simp]: "own_change c dm c dm"
  by (simp add: own_change_def)

lemma own_change_effect:
  assumes "msg_effect usb c dm w msg c' dm'"
  shows "own_change c dm c' dm'"
  using assms
proof cases
  case eff_same
  then show ?thesis by (simp add: own_change_def same_tables_def)
next
  case (eff_attach req addr sid w')
  with dm_attach_Ok(2,3,4) [OF eff_attach(1)] show ?thesis by (auto simp: own_change_def)
next
  case (eff_detach req res w')
  then show ?thesis
    by (cases "attachments dm (dq_device_id req)")
      (auto simp: own_change_def dm_detach_def Let_def map_le_def split: if_splits)
qed

lemma own_change_turn:
  "conn_turn usb hmac enc t c dm w = (fl, out, c', dm', w') \<Longrightarrow> own_change c dm c' dm'"
  using conn_turn_effect handle_message_effect own_change_effect
  by (metis (no_types, lifting) own_change_refl prod.inject)

lemma detach_all_frame:
  "detach_all_for_sessions usb dm sids w = (dm', w') \<Longrightarrow>
     next_session_id dm' = next_session_id dm \<and> session_to_device dm' \<subseteq>\<^sub>m session_to_device dm \<and>
     (\<forall>x. x \<notin> set sids \<longrightarrow> session_to_device dm' x = session_to_device dm x)"
proof (induction sids arbitrary: dm w)
  case (Cons sid sids)
  show ?case
  proof (cases "session_to_device dm sid")
    case (Some did)
    obtain r dm1 w1 where d: "dm_detach usb dm did sid w = (r, dm1, w1)" by (metis prod_cases3)
    then have "next_session_id dm1 = next_session_id dm" "session_to_device dm1 \<subseteq>\<^sub>m session_to_device dm"
      "\<forall>x. x \<noteq> sid \<longrightarrow> session_to_device dm1 x = session_to_device dm x"
      by (auto simp: dm_detach_def Let_def map_le_def split: option.splits if_splits)
    with Cons d Some show ?thesis by (fastforce intro: map_le_trans)
  qed (use Cons in auto)
qed simp

lemma cleanup_frame:
  assumes "cleanup usb jn (keys (sessions c)) c dm w = (c', dm', w')" "keys_ok keys" "conn_ok c dm"
  shows "next_session_id dm' = next_session_id dm" "session_to_device dm' \<subseteq>\<^sub>m session_to_device dm"
    "sessions c x = None \<Longrightarrow> session_to_device dm' x = session_to_device dm x"
proof -
  have ks: "set (keys (sessions c)) = dom (sessions c)"
    using assms(2,3) by (simp add: keys_ok_def conn_ok_def)
  obtain dm1 w1 where d: "detach_all_for_sessions usb dm (keys (sessions c)) w = (dm1, w1)"
    by (metis surj_pair)
  have "dm' = dm \<or> dm' = dm1"
    using assms(1) by (auto simp: cleanup_def d split: if_splits option.splits)
  with detach_all_frame [OF d] show "next_session_id dm' = next_session_id dm"
    "session_to_device dm' \<subseteq>\<^sub>m session_to_device dm"
    "sessions c x = None \<Longrightarrow> session_to_device dm' x = session_to_device dm x"
    by (auto simp: ks)
qed

lemma private_sessionsI:
  assumes "\<And>cid c. conns s cid = Some c \<Longrightarrow> conn_ok c (manager s)"
    and "\<And>cid cid' c c' x. conns s cid = Some c \<Longrightarrow> conns s cid' = Some c' \<Longrightarrow> cid \<noteq> cid' \<Longrightarrow>
      sessions c x = None \<or> sessions c' x = None"
    and "\<And>x d. session_to_device (manager s) x = Some d \<Longrightarrow> x < next_session_id (manager s)"
  shows "private_sessions s"
  unfolding private_sessions_def
proof (intro conjI allI impI)
  show "conn_ok c (manager s)" if "conns s cid = Some c" for cid c by (rule assms(1) [OF that])
  show "dom (sessions c) \<inter> dom (sessions c') = {}"
    if "conns s cid = Some c \<and> conns s cid' = Some c' \<and> cid \<noteq> cid'" for cid cid' c c'
    using assms(2) that by (auto simp: dom_def) (metis option.distinct(1))
  show "x < next_session_id (manager s)" if "session_to_device (manager s) x \<noteq> None" for x
    using that assms(3) by auto
qed

text \<open>Removing a connection, and putting one in place of what it was before its turn.\<close>

lemma conn_ok_other:
  assumes "conn_ok c dm" "\<forall>x. sessions c x \<noteq> None \<longrightarrow> session_to_device dm' x = session_to_device dm x"
  shows "conn_ok c dm'"
  using assms unfolding conn_ok_def map_le_def by (metis domIff)

lemma private_put:
  assumes "private_sessions s" "conns s cid = Some c" "own_change c (manager s) c' dm'" "conn_ok c' dm'"
    and "next_session_id (manager s) + 1 \<noteq> 0"
  shows "private_sessions (s\<lparr>conns := (conns s)(cid \<mapsto> c'), phases := ph, manager := dm', usb_state := w'\<rparr>)"
proof -
  note inv = private_sessionsD [OF assms(1)]
  let ?n = "next_session_id (manager s)"
  have fresh: "session_to_device (manager s) ?n = None"
    using inv(3) [of ?n] by (cases "session_to_device (manager s) ?n") auto
  have other: "sessions e x = None \<or> (x \<noteq> ?n \<and> sessions c x = None \<and> sessions c' x = None)"
    if "conns s cid' = Some e" "cid' \<noteq> cid" for cid' e x
  proof (cases "sessions e x")
    case (Some d)
    then have "sessions c x = None" using inv(2) [OF that(1) assms(2) that(2), of x] by simp
    moreover have "session_to_device (manager s) x = Some d"
      using inv(1) [OF that(1)] Some by (auto simp: conn_ok_def map_le_def dom_def)
    then have "x \<noteq> ?n" using fresh by auto
    ultimately show ?thesis using assms(3) by (auto simp: own_change_def)
  qed simp
  have keep: "conn_ok e dm'" if e: "conns s cid' = Some e" "cid' \<noteq> cid" for cid' e
  proof (rule conn_ok_other [OF inv(1) [OF e(1)]], intro allI impI)
    fix x
    assume "sessions e x \<noteq> None"
    with other [OF e, of x] assms(3) show "session_to_device dm' x = session_to_device (manager s) x"
      by (auto simp: own_change_def)
  qed
  have bound: "x < next_session_id dm'" if "session_to_device dm' x = Some d" for x d
    using assms(3) that inv(3) [of x] unfolding own_change_def
    by (auto simp: word_less_Suc [OF assms(5)] map_le_def dom_def split: if_splits)
  show ?thesis
  proof (rule private_sessionsI)
    fix cid1 cid2 e f x
    assume "conns (s\<lparr>conns := (conns s)(cid \<mapsto> c'), phases := ph, manager := dm', usb_state := w'\<rparr>) cid1 = Some e"
      "conns (s\<lparr>conns := (conns s)(cid \<mapsto> c'), phases := ph, manager := dm', usb_state := w'\<rparr>) cid2 = Some f"
      "cid1 \<noteq> cid2"
    then show "sessions e x = None \<or> sessions f x = None"
      using other [of cid1 e x] other [of cid2 f x] inv(2) [of cid1 e cid2 f x] by (auto split: if_splits)
  qed (use keep assms(4) bound in \<open>auto split: if_splits\<close>)
qed

lemma private_drop:
  assumes "private_sessions s" "conns s cid = Some c"
    and "next_session_id dm' = next_session_id (manager s)"
    and "session_to_device dm' \<subseteq>\<^sub>m session_to_device (manager s)"
    and "\<And>x. sessions c x = None \<Longrightarrow> session_to_device dm' x = session_to_device (manager s) x"
  shows "private_sessions (s\<lparr>conns := (conns s)(cid := None), manager := dm', usb_state := w'\<rparr>)"
proof -
  note inv = private_sessionsD [OF assms(1)]
  have "conn_ok e dm'" if "conns s cid' = Some e" "cid' \<noteq> cid" for cid' e
  proof (rule conn_ok_other [OF inv(1) [OF that(1)]])
    have "\<forall>x. sessions e x = None \<or> sessions c x = None"
      using inv(2) [OF that(1) assms(2) that(2)] by simp
    then show "\<forall>x. sessions e x \<noteq> None \<longrightarrow> session_to_device dm' x = session_to_device (manager s) x"
      using assms(5) by metis
  qed
  moreover have "x < next_session_id dm'" if "session_to_device dm' x = Some d" for x d
    using that assms(3,4) inv(3) [of x d] by (auto simp: map_le_def dom_def)
  moreover have "sessions e x = None \<or> sessions f x = None"
    if "conns s cid1 = Some e" "conns s cid2 = Some f" "cid1 \<noteq> cid2" for cid1 cid2 e f x
    using inv(2) [OF that] .
  ultimately show ?thesis
    by (intro private_sessionsI) (auto split: if_splits)
qed

lemma private_accept:
  assumes "private_sessions s" "conns s cid = None" "spawn_connection tls addr key = Some c"
  shows "private_sessions (s\<lparr>conns := (conns s)(cid \<mapsto> c), phases := ph\<rparr>)"
proof -
  have c: "sessions c = Map.empty" "conn_ok c (manager s)"
    using assms(3) by (auto simp: spawn_connection_def connection_new_def conn_ok_def
        split: option.splits sum.splits)
  note inv = private_sessionsD [OF assms(1)]
  show ?thesis
  proof (rule private_sessionsI)
    fix cid1 cid2 e f x
    assume "conns (s\<lparr>conns := (conns s)(cid \<mapsto> c), phases := ph\<rparr>) cid1 = Some e"
      "conns (s\<lparr>conns := (conns s)(cid \<mapsto> c), phases := ph\<rparr>) cid2 = Some f" "cid1 \<noteq> cid2"
    then show "sessions e x = None \<or> sessions f x = None"
      using c(1) inv(2) [of cid1 e cid2 f x] by (auto split: if_splits)
  qed (use c(2) inv(1,3) in \<open>auto split: if_splits\<close>)
qed

text \<open>A turn that hands off leaves connection and manager alone.\<close>

lemma conn_turn_handoff:
  assumes "conn_turn usb hmac enc t c dm w = (Break (Some target), out, c', dm', w')"
  shows "(c', dm', w') = (c, dm, w)"
proof (cases "t_incoming t")
  case (Frame msg)
  obtain act c1 dm1 w1 where h: "handle_message usb hmac (t_join t) c dm msg w = (act, c1, dm1, w1)"
    by (metis prod_cases4)
  with assms Frame obtain reply tgt where act: "act = BridgeTo reply tgt" "(c', dm', w') = (c1, dm1, w1)"
    by (cases act) (auto simp: conn_turn_def split: if_splits)
  with h have "(c1, dm1, w1) = (c, dm, w)"
    by (cases msg) (auto simp: handle_message_def split: if_splits prod.splits)
  with act show ?thesis by simp
qed (use assms in \<open>auto simp: conn_turn_def\<close>)

lemma conn_turn_ok:
  assumes "conn_turn usb hmac enc t c dm w = (fl, out, c', dm', w')" "conn_ok c dm"
  shows "conn_ok c' dm'"
  using conn_turn_effect [OF assms(1)] assms(2) by (auto dest: handle_message_effect conn_ok_effect)

lemma own_change_counter:
  "own_change c dm c' dm' \<Longrightarrow>
     next_session_id dm' = next_session_id dm \<or> next_session_id dm' = next_session_id dm + 1"
  by (auto simp: own_change_def)

lemma private_step:
  assumes "sys_step usb hmac enc keys key s l s'" "private_sessions s" "keys_ok keys"
    and "next_session_id (manager s) + 1 \<noteq> 0"
  shows "private_sessions s'"
  using assms(1)
proof cases
  case (sys_accept cid tls addr c)
  with assms(2) show ?thesis by (simp add: private_accept)
next
  case (sys_turn cid c t fl out c' dm' w')
  note ok = private_sessionsD(1) [OF assms(2) sys_turn(3)]
  from private_put [OF assms(2) sys_turn(3) own_change_turn [OF sys_turn(6)] conn_turn_ok [OF sys_turn(6) ok] assms(4)]
  show ?thesis by (simp add: sys_turn(2))
next
  case (sys_close cid c c' dm' w')
  note cf = cleanup_frame [OF sys_close(5) assms(3) private_sessionsD(1) [OF assms(2) sys_close(3)]]
  from private_drop [OF assms(2) sys_close(3) cf] show ?thesis by (simp add: sys_close(2))
next
  case (sys_handoff cid c t target out c' dm' w')
  from private_drop [OF assms(2) sys_handoff(3), of "manager s" "usb_state s"] conn_turn_handoff [OF sys_handoff(5)]
  show ?thesis by (simp add: sys_handoff(2))
qed (use assms(2) in \<open>simp_all add: private_sessions_def\<close>)

lemma sys_step_counter:
  assumes "sys_step usb hmac enc keys key s l s'" "private_sessions s" "keys_ok keys"
  shows "next_session_id (manager s') = next_session_id (manager s) \<or>
         next_session_id (manager s') = next_session_id (manager s) + 1"
  using assms(1)
proof cases
  case (sys_turn cid c t fl out c' dm' w')
  from own_change_counter [OF own_change_turn [OF sys_turn(6)]] show ?thesis by (simp add: sys_turn(2))
next
  case (sys_close cid c c' dm' w')
  from cleanup_frame(1) [OF sys_close(5) assms(3) private_sessionsD(1) [OF assms(2) sys_close(3)]]
  show ?thesis by (simp add: sys_close(2))
next
  case (sys_handoff cid c t target out c' dm' w')
  from conn_turn_handoff [OF sys_handoff(5)] show ?thesis by (simp add: sys_handoff(2))
qed auto

text \<open>The invariant over a whole run, as long as the counter of sessions does not wrap.\<close>

lemma counter_next:
  fixes x :: u64
  assumes "unat x \<le> k" "k + 1 < 2 ^ 64"
  shows "x + 1 \<noteq> 0" "unat (x + 1) \<le> k + 1"
proof -
  have eq: "unat (x + 1) = unat x + 1" using assms by (simp add: unat_word_ariths)
  then show "x + 1 \<noteq> 0" by auto
  from eq assms(1) show "unat (x + 1) \<le> k + 1" by simp
qed

lemma sys_run_private:
  assumes "sys_run usb hmac enc keys key allowed s ls t" "private_sessions s" "keys_ok keys"
    and "unat (next_session_id (manager s)) + length ls < 2 ^ 64"
  shows "private_sessions t \<and> unat (next_session_id (manager t)) \<le> unat (next_session_id (manager s)) + length ls"
  using assms(1,4)
proof (induction rule: sys_run_induct)
  case start
  with assms(2) show ?case by simp
next
  case (step ls t l u)
  then have t: "private_sessions t"
    "unat (next_session_id (manager t)) \<le> unat (next_session_id (manager s)) + length ls"
    and k: "unat (next_session_id (manager s)) + length ls + 1 < 2 ^ 64" by simp_all
  note c = counter_next [OF t(2) k]
  from private_step [OF step.hyps(3) t(1) assms(3) c(1)] sys_step_counter [OF step.hyps(3) t(1) assms(3)] c(2) t(2)
  show ?case by auto
qed

lemma private_init: "private_sessions (server_init w)"
  by (rule private_sessionsI) (auto simp: server_init_def dm_empty_def)

text \<open>C11: sessions stay private: in every state the server reaches, whatever its clients send and
  however their turns, ends, handoffs and new connections interleave, no session belongs to two
  connections, and the session of a connection is one the manager has for the same device. It
  takes the 64-bit counter of sessions to wrap to break it.\<close>

theorem sessions_are_private:
  assumes "sys_run usb hmac enc keys key (\<lambda>_ _. True) (server_init w) ls s"
    and "keys_ok keys" and "length ls < 2 ^ 64 - 1"
    and "conns s cid = Some c" "sessions c sid = Some did"
  shows "validate_session (manager s) sid did = Ok () \<and>
    (\<forall>cid' c'. conns s cid' = Some c' \<and> cid' \<noteq> cid \<longrightarrow> sessions c' sid = None)"
proof -
  have "unat (next_session_id (manager (server_init w :: ('a, 'c) server))) + length ls < 2 ^ 64"
    using assms(3) by (simp add: server_init_def dm_empty_def)
  with sys_run_private [OF assms(1) private_init assms(2)] have p: "private_sessions s" by simp
  have "conn_ok c (manager s)" by (rule private_sessionsD(1) [OF p assms(4)])
  then have "session_to_device (manager s) sid = Some did"
    using assms(5) by (auto simp: conn_ok_def map_le_def dom_def)
  moreover have "sessions c' sid = None" if "conns s cid' = Some c'" "cid' \<noteq> cid" for cid' c'
    using private_sessionsD(2) [OF p that(1) assms(4) that(2), of sid] assms(5) by simp
  ultimately show ?thesis by auto
qed

section \<open>Every attached device has a live owner\<close>

text \<open>
  Clients that detach a device with the session they were given for it, and ask for a bridge on
  a connection that holds no device (as the client's \<open>mount\<close> does).
\<close>

fun well_behaved :: "('w, 'h) server \<Rightarrow> label \<Rightarrow> bool" where
  "well_behaved s (Turn cid t) =
     (case (conns s cid, t_incoming t) of (Some c, Frame msg) \<Rightarrow> honest_msg c msg | _ \<Rightarrow> True)"
| "well_behaved s (Handoff cid t) =
     (case conns s cid of Some c \<Rightarrow> sessions c = Map.empty | None \<Rightarrow> True)"
| "well_behaved s _ = True"

definition owned :: "('w, 'h) server \<Rightarrow> bool" where
  "owned s \<longleftrightarrow> dm_inv (manager s) \<and>
     (\<forall>x d. session_to_device (manager s) x = Some d \<longrightarrow>
        (\<exists>cid c. conns s cid = Some c \<and> sessions c x = Some d))"

lemma turn_owned:
  assumes "private_sessions s" "owned s" "conns s cid = Some c"
    and "conn_turn usb hmac enc t c (manager s) (usb_state s) = (fl, out, c', dm', w')"
    and "case t_incoming t of Frame msg \<Rightarrow> honest_msg c msg | _ \<Rightarrow> True"
    and "unat (next_session_id (manager s)) + 1 < 2 ^ 64"
  shows "dm_inv dm'" "conn_ok c' dm'"
    and "others c' dm' x = Some d \<Longrightarrow> \<exists>cid' e. cid' \<noteq> cid \<and> conns s cid' = Some e \<and> sessions e x = Some d"
proof -
  have room: "unat (next_session_id (manager s)) + Suc 0 < 2 ^ 64" using assms(6) by simp
  note h = conn_turn_honest [OF assms(4,5) private_sessionsD(1) [OF assms(1,3)] _ room]
  show "dm_inv dm'" "conn_ok c' dm'" using h assms(2) by (simp_all add: owned_def)
  assume "others c' dm' x = Some d"
  then have "others c (manager s) x = Some d" using h assms(2) by (simp add: owned_def)
  then have "session_to_device (manager s) x = Some d" "sessions c x = None"
    by (auto simp: others_def restrict_map_def split: if_splits)
  with assms(2,3) show "\<exists>cid' e. cid' \<noteq> cid \<and> conns s cid' = Some e \<and> sessions e x = Some d"
    unfolding owned_def by (metis option.distinct(1) option.inject)
qed

lemma owned_drop:
  assumes "owned s" "conns s cid = Some c" "dm_inv dm'"
    and "\<And>x d. session_to_device dm' x = Some d \<Longrightarrow> session_to_device (manager s) x = Some d \<and> sessions c x = None"
  shows "owned (s\<lparr>conns := (conns s)(cid := None), manager := dm', usb_state := w'\<rparr>)"
proof -
  have "\<exists>cid' e. cid' \<noteq> cid \<and> conns s cid' = Some e \<and> sessions e x = Some d"
    if "session_to_device dm' x = Some d" for x d
    using assms(1,2) assms(4) [OF that] unfolding owned_def by (metis option.distinct(1) option.inject)
  with assms(3) show ?thesis by (fastforce simp: owned_def)
qed

lemma owned_step:
  assumes "sys_step usb hmac enc keys key s l s'" "private_sessions s" "owned s" "keys_ok keys"
    and "well_behaved s l" "unat (next_session_id (manager s)) + 1 < 2 ^ 64"
  shows "owned s'"
  using assms(1)
proof cases
  case (sys_accept cid tls addr c)
  with assms(3) show ?thesis unfolding owned_def by (auto, metis option.distinct(1))
next
  case (sys_turn cid c t fl out c' dm' w')
  have "case t_incoming t of Frame msg \<Rightarrow> honest_msg c msg | _ \<Rightarrow> True"
    using assms(5) sys_turn by (auto split: incoming.splits)
  note o = turn_owned [OF assms(2,3) sys_turn(3,6) this assms(6)]
  have "\<exists>cid' e. conns s' cid' = Some e \<and> sessions e x = Some d" if "session_to_device dm' x = Some d" for x d
  proof (cases "sessions c' x")
    case None
    with that have "others c' dm' x = Some d" by (auto simp: others_def restrict_map_def)
    from o(3) [OF this] show ?thesis by (auto simp: sys_turn(2))
  next
    case (Some d')
    with o(2) that have "d' = d" by (auto simp: conn_ok_def map_le_def dom_def)
    with Some show ?thesis by (intro exI [of _ cid] exI [of _ c']) (simp add: sys_turn(2))
  qed
  with o(1) show ?thesis by (simp add: owned_def sys_turn(2))
next
  case (sys_close cid c c' dm' w')
  have "dm_inv (manager s)" using assms(3) by (simp add: owned_def)
  note cl = cleanup_honest [OF sys_close(5) private_sessionsD(1) [OF assms(2) sys_close(3)] this assms(4)]
  show ?thesis unfolding sys_close(2)
    by (rule owned_drop [OF assms(3) sys_close(3) cl(2)])
      (auto simp: cl(3) others_def restrict_map_def split: if_splits)
next
  case (sys_handoff cid c t target out c' dm' w')
  have "sessions c = Map.empty" "dm_inv (manager s)" using assms(3,5) sys_handoff by (simp_all add: owned_def)
  with conn_turn_handoff [OF sys_handoff(5)] show ?thesis unfolding sys_handoff(2)
    by (intro owned_drop [OF assms(3) sys_handoff(3)]) simp_all
qed (use assms(3) in \<open>simp_all add: owned_def\<close>)

lemma sys_run_owned:
  assumes "sys_run usb hmac enc keys key well_behaved s ls t" "private_sessions s" "owned s" "keys_ok keys"
    and "unat (next_session_id (manager s)) + length ls < 2 ^ 64"
  shows "owned t"
  using assms(1,5)
proof (induction rule: sys_run_induct)
  case start
  with assms(3) show ?case by simp
next
  case (step ls t l u)
  have "unat (next_session_id (manager s)) + length ls < 2 ^ 64" using step.prems by simp
  note p = sys_run_private [OF step.hyps(1) assms(2,4) this]
  then have "unat (next_session_id (manager t)) + 1 < 2 ^ 64" using step.prems by simp
  with owned_step [OF step.hyps(3) _ _ assms(4) step.hyps(2)] p step.IH step.prems show ?case by simp
qed

text \<open>C2: exclusive ownership: as long as clients detach devices with the sessions they got for
  them and bridge on connections that hold no device, then in every reachable state, whatever the
  interleaving, a device is attached exactly when one live connection, and only one, has a
  session for it. So no device stays attached after its client is gone, and no device has two
  clients.\<close>

theorem attached_iff_one_live_owner:
  assumes "sys_run usb hmac enc keys key well_behaved (server_init w) ls s"
    and "keys_ok keys" and "length ls < 2 ^ 64 - 1"
  shows "attachments (manager s) did \<noteq> None \<longleftrightarrow>
    (\<exists>!cid. \<exists>c sid. conns s cid = Some c \<and> sessions c sid = Some did)"
proof -
  let ?init = "server_init w :: ('a, 'c) server"
  have room: "unat (next_session_id (manager ?init)) + length ls < 2 ^ 64"
    using assms(3) by (simp add: server_init_def dm_empty_def)
  have init: "owned ?init" by (simp add: owned_def server_init_def) (simp add: dm_empty_def)
  have p: "private_sessions s" using sys_run_private [OF assms(1) private_init assms(2) room] by simp
  have o: "owned s" by (rule sys_run_owned [OF assms(1) private_init init assms(2) room])
  note inv = o [unfolded owned_def, THEN conjunct1]
  have live: "session_to_device (manager s) x = Some d"
    if "conns s cid = Some c" "sessions c x = Some d" for cid c x d
    using private_sessionsD(1) [OF p that(1)] that(2) by (auto simp: conn_ok_def map_le_def dom_def)
  show ?thesis
  proof
    assume "attachments (manager s) did \<noteq> None"
    then obtain x where x: "session_to_device (manager s) x = Some did" using dm_invD(2) [OF inv] by blast
    then obtain cid c where c: "conns s cid = Some c" "sessions c x = Some did"
      using o unfolding owned_def by blast
    show "\<exists>!cid. \<exists>c sid. conns s cid = Some c \<and> sessions c sid = Some did"
    proof (rule ex1I [of _ cid])
      show "\<exists>c sid. conns s cid = Some c \<and> sessions c sid = Some did" using c by blast
      fix cid'
      assume "\<exists>c sid. conns s cid' = Some c \<and> sessions c sid = Some did"
      then obtain e y where e: "conns s cid' = Some e" "sessions e y = Some did" by blast
      from dm_invD(3) [OF inv live [OF e] x] have "y = x" .
      then show "cid' = cid" using private_sessionsD(2) [OF p e(1) c(1), of x] e(2) c(2) by auto
    qed
  next
    assume "\<exists>!cid. \<exists>c sid. conns s cid = Some c \<and> sessions c sid = Some did"
    then obtain cid c x where "conns s cid = Some c" "sessions c x = Some did" by blast
    from dm_invD(1) [OF inv live [OF this]] show "attachments (manager s) did \<noteq> None" .
  qed
qed

section \<open>A concrete run\<close>

text \<open>A client connects and attaches the sample device.\<close>

abbreviation first_keys :: "(u64 \<rightharpoonup> DeviceId) \<Rightarrow> u64 list" where
  "first_keys \<equiv> \<lambda>m. sorted_list_of_set (dom m)"

definition attached_server :: "(unit, u8 \<times> u8) server" where
  "attached_server = \<lparr>conns = [0 \<mapsto> (connection_new Plain ''peer'' None)\<lparr>sessions := [1 \<mapsto> sample_device]\<rparr>],
     phases = (\<lambda>_. Ready), manager = sample_dm, usb_state = ()\<rparr>"

lemma sample_run:
  "sys_run (idle_usb [(1, 2)]) (\<lambda>k d. k @ d) (\<lambda>_. Ok [0]) first_keys None allowed
     (server_init ()) [Accept 0, Turn 0 (sample_turn (Attach \<lparr>aq_device_id = sample_device\<rparr>))] attached_server"
  if "\<And>s. allowed s (Accept 0)" "\<And>s. allowed s (Turn 0 (sample_turn (Attach \<lparr>aq_device_id = sample_device\<rparr>)))"
proof -
  let ?s1 = "\<lparr>conns = [0 \<mapsto> connection_new Plain ''peer'' None], phases = (\<lambda>_. Ready), manager = dm_empty, usb_state = ()\<rparr>
    :: (unit, u8 \<times> u8) server"
  let ?t = "sample_turn (Attach \<lparr>aq_device_id = sample_device\<rparr>)"
  have a: "sys_step (idle_usb [(1, 2)]) (\<lambda>k d. k @ d) (\<lambda>_. Ok [0]) first_keys None (server_init ()) (Accept 0) ?s1"
    using sys_accept [where s = "server_init ()" and cid = 0 and tls = None and addr = "''peer''" and key = None
        and c = "connection_new Plain ''peer'' None"]
    by (simp add: server_init_def spawn_connection_def fun_upd_idem)
  obtain out where turn: "conn_turn (idle_usb [(1, 2)]) (\<lambda>k d. k @ d) (\<lambda>_. Ok [0]) ?t
      (connection_new Plain ''peer'' None) dm_empty () =
    (Continue, out, (connection_new Plain ''peer'' None)\<lparr>sessions := [1 \<mapsto> sample_device]\<rparr>, sample_dm, ())"
    by (simp add: conn_turn_def sample_attach_message sample_send)
  have "sys_step (idle_usb [(1, 2)]) (\<lambda>k d. k @ d) (\<lambda>_. Ok [0]) first_keys None ?s1 (Turn 0 ?t)
      (?s1\<lparr>conns := (conns ?s1)(0 \<mapsto> (connection_new Plain ''peer'' None)\<lparr>sessions := [1 \<mapsto> sample_device]\<rparr>),
         phases := (phases ?s1)(0 := phase_after Continue), manager := sample_dm, usb_state := ()\<rparr>)"
    by (rule sys_turn [where c = "connection_new Plain ''peer'' None" and out = out])
      (use turn in \<open>simp_all add: begin_transfer_def\<close>)
  then have t: "sys_step (idle_usb [(1, 2)]) (\<lambda>k d. k @ d) (\<lambda>_. Ok [0]) first_keys None ?s1 (Turn 0 ?t) attached_server"
    by (simp add: attached_server_def fun_upd_idem)
  let ?step = "\<lambda>s l s'. allowed s l \<and> sys_step (idle_usb [(1, 2)]) (\<lambda>k d. k @ d) (\<lambda>_. Ok [0]) first_keys None s l s'"
  have "trace ?step (server_init ()) [Accept 0] ?s1" "trace ?step ?s1 [Turn 0 ?t] attached_server"
    using a t that by (simp_all add: trace_single)
  from trace_append [OF this] show ?thesis by (simp add: sys_run_def)
qed

lemma first_keys_ok: "keys_ok first_keys"
  by (simp add: keys_ok_def)

theorem sessions_are_private_witness: "validate_session (manager attached_server) 1 sample_device = Ok ()"
  using sessions_are_private [OF sample_run [of "\<lambda>_ _. True"] first_keys_ok, of 0 _ 1 sample_device]
  by (simp add: attached_server_def)

theorem attached_iff_one_live_owner_witness:
  "\<exists>!cid. \<exists>c sid. conns attached_server cid = Some c \<and> sessions c sid = Some sample_device"
  using attached_iff_one_live_owner [OF sample_run [of well_behaved] first_keys_ok, of sample_device]
  by (simp add: attached_server_def sample_dm_def split: option.splits)

end
