(* ===== verification/Interleaving.thy ===== *)
theory Interleaving
  imports Server
begin

text \<open>
  Transfers run without the manager's lock (\<open>handle_control_transfer\<close>, \<open>handle_bulk_transfer\<close> and
  \<open>handle_interrupt_transfer\<close> of \<open>src/src/server/connection.rs\<close>), so other connections may attach,
  detach and end while one is under way.
\<close>

section \<open>The attachment of another connection's device\<close>

lemma msg_effect_keeps_handle:
  assumes "msg_effect usb c dm w msg c' dm'" "honest_msg c msg" "conn_ok c dm" "dm_inv dm"
    and "session_to_device dm x = Some d" "sessions c x = None"
  shows "map_option handle (attachments dm' d) = map_option handle (attachments dm d)"
  using assms(1)
proof cases
  case eff_same
  then show ?thesis by (simp add: same_tables_def)
next
  case (eff_attach req addr sid w')
  have "attachments dm d \<noteq> None" by (rule dm_invD(1) [OF assms(4,5)])
  then show ?thesis using dm_attach_Ok(1,5) [OF eff_attach(1)] by auto
next
  case (eff_detach req res w')
  with assms(2,3) have sid: "session_to_device dm (dq_session_id req) = Some (dq_device_id req)"
    by (auto simp: conn_ok_def map_le_def dom_def)
  have "dq_device_id req \<noteq> d" using dm_invD(3) [OF assms(4,5), of "dq_session_id req"] sid eff_detach(2) assms(6) by auto
  with eff_detach(3) show ?thesis by (auto simp: dm_detach_def Let_def split: option.splits)
qed

lemma turn_keeps_handle:
  assumes "conn_turn usb hmac enc t c dm w = (fl, out, c', dm', w')" "conn_ok c dm" "dm_inv dm"
    and "case t_incoming t of Frame msg \<Rightarrow> honest_msg c msg | _ \<Rightarrow> True"
    and "session_to_device dm x = Some d" "sessions c x = None"
  shows "map_option handle (attachments dm' d) = map_option handle (attachments dm d)"
  using conn_turn_effect [OF assms(1)] assms(2-6)
  by (auto dest!: handle_message_effect intro: msg_effect_keeps_handle)

lemma cleanup_keeps_handle:
  assumes "cleanup usb None (keys (sessions c)) c dm w = (c', dm', w')" "conn_ok c dm" "dm_inv dm" "keys_ok keys"
    and "session_to_device dm x = Some d" "sessions c x = None"
  shows "attachments dm' d = attachments dm d"
proof -
  have ks: "set (keys (sessions c)) = dom (sessions c)"
    using assms(2,4) by (simp add: keys_ok_def conn_ok_def)
  obtain dm1 w1 where d: "detach_all_for_sessions usb dm (keys (sessions c)) w = (dm1, w1)"
    by (metis surj_pair)
  have "\<forall>y \<in> dom (sessions c). session_to_device dm y \<noteq> Some d"
    using dm_invD(3) [OF assms(3,5)] assms(6) by auto
  then have "attachments dm1 d = attachments dm d"
    using detach_all_effect [OF assms(3) d] by (simp add: sessions_removed_def ks)
  with assms(1) show ?thesis by (auto simp: cleanup_def d split: if_splits)
qed

section \<open>A transfer's device stays its own\<close>

definition holds_for :: "('w, 'h) server \<Rightarrow> nat \<Rightarrow> turn \<Rightarrow> 'h \<Rightarrow> bool" where
  "holds_for s cid t h \<longleftrightarrow>
     (\<exists>msg sid did c at. t_incoming t = Frame msg \<and> transfer_target msg = Some (sid, did) \<and>
        conns s cid = Some c \<and> sessions c sid = Some did \<and>
        attachments (manager s) did = Some at \<and> handle at = h)"

definition transfers_held :: "('w, 'h) server \<Rightarrow> bool" where
  "transfers_held s \<longleftrightarrow> (\<forall>cid t h. phases s cid = Transferring t h \<longrightarrow> holds_for s cid t h)"

lemma holds_for_step:
  assumes "holds_for s cid t h" "private_sessions s" "conns s' cid = conns s cid"
    and "\<And>c x d. conns s cid = Some c \<Longrightarrow> sessions c x = Some d \<Longrightarrow> session_to_device (manager s) x = Some d \<Longrightarrow>
      map_option handle (attachments (manager s') d) = map_option handle (attachments (manager s) d)"
  shows "holds_for s' cid t h"
proof -
  obtain msg sid did c at where h: "t_incoming t = Frame msg" "transfer_target msg = Some (sid, did)"
    "conns s cid = Some c" "sessions c sid = Some did" "attachments (manager s) did = Some at" "handle at = h"
    using assms(1) by (auto simp: holds_for_def)
  have "session_to_device (manager s) sid = Some did"
    using private_sessionsD(1) [OF assms(2) h(3)] h(4) by (auto simp: conn_ok_def map_le_def dom_def)
  from assms(4) [OF h(3,4) this] h(5,6) have "map_option handle (attachments (manager s') did) = Some h" by simp
  then obtain at' where "attachments (manager s') did = Some at'" "handle at' = h" by blast
  with h assms(3) show ?thesis unfolding holds_for_def by auto
qed

lemma begin_holds:
  assumes "begin_transfer usb t c (manager s) w = Some h" "conns s cid = Some c" "private_sessions s"
  shows "holds_for s cid t h"
proof -
  obtain msg sid did where m: "t_incoming t = Frame msg" "transfer_target msg = Some (sid, did)"
    "authorize_transfer usb c (manager s) sid did w = Ok h"
    using assms(1) by (rule begin_transferE)
  then have a: "sessions c sid \<noteq> None" "validate_session (manager s) sid did = Ok ()" "get_handle usb (manager s) did w = Ok h"
    by (auto simp: authorize_transfer_def split: if_splits sum.splits)
  then have "sessions c sid = Some did"
    using private_sessionsD(1) [OF assms(3,2)] by (auto simp: conn_ok_def map_le_def dom_def)
  moreover obtain at where "attachments (manager s) did = Some at" "handle at = h"
    using a(3) by (auto simp: get_handle_def split: option.splits sum.splits if_splits)
  ultimately show ?thesis using m(1,2) assms(2) unfolding holds_for_def by auto
qed

lemma transfers_held_step:
  assumes "sys_step usb hmac enc keys key s l s'" "private_sessions s" "owned s" "keys_ok keys"
    and "well_behaved s l" "transfers_held s"
  shows "transfers_held s'"
  unfolding transfers_held_def
proof (intro allI impI)
  fix cid t h
  assume ph: "phases s' cid = Transferring t h"
  have inv: "dm_inv (manager s)" using assms(3) by (simp add: owned_def)
  have old: "phases s cid = Transferring t h \<Longrightarrow> holds_for s cid t h" for cid t h
    using assms(6) by (simp add: transfers_held_def)
  have other: "sessions c x = None"
    if "conns s cid = Some e" "sessions e x = Some d" "conns s cid' = Some c" "cid' \<noteq> cid" for cid' c e x d
    using private_sessionsD(2) [OF assms(2) that(1,3), of x] that by simp
  show "holds_for s' cid t h"
    using assms(1)
  proof cases
    case (sys_accept cid' tls addr c)
    with ph have "cid \<noteq> cid'" by auto
    with ph sys_accept show ?thesis by (intro holds_for_step [OF old assms(2)]) simp_all
  next
    case (sys_turn cid' c u fl out c' dm' w')
    then have ne: "cid' \<noteq> cid" using ph by (cases fl) auto
    have "case t_incoming u of Frame msg \<Rightarrow> honest_msg c msg | _ \<Rightarrow> True"
      using assms(5) sys_turn by (auto split: incoming.splits)
    note keep = turn_keeps_handle [OF sys_turn(6) private_sessionsD(1) [OF assms(2) sys_turn(3)] inv this]
    show ?thesis
      by (rule holds_for_step [OF old assms(2)])
        (use ph ne in \<open>auto simp: sys_turn(2) intro!: keep other [OF _ _ sys_turn(3) ne]\<close>)
  next
    case (sys_begin cid' c u h')
    show ?thesis
    proof (cases "cid = cid'")
      case True
      with ph sys_begin have "t = u" "h = h'" by simp_all
      from begin_holds [OF sys_begin(5,3) assms(2)] show ?thesis
        by (simp add: holds_for_def sys_begin(2) True \<open>t = u\<close> \<open>h = h'\<close>)
    next
      case False
      with ph sys_begin show ?thesis by (intro holds_for_step [OF old assms(2)]) simp_all
    qed
  next
    case (sys_end cid' u h' fl out w')
    then have "cid \<noteq> cid'" using ph by (cases fl) auto
    with ph sys_end show ?thesis by (intro holds_for_step [OF old assms(2)]) simp_all
  next
    case (sys_close cid' c c' dm' w')
    then have ne: "cid' \<noteq> cid" using ph by auto
    note keep = cleanup_keeps_handle [OF sys_close(5) private_sessionsD(1) [OF assms(2) sys_close(3)] inv assms(4)]
    show ?thesis
      by (rule holds_for_step [OF old assms(2)])
        (use ph ne in \<open>auto simp: sys_close(2) intro!: arg_cong [where f = "map_option handle"] keep other [OF _ _ sys_close(3) ne]\<close>)
  next
    case (sys_handoff cid' c u target out c' dm' w')
    then have "cid \<noteq> cid'" using ph by auto
    with ph sys_handoff conn_turn_handoff [OF sys_handoff(5)] show ?thesis
      by (intro holds_for_step [OF old assms(2)]) simp_all
  next
    case (sys_environment w')
    with ph show ?thesis by (intro holds_for_step [OF old assms(2)]) simp_all
  qed
qed

lemma sys_run_transfers:
  assumes "sys_run usb hmac enc keys key well_behaved (server_init w) ls s" "keys_ok keys" "length ls < 2 ^ 64 - 1"
  shows "private_sessions s" "owned s" "transfers_held s"
proof -
  let ?init = "server_init w :: ('a, 'c) server"
  have first: "unat (next_session_id (manager ?init)) = 1" by (simp add: server_init_def dm_empty_def)
  have owned: "owned ?init" by (simp add: owned_def server_init_def) (simp add: dm_empty_def)
  have inv: "private_sessions t \<and> owned t"
    if "sys_run usb hmac enc keys key well_behaved ?init ms t" "length ms < 2 ^ 64 - 1" for ms t
    using sys_run_private [OF that(1) private_init assms(2)] sys_run_owned [OF that(1) private_init owned assms(2)]
      that(2) first by simp
  from inv [OF assms(1,3)] show "private_sessions s" "owned s" by simp_all
  show "transfers_held s"
    using assms(1,3)
  proof (induction rule: sys_run_induct)
    case start
    show ?case by (simp add: transfers_held_def server_init_def)
  next
    case (step ms t l u)
    then have "length ms < 2 ^ 64 - 1" by simp
    with inv [OF step.hyps(1)] transfers_held_step [OF step.hyps(3) _ _ assms(2) step.hyps(2)] step.IH
    show ?case by simp
  qed
qed

text \<open>C5: a transfer runs on a device of its own: it runs after the manager's lock is given back, while
  other connections attach, detach, end and are cleaned up; but as long as clients detach devices
  with the sessions they got for them and bridge on connections that hold no device, at every
  moment until it is over its connection is there and holds the session the request names, the
  device is still attached with the very handle the transfer runs on, and no other connection has
  a session for it.\<close>

theorem transfers_run_on_held_devices:
  assumes "sys_run usb hmac enc keys key well_behaved (server_init w) ls s" "keys_ok keys" "length ls < 2 ^ 64 - 1"
    and "phases s cid = Transferring t h"
  shows "\<exists>msg sid did c at. t_incoming t = Frame msg \<and> transfer_target msg = Some (sid, did) \<and>
    conns s cid = Some c \<and> sessions c sid = Some did \<and> attachments (manager s) did = Some at \<and> handle at = h \<and>
    (\<forall>cid' c'. conns s cid' = Some c' \<and> did \<in> ran (sessions c') \<longrightarrow> cid' = cid)"
proof -
  note inv = sys_run_transfers [OF assms(1-3)]
  from inv(3) assms(4) obtain msg sid did c at where
    h: "t_incoming t = Frame msg" "transfer_target msg = Some (sid, did)" "conns s cid = Some c"
      "sessions c sid = Some did" "attachments (manager s) did = Some at" "handle at = h"
    unfolding transfers_held_def holds_for_def by blast
  have live: "session_to_device (manager s) x = Some d" if "conns s cid' = Some c'" "sessions c' x = Some d" for cid' c' x d
    using private_sessionsD(1) [OF inv(1) that(1)] that(2) by (auto simp: conn_ok_def map_le_def dom_def)
  have "cid' = cid" if c': "conns s cid' = Some c'" and d: "did \<in> ran (sessions c')" for cid' c'
  proof -
    obtain x where x: "sessions c' x = Some did" using d by (auto simp: ran_def)
    have "dm_inv (manager s)" using inv(2) by (simp add: owned_def)
    from dm_invD(3) [OF this live [OF c' x] live [OF h(3,4)]] have "x = sid" .
    then show ?thesis using private_sessionsD(2) [OF inv(1) c' h(3), of sid] x h(4) by auto
  qed
  with h show ?thesis by blast
qed

text \<open>The client of theory \<open>Server\<close>'s run, in the middle of a transfer.\<close>

definition sample_transfer :: turn where
  "sample_transfer = sample_turn (BulkTransfer (sample_bulk_read 2))"

theorem transfers_run_on_held_devices_witness:
  "\<exists>s :: (unit, u8 \<times> u8) server. phases s 0 = Transferring sample_transfer (1, 2) \<and>
     (\<exists>c. conns s 0 = Some c \<and> sessions c 1 = Some sample_device)"
proof -
  let ?s = "attached_server\<lparr>phases := (phases attached_server)(0 := Transferring sample_transfer (1, 2))\<rparr>"
  let ?step = "\<lambda>s l s'. well_behaved s l \<and> sys_step (idle_usb [(1, 2)]) (\<lambda>k d. k @ d) (\<lambda>_. Ok [0]) first_keys None s l s'"
  have "sys_step (idle_usb [(1, 2)]) (\<lambda>k d. k @ d) (\<lambda>_. Ok [0]) first_keys None attached_server (Begin 0 sample_transfer) ?s"
    by (rule sys_begin) (simp_all add: attached_server_def, simp add: begin_transfer_def sample_transfer_def sample_bulk_read_def
        connection_new_def authorize_transfer_def get_handle_def find_device_def idle_usb_def idle_descriptor_def sample_dm_def validate_session_def)
  then have last: "trace ?step attached_server [Begin 0 sample_transfer] ?s" by (simp add: trace_single)
  have "sys_run (idle_usb [(1, 2)]) (\<lambda>k d. k @ d) (\<lambda>_. Ok [0]) first_keys None well_behaved (server_init ())
      [Accept 0, Turn 0 (sample_turn (Attach \<lparr>aq_device_id = sample_device\<rparr>))] attached_server"
    by (rule sample_run) (simp_all split: option.splits)
  from trace_append [OF this [unfolded sys_run_def] last]
  have "sys_run (idle_usb [(1, 2)]) (\<lambda>k d. k @ d) (\<lambda>_. Ok [0]) first_keys None well_behaved (server_init ())
      [Accept 0, Turn 0 (sample_turn (Attach \<lparr>aq_device_id = sample_device\<rparr>)), Begin 0 sample_transfer] ?s"
    by (simp add: sys_run_def)
  from transfers_run_on_held_devices [OF this first_keys_ok, of 0 sample_transfer "(1, 2)"]
  show ?thesis by (intro exI [of _ ?s]) (auto simp: sample_transfer_def sample_bulk_read_def)
qed

end
