(* ===== verification/Ownership.thy ===== *)
theory Ownership
  imports Interleaving
begin

text \<open>
  What the server promises about its devices, in the abstract: connections come and go, a
  connection takes devices that are free and drops devices of its own, and loses what it has
  when it leaves. The system of theory \<open>Server\<close> implements it.
\<close>

section \<open>Ownership\<close>

record own_state =
  members :: "nat set"
  owner :: "DeviceId \<rightharpoonup> nat"

definition own_init :: own_state where
  "own_init = \<lparr>members = {}, owner = Map.empty\<rparr>"

datatype own_event = Join nat | Take nat DeviceId | Drop nat DeviceId | Leave nat

inductive own_step :: "own_state \<Rightarrow> own_event \<Rightarrow> own_state \<Rightarrow> bool" where
  own_join: "cid \<notin> members a \<Longrightarrow> own_step a (Join cid) (a\<lparr>members := insert cid (members a)\<rparr>)"
| own_take: "cid \<in> members a \<Longrightarrow> owner a did = None \<Longrightarrow>
     own_step a (Take cid did) (a\<lparr>owner := (owner a)(did \<mapsto> cid)\<rparr>)"
| own_drop: "owner a did = Some cid \<Longrightarrow> own_step a (Drop cid did) (a\<lparr>owner := (owner a)(did := None)\<rparr>)"
| own_leave: "cid \<in> members a \<Longrightarrow>
     own_step a (Leave cid)
       (a\<lparr>members := members a - {cid}, owner := (\<lambda>did. if owner a did = Some cid then None else owner a did)\<rparr>)"

text \<open>What a step of the server may be in the abstract: which devices change hands is in the message.\<close>

fun own_events :: "label \<Rightarrow> own_event list list" where
  "own_events (Accept cid) = [[Join cid]]"
| "own_events (Turn cid t) =
     (case t_incoming t of
        Frame (Attach req) \<Rightarrow> [[], [Take cid (aq_device_id req)]]
      | Frame (Detach req) \<Rightarrow> [[], [Drop cid (dq_device_id req)]]
      | _ \<Rightarrow> [[]])"
| "own_events (Close cid) = [[Leave cid]]"
| "own_events (Handoff cid t) = [[Leave cid]]"
| "own_events _ = [[]]"

section \<open>The server's devices\<close>

definition holds :: "('w, 'h) server \<Rightarrow> nat \<Rightarrow> DeviceId \<Rightarrow> bool" where
  "holds s cid did \<longleftrightarrow> (\<exists>c. conns s cid = Some c \<and> did \<in> ran (sessions c))"

definition represents :: "('w, 'h) server \<Rightarrow> own_state \<Rightarrow> bool" where
  "represents s a \<longleftrightarrow> members a = dom (conns s) \<and> (\<forall>did cid. owner a did = Some cid \<longleftrightarrow> holds s cid did)"

lemma represents_held:
  assumes "private_sessions s" "owned s" "represents s a"
  shows "dom (owner a) = dom (attachments (manager s))"
proof -
  have inv: "dm_inv (manager s)" using assms(2) by (simp add: owned_def)
  have "attachments (manager s) did \<noteq> None \<longleftrightarrow> (\<exists>cid. holds s cid did)" for did
  proof
    assume "attachments (manager s) did \<noteq> None"
    then obtain x where "session_to_device (manager s) x = Some did" using dm_invD(2) [OF inv] by blast
    then show "\<exists>cid. holds s cid did" using assms(2) by (force simp: owned_def holds_def ran_def)
  next
    assume "\<exists>cid. holds s cid did"
    then obtain cid c x where c: "conns s cid = Some c" "sessions c x = Some did" by (auto simp: holds_def ran_def)
    then have "session_to_device (manager s) x = Some did"
      using private_sessionsD(1) [OF assms(1) c(1)] by (auto simp: conn_ok_def map_le_def dom_def)
    from dm_invD(1) [OF inv this] show "attachments (manager s) did \<noteq> None" .
  qed
  with assms(3) show ?thesis by (auto simp: represents_def dom_def)
qed

lemma representsI:
  assumes "members a = dom (conns s)" "\<And>did cid. holds s cid did \<longleftrightarrow> owner a did = Some cid"
  shows "represents s a"
  using assms by (simp add: represents_def)

lemma represents_put:
  assumes "represents s a" "conns s cid = Some c" "conns s' = (conns s)(cid \<mapsto> c')"
  shows "members a = dom (conns s')"
    and "holds s' cid' did \<longleftrightarrow> (if cid' = cid then did \<in> ran (sessions c') else owner a did = Some cid')"
  using assms by (auto simp: represents_def holds_def)

lemma represents_drop:
  assumes "represents s a" "conns s' = (conns s)(cid := None)"
  shows "represents s' (a\<lparr>members := members a - {cid},
    owner := (\<lambda>did. if owner a did = Some cid then None else owner a did)\<rparr>)"
proof (rule representsI)
  have "holds s' cid' did \<longleftrightarrow> cid' \<noteq> cid \<and> owner a did = Some cid'" for cid' did
    using assms by (simp add: represents_def holds_def)
  then show "holds s' cid' did \<longleftrightarrow> owner (a\<lparr>members := members a - {cid},
    owner := (\<lambda>did. if owner a did = Some cid then None else owner a did)\<rparr>) did = Some cid'" for cid' did by auto
qed (use assms in \<open>auto simp: represents_def\<close>)

lemma represents_turn:
  assumes "conn_turn usb hmac enc t c (manager s) (usb_state s) = (fl, out, c', dm', w')"
    and "represents s a" "private_sessions s" "owned s" "conns s cid = Some c"
    and "case t_incoming t of Frame msg \<Rightarrow> honest_msg c msg | _ \<Rightarrow> True"
    and "conns s' = (conns s)(cid \<mapsto> c')"
  shows "\<exists>es a'. es \<in> set (own_events (Turn cid t)) \<and> trace own_step a es a' \<and> represents s' a'"
proof -
  have inv: "dm_inv (manager s)" using assms(4) by (simp add: owned_def)
  have ok: "conn_ok c (manager s)" by (rule private_sessionsD(1) [OF assms(3,5)])
  have std: "session_to_device (manager s) x = Some d" if "sessions c x = Some d" for x d
    using ok that by (auto simp: conn_ok_def map_le_def dom_def)
  have own: "owner a d = Some cid \<longleftrightarrow> d \<in> ran (sessions c)" for d
    using assms(2,5) by (simp add: represents_def holds_def)
  have mem: "cid \<in> members a" using assms(2,5) by (auto simp: represents_def)
  note put = represents_put [OF assms(2,5,7)]
  consider (same) "sessions c' = sessions c"
    | (take) req sid where "t_incoming t = Frame (Attach req)" "attachments (manager s) (aq_device_id req) = None"
        "sessions c' = (sessions c)(sid \<mapsto> aq_device_id req)" "sessions c sid = None"
    | (drop) req where "t_incoming t = Frame (Detach req)" "sessions c (dq_session_id req) = Some (dq_device_id req)"
        "sessions c' = (sessions c)(dq_session_id req := None)"
  proof -
    consider "c' = c" | msg where "t_incoming t = Frame msg" "msg_effect usb c (manager s) (usb_state s) msg c' dm'"
      using conn_turn_effect [OF assms(1)] by (auto dest: handle_message_effect)
    then show ?thesis
    proof cases
      case 2
      from 2(2) show ?thesis
      proof cases
        case (eff_attach req addr sid w')
        have "session_to_device (manager s) sid = None"
          using dm_invD(4) [OF inv, of sid] dm_attach_Ok(2) [OF eff_attach(1)]
          by (cases "session_to_device (manager s) sid") auto
        then have "sessions c sid = None" using std by (cases "sessions c sid") auto
        with take 2(1) eff_attach dm_attach_Ok(1) [OF eff_attach(1)] show ?thesis by simp
      next
        case (eff_detach req res w')
        with drop 2(1) assms(6) show ?thesis by simp
      qed (use same in simp)
    qed (use same in simp)
  qed
  then show ?thesis
  proof cases
    case same
    have "represents s' a" by (rule representsI) (auto simp: put same own)
    moreover have "[] \<in> set (own_events (Turn cid t))" by (simp split: incoming.split Message.split)
    ultimately show ?thesis by blast
  next
    case take
    have free: "owner a (aq_device_id req) = None"
      using represents_held [OF assms(3,4,2)] take(2) by auto
    then have "own_step a (Take cid (aq_device_id req)) (a\<lparr>owner := (owner a)(aq_device_id req \<mapsto> cid)\<rparr>)"
      using mem by (intro own_take)
    moreover have "represents s' (a\<lparr>owner := (owner a)(aq_device_id req \<mapsto> cid)\<rparr>)"
      by (rule representsI) (use take(4) free in \<open>auto simp: put take(3) own\<close>)
    ultimately show ?thesis using take(1)
      by (intro exI [of _ "[Take cid (aq_device_id req)]"] exI) (auto intro: trace_single)
  next
    case drop
    have mine: "owner a (dq_device_id req) = Some cid" using drop(2) own by (auto simp: ran_def)
    have only: "x = dq_session_id req" if "sessions c x = Some (dq_device_id req)" for x
      using dm_invD(3) [OF inv std [OF that] std [OF drop(2)]] .
    have left: "ran (sessions c') = ran (sessions c) - {dq_device_id req}"
    proof -
      have "sessions c' x = Some d \<longleftrightarrow> sessions c x = Some d \<and> d \<noteq> dq_device_id req" for x d
        using drop(2) only [of x] by (cases "x = dq_session_id req") (auto simp: drop(3))
      then show ?thesis by (auto simp: ran_def)
    qed
    from mine have "own_step a (Drop cid (dq_device_id req)) (a\<lparr>owner := (owner a)(dq_device_id req := None)\<rparr>)"
      by (rule own_drop)
    moreover have "represents s' (a\<lparr>owner := (owner a)(dq_device_id req := None)\<rparr>)"
      by (rule representsI) (use mine in \<open>auto simp: put left simp flip: own\<close>)
    ultimately show ?thesis using drop(1)
      by (intro exI [of _ "[Drop cid (dq_device_id req)]"] exI) (auto intro: trace_single)
  qed
qed

section \<open>The server implements ownership\<close>

definition fair_step ::
  "('w, 'd, 'h) rusb \<Rightarrow> (bytes \<Rightarrow> bytes \<Rightarrow> bytes) \<Rightarrow> bincode_enc \<Rightarrow>
     ((u64 \<rightharpoonup> DeviceId) \<Rightarrow> u64 list) \<Rightarrow> bytes option \<Rightarrow>
     ('w, 'h) server \<Rightarrow> label \<Rightarrow> ('w, 'h) server \<Rightarrow> bool" where
  "fair_step usb hmac enc keys key s l s' \<longleftrightarrow> keys_ok keys \<and> unat (next_session_id (manager s)) + 1 < 2 ^ 64 \<and>
     well_behaved s l \<and> sys_step usb hmac enc keys key s l s'"

definition implements_own :: "('w, 'h) server \<Rightarrow> own_state \<Rightarrow> bool" where
  "implements_own s a \<longleftrightarrow> private_sessions s \<and> owned s \<and> represents s a"

lemma own_square:
  assumes "sys_step usb hmac enc keys key s l s'" "private_sessions s" "owned s" "represents s a" "well_behaved s l"
  shows "\<exists>es a'. es \<in> set (own_events l) \<and> trace own_step a es a' \<and> represents s' a'"
  using assms(1)
proof cases
  case (sys_accept cid tls addr c)
  have "sessions c = Map.empty"
    using sys_accept(4) by (auto simp: spawn_connection_def connection_new_def split: option.splits sum.splits)
  then have "represents s' (a\<lparr>members := insert cid (members a)\<rparr>)"
    using assms(4) sys_accept(3) unfolding sys_accept(2) by (auto simp: represents_def holds_def)
  moreover have "own_step a (Join cid) (a\<lparr>members := insert cid (members a)\<rparr>)"
    using assms(4) sys_accept(3) by (intro own_join) (auto simp: represents_def)
  ultimately show ?thesis unfolding sys_accept(1)
    by (intro exI [of _ "[Join cid]"] exI) (auto intro: trace_single)
next
  case (sys_turn cid c t fl out c' dm' w')
  have "case t_incoming t of Frame msg \<Rightarrow> honest_msg c msg | _ \<Rightarrow> True"
    using assms(5) sys_turn by (auto split: incoming.splits)
  from represents_turn [OF sys_turn(6) assms(4,2,3) sys_turn(3) this, of s'] show ?thesis
    by (simp add: sys_turn(1,2))
next
  case (sys_close cid c c' dm' w')
  then have "own_step a (Leave cid) (a\<lparr>members := members a - {cid},
      owner := (\<lambda>did. if owner a did = Some cid then None else owner a did)\<rparr>)"
    using assms(4) by (intro own_leave) (auto simp: represents_def)
  with represents_drop [OF assms(4), of s' cid] show ?thesis unfolding sys_close(1,2)
    by (intro exI [of _ "[Leave cid]"] exI) (auto intro: trace_single)
next
  case (sys_handoff cid c t target out c' dm' w')
  then have "own_step a (Leave cid) (a\<lparr>members := members a - {cid},
      owner := (\<lambda>did. if owner a did = Some cid then None else owner a did)\<rparr>)"
    using assms(4) by (intro own_leave) (auto simp: represents_def)
  with represents_drop [OF assms(4), of s' cid] show ?thesis unfolding sys_handoff(1,2)
    by (intro exI [of _ "[Leave cid]"] exI) (auto intro: trace_single)
next
  case (sys_begin cid c t h)
  with assms(4) show ?thesis by (intro exI [of _ "[]"] exI [of _ a]) (simp add: represents_def holds_def)
next
  case (sys_end cid t h fl out w')
  with assms(4) show ?thesis by (intro exI [of _ "[]"] exI [of _ a]) (simp add: represents_def holds_def)
next
  case (sys_environment w')
  with assms(4) show ?thesis by (intro exI [of _ "[]"] exI [of _ a]) (simp add: represents_def holds_def)
qed

interpretation ownership: simulation "fair_step usb hmac enc keys key" own_step implements_own
    "\<lambda>l es. es \<in> set (own_events l)"
  for usb :: "('w, 'd, 'h) rusb" and hmac enc keys key
proof
  fix s :: "('w, 'h) server" and a l s'
  assume r: "implements_own s a" and "fair_step usb hmac enc keys key s l s'"
  then have f: "keys_ok keys" "unat (next_session_id (manager s)) + 1 < 2 ^ 64" "well_behaved s l"
    and step: "sys_step usb hmac enc keys key s l s'" by (simp_all add: fair_step_def)
  from r have inv: "private_sessions s" "owned s" "represents s a" by (simp_all add: implements_own_def)
  have "next_session_id (manager s) + 1 \<noteq> 0" using counter_next(1) [of "next_session_id (manager s)"] f(2) by blast
  from own_square [OF step inv f(3)] private_step [OF step inv(1) f(1) this] owned_step [OF step inv(1,2) f(1,3,2)]
  show "\<exists>es a'. es \<in> set (own_events l) \<and> trace own_step a es a' \<and> implements_own s' a'"
    by (auto simp: implements_own_def)
qed

lemma run_is_fair:
  assumes "sys_run usb hmac enc keys key well_behaved (server_init w) ls s" "keys_ok keys" "length ls < 2 ^ 64 - 1"
  shows "trace (fair_step usb hmac enc keys key) (server_init w) ls s"
  using assms(1,3)
proof (induction rule: sys_run_induct)
  case (step ms t l u)
  have "unat (next_session_id (manager (server_init w :: ('a, 'c) server))) = 1"
    by (simp add: server_init_def dm_empty_def)
  with sys_run_private [OF step.hyps(1) private_init assms(2)] step.prems
  have "unat (next_session_id (manager t)) + 1 < 2 ^ 64" by simp
  with step assms(2) show ?case by (intro trace_snoc) (simp_all add: fair_step_def)
qed simp

text \<open>C1: the server implements exclusive ownership: every run of it in which clients detach devices
  with the sessions they got for them and bridge on connections that hold no device is a run of
  the abstract system in which a connection can take only a device that is free and drop only
  a device of its own, and loses everything when it leaves. Each step does in the abstract what
  its label says (a device changes hands only by an attach or a detach that names it or at the
  end of its owner's connection), and at the end the owner of a device is the connection that
  has a session for it, the owned devices being exactly those the manager has attached.\<close>

theorem server_refines_ownership:
  assumes "sys_run usb hmac enc keys key well_behaved (server_init w) ls s" "keys_ok keys" "length ls < 2 ^ 64 - 1"
  shows "\<exists>ess a. list_all2 (\<lambda>l es. es \<in> set (own_events l)) ls ess \<and> trace own_step own_init (concat ess) a \<and>
    represents s a \<and> dom (owner a) = dom (attachments (manager s))"
proof -
  have "owned (server_init w :: ('a, 'c) server)"
    by (simp add: owned_def server_init_def) (simp add: dm_empty_def)
  then have "implements_own (server_init w :: ('a, 'c) server) own_init"
    by (simp add: implements_own_def private_init) (simp add: represents_def holds_def own_init_def server_init_def)
  from ownership.simulates [OF run_is_fair [OF assms] this] obtain ess a where
    "list_all2 (\<lambda>l es. es \<in> set (own_events l)) ls ess" "trace own_step own_init (concat ess) a" "implements_own s a"
    by blast
  with represents_held show ?thesis unfolding implements_own_def by blast
qed

theorem server_refines_ownership_witness:
  "\<exists>ess a. trace own_step own_init (concat ess) a \<and> owner a sample_device = Some 0"
proof -
  have "sys_run (idle_usb [(1, 2)]) (\<lambda>k d. k @ d) (\<lambda>_. Ok [0]) first_keys None well_behaved (server_init ())
      [Accept 0, Turn 0 (sample_turn (Attach \<lparr>aq_device_id = sample_device\<rparr>))] attached_server"
    by (rule sample_run) (simp_all split: option.splits)
  from server_refines_ownership [OF this first_keys_ok] obtain ess a where
    "trace own_step own_init (concat ess) a" "represents attached_server a" by auto
  moreover have "holds attached_server 0 sample_device" by (simp add: holds_def attached_server_def)
  ultimately show ?thesis unfolding represents_def by blast
qed

end
