(* ===== verification/Os.thy ===== *)
theory Os
  imports RustStd
begin

text \<open>
  The operating system as the sources use it: sysfs files, links, directories, commands, the
  clock and a TCP socket, as a record of operations over its state \<open>'w\<close>. What reads leaves the
  state alone, what writes, waits or runs a program returns the state it leaves. An I/O error is
  its text; \<open>anyhow\<close>'s error is the list of its context texts, outermost first. Paths are
  strings, and the standard library's functions on paths are defined here.
\<close>

section \<open>Errors with context\<close>

type_synonym anyhow = "string list"

definition with_context :: "string \<Rightarrow> (anyhow, 'a) result \<Rightarrow> (anyhow, 'a) result" where
  "with_context text r = (case r of Inl e \<Rightarrow> Err (text # e) | Inr a \<Rightarrow> Ok a)"

definition io_context :: "string \<Rightarrow> (string, 'a) result \<Rightarrow> (anyhow, 'a) result" where
  "io_context text r = (case r of Inl e \<Rightarrow> Err [text, e] | Inr a \<Rightarrow> Ok a)"

lemma io_context_simps [simp]:
  "io_context text (Err e) = Err [text, e]" "io_context text (Ok a) = Ok a"
  by (simp_all add: io_context_def)

lemma with_context_simps [simp]:
  "with_context text (Err es) = Err (text # es)" "with_context text (Ok a) = Ok a"
  by (simp_all add: with_context_def)

section \<open>Operations\<close>

record 'w os =
  os_read_to_string :: "string \<Rightarrow> 'w \<Rightarrow> (string, string) result"
  os_read_dir :: "string \<Rightarrow> 'w \<Rightarrow> (string, (string, string) result list) result"
  os_read_link :: "string \<Rightarrow> 'w \<Rightarrow> (string, string) result"
  os_is_dir :: "string \<Rightarrow> 'w \<Rightarrow> bool"
  os_exists :: "string \<Rightarrow> 'w \<Rightarrow> bool"
  os_open_write :: "string \<Rightarrow> 'w \<Rightarrow> (string, unit) result"
  os_write_all :: "string \<Rightarrow> string \<Rightarrow> 'w \<Rightarrow> (string, unit) result \<times> 'w"
  os_command :: "string \<Rightarrow> string list \<Rightarrow> 'w \<Rightarrow> (string, bool) result \<times> 'w"
  os_sleep :: "nat \<Rightarrow> 'w \<Rightarrow> 'w"

text \<open>
  \<open>os_read_dir\<close> gives the file name of every entry, or the error that entry gave;
  \<open>os_command\<close> whether the program ended with success; \<open>os_sleep\<close> takes milliseconds.
\<close>

section \<open>Paths\<close>

abbreviation slash :: char where "slash \<equiv> CHR ''/''"

text \<open>\<open>Path::join\<close>.\<close>

definition join :: "string \<Rightarrow> string \<Rightarrow> string" where
  "join p q =
     (if q \<noteq> [] \<and> hd q = slash then q
      else if p = [] \<or> last p = slash then p @ q
      else p @ [slash] @ q)"

text \<open>\<open>Path::file_name\<close>: the last component, unless the path ends in the parent directory.\<close>

definition file_name :: "string \<Rightarrow> string option" where
  "file_name p =
     (let comps = filter (\<lambda>x. x \<noteq> [] \<and> x \<noteq> ''.'') (split_on (\<lambda>c. c = slash) p)
      in if comps = [] \<or> last comps = ''..'' then None else Some (last comps))"

text \<open>\<open>OsStr::to_str\<close> checks that the bytes are UTF-8.\<close>

fun valid_utf8 :: "nat list \<Rightarrow> bool" where
  "valid_utf8 [] = True"
| "valid_utf8 (a # bs) =
     (if a < 128 then valid_utf8 bs
      else
        (case bs of
           [] \<Rightarrow> False
         | b # cs \<Rightarrow>
             if 194 \<le> a \<and> a \<le> 223 then 128 \<le> b \<and> b \<le> 191 \<and> valid_utf8 cs
             else
               (case cs of
                  [] \<Rightarrow> False
                | c # ds \<Rightarrow>
                    if 224 \<le> a \<and> a \<le> 239 then
                      (if a = 224 then 160 else 128) \<le> b \<and> b \<le> (if a = 237 then 159 else 191) \<and>
                      128 \<le> c \<and> c \<le> 191 \<and> valid_utf8 ds
                    else
                      (case ds of
                         [] \<Rightarrow> False
                       | d # es \<Rightarrow>
                           240 \<le> a \<and> a \<le> 244 \<and>
                           (if a = 240 then 144 else 128) \<le> b \<and> b \<le> (if a = 244 then 143 else 191) \<and>
                           128 \<le> c \<and> c \<le> 191 \<and> 128 \<le> d \<and> d \<le> 191 \<and> valid_utf8 es))))"

definition to_str :: "string \<Rightarrow> string option" where
  "to_str s = (if valid_utf8 (map of_char s) then Some s else None)"

section \<open>Writing files\<close>

text \<open>Open for writing and write; \<open>try_write\<close> ignores every error.\<close>

definition open_and_write :: "'w os \<Rightarrow> string \<Rightarrow> string \<Rightarrow> 'w \<Rightarrow> (string, unit) result \<times> 'w" where
  "open_and_write os p s w =
     (case os_open_write os p w of
        Inl e \<Rightarrow> (Err e, w)
      | Inr _ \<Rightarrow> os_write_all os p s w)"

definition try_write :: "'w os \<Rightarrow> string \<Rightarrow> string \<Rightarrow> 'w \<Rightarrow> 'w" where
  "try_write os p s w = snd (open_and_write os p s w)"

section \<open>Waiting in a loop\<close>

text \<open>
  A loop that polls and waits: leave when \<open>stop\<close> holds of the state, else wait and go on. It may
  run forever, which is \<open>None\<close>.
\<close>

partial_function (option) poll_until :: "('w \<Rightarrow> bool) \<Rightarrow> ('w \<Rightarrow> 'w) \<Rightarrow> 'w \<Rightarrow> 'w option" where
  "poll_until stop wait w = (if stop w then Some w else poll_until stop wait (wait w))"

lemma poll_until_steps:
  "\<forall>k < n. \<not> stop ((wait ^^ k) w) \<Longrightarrow> poll_until stop wait w = poll_until stop wait ((wait ^^ n) w)"
proof (induction n arbitrary: w)
  case (Suc n)
  have "\<not> stop w" using Suc.prems by (auto dest: spec [of _ 0])
  moreover have "\<forall>k < n. \<not> stop ((wait ^^ k) (wait w))"
  proof (intro allI impI)
    fix k assume "k < n"
    then show "\<not> stop ((wait ^^ k) (wait w))"
      using Suc.prems [rule_format, of "Suc k"] by (simp add: funpow_swap1)
  qed
  ultimately show ?case using Suc.IH [of "wait w"] poll_until.simps [of stop wait w]
    by (simp add: funpow_swap1)
qed simp

lemma poll_until_Some:
  assumes "stop ((wait ^^ n) w)"
  shows "\<exists>k \<le> n. poll_until stop wait w = Some ((wait ^^ k) w) \<and> stop ((wait ^^ k) w) \<and>
    (\<forall>j < k. \<not> stop ((wait ^^ j) w))"
proof -
  define k where "k = (LEAST k. stop ((wait ^^ k) w))"
  have "stop ((wait ^^ k) w)" unfolding k_def using assms by (rule LeastI)
  moreover have first: "\<forall>j < k. \<not> stop ((wait ^^ j) w)" unfolding k_def using not_less_Least by blast
  moreover have "k \<le> n" unfolding k_def using assms by (rule Least_le)
  ultimately show ?thesis
    using poll_until_steps [OF first] poll_until.simps [of stop wait "(wait ^^ k) w"] by auto
qed

lemma poll_until_result:
  assumes "poll_until stop wait w = Some w'"
  shows "\<exists>n. w' = (wait ^^ n) w \<and> stop w' \<and> (\<forall>k < n. \<not> stop ((wait ^^ k) w))"
proof (rule poll_until.raw_induct [where P = "\<lambda>stop wait w w'. \<exists>n. w' = (wait ^^ n) w \<and> stop w' \<and>
      (\<forall>k < n. \<not> stop ((wait ^^ k) w))", OF _ assms])
  fix rec and stop :: "'b \<Rightarrow> bool" and wait w w'
  assume IH: "\<And>stop wait w w'. rec stop wait w = Some w' \<Longrightarrow>
      \<exists>n. w' = (wait ^^ n) w \<and> stop w' \<and> (\<forall>k < n. \<not> stop ((wait ^^ k) w))"
    and eq: "(if stop w then Some w else rec stop wait (wait w)) = Some w'"
  show "\<exists>n. w' = (wait ^^ n) w \<and> stop w' \<and> (\<forall>k < n. \<not> stop ((wait ^^ k) w))"
  proof (cases "stop w")
    case True
    with eq show ?thesis by (intro exI [of _ 0]) auto
  next
    case False
    with eq IH obtain n where n: "w' = (wait ^^ n) (wait w)" "stop w'"
      "\<forall>k < n. \<not> stop ((wait ^^ k) (wait w))" by (metis (no_types))
    have "\<not> stop ((wait ^^ k) w)" if "k < Suc n" for k
      using that False n(3) by (cases k) (auto simp: funpow_swap1)
    with n show ?thesis by (intro exI [of _ "Suc n"]) (auto simp: funpow_swap1)
  qed
qed

section \<open>A concrete system\<close>

text \<open>
  A system for evaluating the model: the files given, one directory with the entries given, a
  driver link that leads to \<open>usbip-host\<close> once something was written to its \<open>bind\<close> file and to \<open>usb\<close>
  before, and a state that is the log of what was written.
\<close>

definition log_os :: "(string \<times> string) list \<Rightarrow> string list \<Rightarrow> (string \<times> string) list os" where
  "log_os files names =
     \<lparr>os_read_to_string = (\<lambda>p w. case map_of files p of Some s \<Rightarrow> Ok s | None \<Rightarrow> Err ''not found''),
      os_read_dir = (\<lambda>_ _. Ok (map Ok names)),
      os_read_link = (\<lambda>_ w. Ok (''../drivers/'' @
        (if ''/sys/bus/usb/drivers/usbip-host/bind'' \<in> fst ` set w then ''usbip-host'' else ''usb''))),
      os_is_dir = (\<lambda>_ _. True), os_exists = (\<lambda>_ _. True),
      os_open_write = (\<lambda>_ _. Ok ()), os_write_all = (\<lambda>p s w. (Ok (), w @ [(p, s)])),
      os_command = (\<lambda>_ _ w. (Ok True, w)), os_sleep = (\<lambda>_ w. w)\<rparr>"

end
