(* ===== verification/KernelUsbip.thy ===== *)
theory KernelUsbip
  imports Os
begin

text \<open>
  \<open>src/src/server/kernel_usbip.rs\<close>: exporting a device through the kernel's \<open>usbip_host\<close>
  driver. All of it goes through sysfs, the operating system being a parameter \<open>os\<close> (theory
  \<open>Os\<close>). The record a client is sent for the device is laid out byte by byte.
\<close>

section \<open>The driver module\<close>

definition module_missing :: string where
  "module_missing =
     ''failed to load usbip_host kernel module '' @ [CHR 0xE2, CHR 0x80, CHR 0x94] @
     '' on Fedora/RHEL install kernel-modules-extra, on Debian/Ubuntu linux-modules-extra-$(uname -r)''"

definition ensure_module_loaded :: "'w os \<Rightarrow> 'w \<Rightarrow> (anyhow, unit) result \<times> 'w" where
  "ensure_module_loaded os w =
     (if os_is_dir os ''/sys/bus/usb/drivers/usbip-host'' w then (Ok (), w)
      else
        (case os_command os ''modprobe'' [''usbip_host''] w of
           (Inl e, w) \<Rightarrow> (Err [''failed to spawn modprobe'', e], w)
         | (Inr success, w) \<Rightarrow>
             let (loaded, w) =
               (if success then (True, w)
                else
                  (case os_command os ''modprobe'' [''usbip-host''] w of
                     (Inl _, w) \<Rightarrow> (False, w)
                   | (Inr success, w) \<Rightarrow> (success, w)))
             in if \<not> loaded \<or> \<not> os_is_dir os ''/sys/bus/usb/drivers/usbip-host'' w
                then (Err [module_missing], w)
                else (Ok (), w)))"

section \<open>Names of devices\<close>

definition sysfs_busid :: "u8 \<Rightarrow> string \<Rightarrow> string" where
  "sysfs_busid bus port_path = show_word bus @ ''-'' @ port_path"

definition read_sysfs_u32 :: "'w os \<Rightarrow> string \<Rightarrow> 'w \<Rightarrow> u32 option" where
  "read_sysfs_u32 os p w = Option.bind (ok (os_read_to_string os p w)) (\<lambda>s. parse_ok (trim s))"

definition read_sysfs_string :: "'w os \<Rightarrow> string \<Rightarrow> 'w \<Rightarrow> string option" where
  "read_sysfs_string os p w = map_option trim (ok (os_read_to_string os p w))"

text \<open>The answer one directory entry gives, \<open>None\<close> to go on to the next.\<close>

definition entry_port_path :: "'w os \<Rightarrow> u8 \<Rightarrow> u8 \<Rightarrow> 'w \<Rightarrow> string \<Rightarrow> string option" where
  "entry_port_path os bus addr w entry =
     (case to_str entry of
        None \<Rightarrow> None
      | Some name \<Rightarrow>
          if CHR '':'' \<in> set name \<or> CHR ''-'' \<notin> set name then None
          else
            let p = join ''/sys/bus/usb/devices'' name;
                busnum = (case read_sysfs_u32 os (join p ''busnum'') w of Some n \<Rightarrow> n | None \<Rightarrow> 0);
                devnum = (case read_sysfs_u32 os (join p ''devnum'') w of Some n \<Rightarrow> n | None \<Rightarrow> 0)
            in if busnum = ucast bus \<and> devnum = ucast addr then strip_prefix (show_word bus @ ''-'') name
               else None)"

definition port_path_for_address ::
  "'w os \<Rightarrow> u8 \<Rightarrow> u8 \<Rightarrow> 'w \<Rightarrow> (anyhow, string) result" where
  "port_path_for_address os bus addr w =
     (case os_read_dir os ''/sys/bus/usb/devices'' w of
        Inl e \<Rightarrow> Err [''reading /sys/bus/usb/devices'', e]
      | Inr entries \<Rightarrow>
          (case List.map_filter (entry_port_path os bus addr w) (List.map_filter ok entries) of
             rest # _ \<Rightarrow> Ok rest
           | [] \<Rightarrow> Err [''no sysfs device matches bus='' @ show_word bus @ '' address='' @ show_word addr]))"

section \<open>Binding and unbinding\<close>

definition device_file :: "string \<Rightarrow> string \<Rightarrow> string" where
  "device_file busid f = ''/sys/bus/usb/devices/'' @ busid @ ''/'' @ f"

definition is_bound :: "'w os \<Rightarrow> string \<Rightarrow> 'w \<Rightarrow> bool" where
  "is_bound os busid w =
     (case os_read_link os (device_file busid ''driver'') w of
        Inr target \<Rightarrow> file_name target = Some ''usbip-host''
      | Inl _ \<Rightarrow> False)"

fun wait_bound :: "'w os \<Rightarrow> string \<Rightarrow> nat \<Rightarrow> 'w \<Rightarrow> (anyhow, unit) result \<times> 'w" where
  "wait_bound os busid 0 w = (Err [busid @ '' did not bind to usbip-host''], w)"
| "wait_bound os busid (Suc n) w =
     (if is_bound os busid w then (Ok (), w) else wait_bound os busid n (os_sleep os 50 w))"

text \<open>Step 2: unbind from the current driver, unless it is none or \<open>usbip-host\<close> itself.\<close>

definition unbind_current :: "'w os \<Rightarrow> string \<Rightarrow> 'w \<Rightarrow> (anyhow, unit) result \<times> 'w" where
  "unbind_current os busid w =
     (case os_read_link os (device_file busid ''driver'') w of
        Inl _ \<Rightarrow> (Ok (), w)
      | Inr target \<Rightarrow>
          (case Option.bind (file_name target) to_str of
             None \<Rightarrow> (Ok (), w)
           | Some drv_name \<Rightarrow>
               if drv_name = ''usbip-host'' then (Ok (), w)
               else
                 (case open_and_write os (''/sys/bus/usb/drivers/'' @ drv_name @ ''/unbind'') busid w of
                    (Inl e, w) \<Rightarrow>
                      (Err [''unbinding '' @ busid @ '' from '' @ drv_name
                              @ '' (needed before usbip-host can claim it)'', e], w)
                  | (Inr _, w) \<Rightarrow> (Ok (), w))))"

definition usbip_bind :: "'w os \<Rightarrow> string \<Rightarrow> 'w \<Rightarrow> (anyhow, unit) result \<times> 'w" where
  "usbip_bind os busid w =
     (if is_bound os busid w then (Ok (), w)
      else
        (case ensure_module_loaded os w of
           (Inl e, w) \<Rightarrow> (Err e, w)
         | (Inr _, w) \<Rightarrow>
             let w = try_write os ''/sys/bus/usb/drivers/usbip-host/match_busid'' (''add '' @ busid) w in
             (case unbind_current os busid w of
                (Inl e, w) \<Rightarrow> (Err e, w)
              | (Inr _, w) \<Rightarrow>
                  let bind_path = ''/sys/bus/usb/drivers/usbip-host/bind'' in
                  (case os_open_write os bind_path w of
                     Inl e \<Rightarrow> (Err [''opening '' @ bind_path, e], w)
                   | Inr _ \<Rightarrow>
                       (case os_write_all os bind_path busid w of
                          (Inl e, w) \<Rightarrow> (Err [''binding '' @ busid @ '' to usbip-host'', e], w)
                        | (Inr _, w) \<Rightarrow> wait_bound os busid 20 w)))))"

definition usbip_unbind :: "'w os \<Rightarrow> string \<Rightarrow> 'w \<Rightarrow> (anyhow, unit) result \<times> 'w" where
  "usbip_unbind os busid w =
     (let w = (if is_bound os busid w
               then try_write os ''/sys/bus/usb/drivers/usbip-host/unbind'' busid w else w);
          w = try_write os ''/sys/bus/usb/drivers/usbip-host/match_busid'' (''del '' @ busid) w;
          w = try_write os ''/sys/bus/usb/drivers_probe'' busid w
      in (Ok (), w))"

section \<open>The exported device\<close>

record UsbipDeviceInfo =
  ui_busid :: string
  ui_bus_num :: u32
  ui_dev_num :: u32
  ui_speed :: u32
  ui_vendor_id :: u16
  ui_product_id :: u16
  ui_bcd_device :: u16
  ui_device_class :: u8
  ui_device_subclass :: u8
  ui_device_protocol :: u8
  ui_configuration_value :: u8
  ui_num_configurations :: u8
  ui_num_interfaces :: u8

definition and_then :: "('e, 'a) result \<Rightarrow> ('a \<Rightarrow> ('e, 'b) result) \<Rightarrow> ('e, 'b) result" where
  "and_then r f = (case r of Inl e \<Rightarrow> Err e | Inr a \<Rightarrow> f a)"

definition sysfs_hex :: "'w os \<Rightarrow> 'w \<Rightarrow> string \<Rightarrow> (anyhow, u32) result" where
  "sysfs_hex os w p =
     (case read_sysfs_string os p w of
        None \<Rightarrow> Err [''missing '' @ p]
      | Some s \<Rightarrow>
          io_context (''parsing '' @ p)
            (map_sum parse_int_error id (parse_word 16 (trim_start_matches ''0x'' s))))"

definition sysfs_dec :: "'w os \<Rightarrow> 'w \<Rightarrow> string \<Rightarrow> (anyhow, u32) result" where
  "sysfs_dec os w p =
     (case read_sysfs_u32 os p w of None \<Rightarrow> Err [''missing '' @ p] | Some n \<Rightarrow> Ok n)"

definition speed_code :: "string \<Rightarrow> u32" where
  "speed_code s =
     (if s = ''1.5'' then 1 else if s = ''12'' then 2 else if s = ''480'' then 3
      else if s = ''5000'' then 5 else if s = ''10000'' then 6 else 0)"

definition bcd_code :: "string \<Rightarrow> u16" where
  "bcd_code s =
     (let parts = split_on (\<lambda>c. c = CHR ''.'') s;
          maj = (case parse_ok (hd parts) of Some n \<Rightarrow> n | None \<Rightarrow> 0);
          min_str = (case tl parts of [] \<Rightarrow> ''00'' | x # _ \<Rightarrow> x);
          min = (case parse_ok min_str of Some n \<Rightarrow> n | None \<Rightarrow> 0)
      in push_bit 8 maj OR (min AND 0xFF))"

definition from_sysfs :: "'w os \<Rightarrow> string \<Rightarrow> 'w \<Rightarrow> (anyhow, UsbipDeviceInfo) result" where
  "from_sysfs os busid w =
     (let root = join ''/sys/bus/usb/devices'' busid;
          hex = (\<lambda>f. sysfs_hex os w (join root f));
          dec = (\<lambda>f. sysfs_dec os w (join root f)) in
      case read_sysfs_string os (join root ''speed'') w of
        None \<Rightarrow> Err [''missing speed'']
      | Some speed_str \<Rightarrow>
          and_then (dec ''busnum'') (\<lambda>bus_num.
          and_then (dec ''devnum'') (\<lambda>dev_num.
          and_then (hex ''idVendor'') (\<lambda>vendor.
          and_then (hex ''idProduct'') (\<lambda>prd.
          let bcd = bcd_code (case read_sysfs_string os (join root ''bcdDevice'') w of Some s \<Rightarrow> s | None \<Rightarrow> []) in
          and_then (hex ''bDeviceClass'') (\<lambda>cls.
          and_then (hex ''bDeviceSubClass'') (\<lambda>sub.
          and_then (hex ''bDeviceProtocol'') (\<lambda>proto.
          and_then (dec ''bConfigurationValue'') (\<lambda>cfg.
          and_then (dec ''bNumConfigurations'') (\<lambda>ncfg.
          and_then (dec ''bNumInterfaces'') (\<lambda>nif.
          Ok \<lparr>ui_busid = busid, ui_bus_num = bus_num, ui_dev_num = dev_num,
              ui_speed = speed_code speed_str,
              ui_vendor_id = ucast vendor, ui_product_id = ucast prd, ui_bcd_device = bcd,
              ui_device_class = ucast cls, ui_device_subclass = ucast sub, ui_device_protocol = ucast proto,
              ui_configuration_value = ucast cfg, ui_num_configurations = ucast ncfg,
              ui_num_interfaces = ucast nif\<rparr>)))))))))))"

text \<open>A fixed field of \<open>n\<close> bytes, filled from the front and cut where the text is longer.\<close>

definition fixed_field :: "nat \<Rightarrow> string \<Rightarrow> bytes" where
  "fixed_field n s = take n (as_bytes s) @ replicate (n - length s) 0"

definition to_wire_bytes :: "UsbipDeviceInfo \<Rightarrow> bytes" where
  "to_wire_bytes d =
     fixed_field 256 (''/sys/devices/pci0000:00/usb'' @ show_word (ui_bus_num d) @ ''/'' @ ui_busid d) @
     fixed_field 32 (ui_busid d) @
     to_be32 (ui_bus_num d) @ to_be32 (ui_dev_num d) @ to_be32 (ui_speed d) @
     to_be16 (ui_vendor_id d) @ to_be16 (ui_product_id d) @ to_be16 (ui_bcd_device d) @
     [ui_device_class d] @ [ui_device_subclass d] @ [ui_device_protocol d] @
     [ui_configuration_value d] @ [ui_num_configurations d] @ [ui_num_interfaces d]"

section \<open>Handing the socket over\<close>

definition attach_socket :: "'w os \<Rightarrow> string \<Rightarrow> 32 word \<Rightarrow> 'w \<Rightarrow> (anyhow, unit) result \<times> 'w" where
  "attach_socket os busid fd w =
     (let path = device_file busid ''usbip_sockfd'' in
      case os_open_write os path w of
        Inl e \<Rightarrow> (Err [''opening '' @ path, e], w)
      | Inr _ \<Rightarrow>
          (case os_write_all os path (show_i32 fd) w of
             (Inl e, w) \<Rightarrow> (Err [''writing fd '' @ show_i32 fd @ '' to '' @ path, e], w)
           | (Inr _, w) \<Rightarrow> (Ok (), w)))"

definition usbip_status :: "'w os \<Rightarrow> string \<Rightarrow> 'w \<Rightarrow> u32" where
  "usbip_status os busid w =
     (case read_sysfs_u32 os (device_file busid ''usbip_status'') w of Some n \<Rightarrow> n | None \<Rightarrow> 0)"

definition wait_until_detached :: "'w os \<Rightarrow> string \<Rightarrow> 'w \<Rightarrow> 'w option" where
  "wait_until_detached os busid w =
     poll_until (\<lambda>w. usbip_status os busid w \<noteq> 2) (os_sleep os 500) w"

section \<open>The device record on the wire\<close>

lemma length_fixed_field [simp]: "length (fixed_field n s) = n"
  by (simp add: fixed_field_def)

text \<open>The layout: 256 bytes of path, 32 bytes of bus id, then the numbers in network byte order.\<close>

lemma wire_bytes_layout:
  "length (to_wire_bytes d) = 312 \<and>
   take 256 (to_wire_bytes d) =
     fixed_field 256 (''/sys/devices/pci0000:00/usb'' @ show_word (ui_bus_num d) @ ''/'' @ ui_busid d) \<and>
   take 32 (drop 256 (to_wire_bytes d)) = fixed_field 32 (ui_busid d) \<and>
   be32_at (to_wire_bytes d) 288 = ui_bus_num d \<and> be32_at (to_wire_bytes d) 292 = ui_dev_num d \<and>
   be32_at (to_wire_bytes d) 296 = ui_speed d \<and>
   be16_at (to_wire_bytes d) 300 = ui_vendor_id d \<and> be16_at (to_wire_bytes d) 302 = ui_product_id d \<and>
   be16_at (to_wire_bytes d) 304 = ui_bcd_device d \<and>
   drop 306 (to_wire_bytes d) = [ui_device_class d, ui_device_subclass d, ui_device_protocol d,
     ui_configuration_value d, ui_num_configurations d, ui_num_interfaces d]"
  by (simp add: to_wire_bytes_def be32.get_skip be16.get_skip be32.get_here be16.get_here
      del: append_assoc)

lemma char_of_nat_zero: "char_of (0 :: nat) = CHR 0x00"
  by (simp add: char_of_def)

lemma fixed_field_text:
  assumes "CHR 0x00 \<notin> set s" "length s \<le> n"
  shows "of_bytes (takeWhile (\<lambda>b. b \<noteq> 0) (fixed_field n s)) = s"
proof -
  have nz: "b \<noteq> 0" if b: "b \<in> set (as_bytes s)" for b :: u8
  proof
    assume "b = 0"
    with b obtain c where "c \<in> set s" "(of_char c :: u8) = 0" by (auto simp: as_bytes_def)
    then have "(of_char c :: nat) = 0" using unat_of_char [of c] by simp
    then have "c = CHR 0x00" using char_of_char [of c] by (metis char_of_nat_zero)
    with \<open>c \<in> set s\<close> assms(1) show False by simp
  qed
  have "takeWhile (\<lambda>b. b \<noteq> 0) (as_bytes s @ replicate (n - length s) 0) = as_bytes s"
    using nz by (subst takeWhile_append2) auto
  then show ?thesis using assms(2) by (simp add: fixed_field_def)
qed

text \<open>C36: the device record is 312 bytes long and loses nothing about the device: when the bus ids
  have no NUL and fit their field, two devices with the same record are the same device.\<close>

theorem wire_bytes_injective:
  assumes "CHR 0x00 \<notin> set (ui_busid d)" "length (ui_busid d) \<le> 32"
    and "CHR 0x00 \<notin> set (ui_busid e)" "length (ui_busid e) \<le> 32"
  shows "length (to_wire_bytes d) = 312 \<and> (to_wire_bytes d = to_wire_bytes e \<longleftrightarrow> d = e)"
proof -
  have "d = e" if eq: "to_wire_bytes d = to_wire_bytes e"
  proof -
    note de = wire_bytes_layout [of d, unfolded eq] wire_bytes_layout [of e]
    have "ui_busid d = ui_busid e"
      using de fixed_field_text [OF assms(1,2)] fixed_field_text [OF assms(3,4)] by simp
    moreover have "ui_bus_num d = ui_bus_num e" "ui_dev_num d = ui_dev_num e" "ui_speed d = ui_speed e"
      "ui_vendor_id d = ui_vendor_id e" "ui_product_id d = ui_product_id e"
      "ui_bcd_device d = ui_bcd_device e"
      using de by simp_all
    moreover have "[ui_device_class d, ui_device_subclass d, ui_device_protocol d,
        ui_configuration_value d, ui_num_configurations d, ui_num_interfaces d] =
      [ui_device_class e, ui_device_subclass e, ui_device_protocol e,
        ui_configuration_value e, ui_num_configurations e, ui_num_interfaces e]"
      using de by simp
    ultimately show "d = e" by (cases d; cases e) simp
  qed
  then show ?thesis using wire_bytes_layout [of d] by blast
qed

definition sample_export :: "string \<Rightarrow> UsbipDeviceInfo" where
  "sample_export busid = \<lparr>ui_busid = busid, ui_bus_num = 1, ui_dev_num = 5, ui_speed = 3,
     ui_vendor_id = 0x046D, ui_product_id = 0x0825, ui_bcd_device = 0x0012, ui_device_class = 239,
     ui_device_subclass = 2, ui_device_protocol = 1, ui_configuration_value = 1,
     ui_num_configurations = 1, ui_num_interfaces = 4\<rparr>"

theorem wire_bytes_injective_witness:
  "to_wire_bytes (sample_export ''1-2'') \<noteq> to_wire_bytes (sample_export ''1-2.3'')"
  using wire_bytes_injective [of "sample_export ''1-2''" "sample_export ''1-2.3''"]
  by (simp add: sample_export_def)

section \<open>Finding the device\<close>

lemma to_str_Some: "to_str s = Some t \<Longrightarrow> t = s"
  by (auto simp: to_str_def split: if_splits)

definition sysfs_number :: "'w os \<Rightarrow> string \<Rightarrow> string \<Rightarrow> 'w \<Rightarrow> u32" where
  "sysfs_number os name f w =
     (case read_sysfs_u32 os (join (join ''/sys/bus/usb/devices'' name) f) w of Some n \<Rightarrow> n | None \<Rightarrow> 0)"

lemma entry_port_path_Some:
  "entry_port_path os bus addr w name = Some rest \<longleftrightarrow>
     to_str name = Some name \<and> CHR '':'' \<notin> set name \<and>
     sysfs_number os name ''busnum'' w = ucast bus \<and> sysfs_number os name ''devnum'' w = ucast addr \<and>
     name = sysfs_busid bus rest"
  by (auto simp: entry_port_path_def sysfs_number_def Let_def strip_prefix_Some sysfs_busid_def
      dest: to_str_Some split: option.splits if_splits)

text \<open>C39: the sysfs name of a device is found by its numbers: the port path returned for a bus
  and address completes to the name of a directory entry that is no interface and whose
  \<open>busnum\<close> and \<open>devnum\<close> are these, and a port path is returned whenever the directory has such
  an entry.\<close>

theorem port_path_finds_device:
  assumes "os_read_dir os ''/sys/bus/usb/devices'' w = Ok entries"
  shows "(\<forall>rest. port_path_for_address os bus addr w = Ok rest \<longrightarrow>
            Ok (sysfs_busid bus rest) \<in> set entries \<and> CHR '':'' \<notin> set (sysfs_busid bus rest) \<and>
            sysfs_number os (sysfs_busid bus rest) ''busnum'' w = ucast bus \<and>
            sysfs_number os (sysfs_busid bus rest) ''devnum'' w = ucast addr) \<and>
    (\<forall>rest. Ok (sysfs_busid bus rest) \<in> set entries \<and> to_str (sysfs_busid bus rest) \<noteq> None \<and>
            CHR '':'' \<notin> set (sysfs_busid bus rest) \<and>
            sysfs_number os (sysfs_busid bus rest) ''busnum'' w = ucast bus \<and>
            sysfs_number os (sysfs_busid bus rest) ''devnum'' w = ucast addr \<longrightarrow>
          (\<exists>found. port_path_for_address os bus addr w = Ok found))"
proof -
  let ?found = "List.map_filter (entry_port_path os bus addr w) (List.map_filter ok entries)"
  have mem: "rest \<in> set ?found \<longleftrightarrow>
      (\<exists>name. Ok name \<in> set entries \<and> entry_port_path os bus addr w name = Some rest)" for rest
    by (force simp: map_filter_def elim!: ok.elims)
  have res: "port_path_for_address os bus addr w = Ok rest \<Longrightarrow> rest \<in> set ?found"
    and none: "?found \<noteq> [] \<Longrightarrow> \<exists>r. port_path_for_address os bus addr w = Ok r" for rest
    using assms by (auto simp: port_path_for_address_def split: list.splits)
  have "?found \<noteq> []" if "rest \<in> set ?found" for rest using that by auto
  then show ?thesis
    using res none mem by (auto simp: entry_port_path_Some dest: to_str_Some) (metis to_str_Some)
qed

section \<open>Device versions\<close>

lemma mask_8: "(0xFF :: u16) = mask 8"
  by (simp add: mask_eq_exp_minus_1)

lemma push_bit_8_low: "push_bit 8 (w :: u16) AND 0xFF = 0"
  by (rule bit_word_eqI) (auto simp: mask_8 bit_simps)

lemma bcd_join:
  assumes "m < 256" "n < 256"
  shows "push_bit 8 (of_nat m) OR (of_nat n AND 0xFF) = (of_nat (256 * m + n) :: u16)"
proof -
  have n: "(of_nat n AND 0xFF) = (of_nat n :: u16)"
    using assms(2) by (simp add: mask_8 take_bit_eq_mask [symmetric] unsigned_take_bit_eq take_bit_nat_eq_self flip: of_nat_take_bit)
  have "push_bit 8 (of_nat m) AND (of_nat n :: u16) = push_bit 8 (of_nat m) AND (of_nat n AND 0xFF)"
    by (simp only: n)
  also have "\<dots> = (push_bit 8 (of_nat m) AND 0xFF) AND of_nat n"
    by (simp only: ac_simps)
  finally have "push_bit 8 (of_nat m) AND (of_nat n :: u16) = 0" by (simp only: push_bit_8_low and_zero_eq zero_and_eq)
  then have "push_bit 8 (of_nat m) OR of_nat n = push_bit 8 (of_nat m) + (of_nat n :: u16)"
    by (rule disjunctive_add_eq_or [symmetric])
  moreover have "push_bit 8 (of_nat m) = (of_nat (256 * m) :: u16)" by (simp add: push_bit_eq_mult)
  ultimately show ?thesis by (simp add: n)
qed

text \<open>C40: the device version is read as decimal text: \<open>m.n\<close> gives the word with \<open>m\<close> in the
  high byte and \<open>n\<close> in the low one, which for a two-digit part is not the binary coded decimal
  the text stands for; text without a dot (the kernel prints four hex digits) never sets the low
  byte at all.\<close>

theorem bcd_code_is_decimal:
  assumes "m < 256" "n < 256"
  shows "bcd_code (dec_str m @ ''.'' @ dec_str n) = of_nat (256 * m + n) \<and>
         bcd_code (dec_str m @ ''.0'' @ dec_str n) = of_nat (256 * m + n) \<and>
         (\<forall>s. CHR ''.'' \<notin> set s \<longrightarrow> bcd_code s AND 0xFF = 0)"
proof -
  have digits: "\<forall>c \<in> set (dec_str k). c \<noteq> CHR ''.''" for k
    using radix_str_digits [of 10 _ k] by (fastforce simp: digit_class_def)
  have parse: "parse_ok (dec_str k) = Some (of_nat k :: u16)" "parse_ok (CHR ''0'' # dec_str k) = Some (of_nat k :: u16)"
    if "k < 256" for k
  proof -
    have "from_str_radix 10 65535 (dec_str k) = Ok k" "from_str_radix 10 65535 (CHR ''0'' # dec_str k) = Ok k"
      using that from_str_radix_radix_str [of 10 k 65535]
        from_str_radix_zero_pad [of 10 k 65535 "Suc (length (dec_str k))"] by (simp_all add: zero_pad_def)
    then show "parse_ok (dec_str k) = Some (of_nat k :: u16)"
      "parse_ok (CHR ''0'' # dec_str k) = Some (of_nat k :: u16)"
      by (simp_all add: parse_ok_def parse_word_def)
  qed
  have join: "push_bit 8 (of_nat m) OR (of_nat n AND 0xFF) = (of_nat (256 * m + n) :: u16)"
    by (rule bcd_join [OF assms])
  have "bcd_code (dec_str m @ ''.'' @ dec_str n) = of_nat (256 * m + n)"
    "bcd_code (dec_str m @ ''.0'' @ dec_str n) = of_nat (256 * m + n)"
    using digits parse assms join
    by (simp_all add: bcd_code_def split_on_append_sep split_on_clean)
  moreover have "bcd_code s AND 0xFF = 0" if "CHR ''.'' \<notin> set s" for s
  proof -
    have "split_on (\<lambda>c. c = CHR ''.'') s = [s]" using that by (intro split_on_clean) auto
    moreover have "parse_ok ''00'' = Some (0 :: u16)"
      by (simp add: parse_ok_def parse_word_def from_str_radix_def to_digit_def)
    ultimately show ?thesis by (simp add: bcd_code_def push_bit_8_low)
  qed
  ultimately show ?thesis by blast
qed

theorem bcd_code_is_decimal_witness:
  "bcd_code (dec_str 2 @ ''.'' @ dec_str 10) = 0x020A"
  using bcd_code_is_decimal [of 2 10] by simp

section \<open>Binding\<close>

lemma wait_bound_Ok: "wait_bound os busid n w = (Ok (), w') \<Longrightarrow> is_bound os busid w'"
  by (induction n arbitrary: w) (auto split: if_splits)

text \<open>Binding is idempotent and reports success only for a device whose driver link leads to \<open>usbip-host\<close>.\<close>

lemma bind_binds:
  assumes "usbip_bind os busid w = (res, w')"
  shows "(res = Ok () \<longrightarrow> is_bound os busid w') \<and> (is_bound os busid w \<longrightarrow> res = Ok () \<and> w' = w)"
  using assms
  by (auto simp: usbip_bind_def Let_def dest: wait_bound_Ok split: if_splits sum.splits prod.splits)

section \<open>Waiting for the kernel\<close>

text \<open>Waiting for the kernel returns at the first poll at which the device is no longer in
  use (every poll half a second after the last), and it returns at all exactly when there is
  such a poll: a device that stays in use keeps it waiting for ever.\<close>

lemma wait_until_detached_returns:
  "(\<forall>w'. wait_until_detached os busid w = Some w' \<longrightarrow>
      (\<exists>n. w' = (os_sleep os 500 ^^ n) w \<and> usbip_status os busid w' \<noteq> 2 \<and>
        (\<forall>k < n. usbip_status os busid ((os_sleep os 500 ^^ k) w) = 2))) \<and>
   (wait_until_detached os busid w \<noteq> None \<longleftrightarrow> (\<exists>n. usbip_status os busid ((os_sleep os 500 ^^ n) w) \<noteq> 2))"
  unfolding wait_until_detached_def
  using poll_until_result poll_until_Some by fastforce

section \<open>A concrete system\<close>

lemma log_os_bind:
  "usbip_bind (log_os files names) ''1-2'' [] =
     (Ok (), [(''/sys/bus/usb/drivers/usbip-host/match_busid'', ''add 1-2''),
              (''/sys/bus/usb/drivers/usb/unbind'', ''1-2''),
              (''/sys/bus/usb/drivers/usbip-host/bind'', ''1-2'')])"
  by (simp add: usbip_bind_def is_bound_def ensure_module_loaded_def unbind_current_def try_write_def
      open_and_write_def log_os_def file_name_def to_str_def eval_nat_numeral)

theorem port_path_finds_device_witness:
  "\<exists>found. port_path_for_address
     (log_os [(''/sys/bus/usb/devices/1-2.3/busnum'', ''1''), (''/sys/bus/usb/devices/1-2.3/devnum'', ''7'')]
        [''usb1'', ''1-2.3:1.0'', ''1-2.3'']) 1 7 [] = Ok found"
proof -
  let ?os = "log_os [(''/sys/bus/usb/devices/1-2.3/busnum'', ''1''), (''/sys/bus/usb/devices/1-2.3/devnum'', ''7'')]
        [''usb1'', ''1-2.3:1.0'', ''1-2.3'']"
  have dir: "os_read_dir ?os ''/sys/bus/usb/devices'' [] = Ok [Ok ''usb1'', Ok ''1-2.3:1.0'', Ok ''1-2.3'']"
    by (simp add: log_os_def)
  have name: "sysfs_busid 1 ''2.3'' = ''1-2.3''" by (simp add: sysfs_busid_def dec_eval)
  have nums: "sysfs_number ?os ''1-2.3'' ''busnum'' [] = 1" "sysfs_number ?os ''1-2.3'' ''devnum'' [] = 7"
    by (simp_all add: sysfs_number_def read_sysfs_u32_def log_os_def join_def trim_def is_ws_def parse_ok_def
        parse_word_def from_str_radix_def to_digit_def)
  have "to_str ''1-2.3'' \<noteq> None" by (simp add: to_str_def)
  with port_path_finds_device [OF dir, of 1 7] name nums show ?thesis by auto
qed

text \<open>A system whose state counts the waits, and whose device is in use for the first three.\<close>

definition tick_os :: "nat os" where
  "tick_os =
     \<lparr>os_read_to_string = (\<lambda>_ n. Ok (if n < 3 then ''2'' else ''1'')), os_read_dir = (\<lambda>_ _. Ok []),
      os_read_link = (\<lambda>_ _. Err ''none''), os_is_dir = (\<lambda>_ _. True), os_exists = (\<lambda>_ _. True),
      os_open_write = (\<lambda>_ _. Ok ()), os_write_all = (\<lambda>_ _ n. (Ok (), n)),
      os_command = (\<lambda>_ _ n. (Ok True, n)), os_sleep = (\<lambda>_ n. n + 1)\<rparr>"

lemma wait_until_detached_returns_instance: "wait_until_detached tick_os ''1-2'' 0 \<noteq> None"
proof -
  have "(os_sleep tick_os 500 ^^ 3) 0 = 3" by (simp add: tick_os_def eval_nat_numeral)
  then have "usbip_status tick_os ''1-2'' ((os_sleep tick_os 500 ^^ 3) 0) \<noteq> 2"
    by (simp add: usbip_status_def read_sysfs_u32_def tick_os_def trim_def is_ws_def parse_ok_def
        parse_word_def from_str_radix_def to_digit_def)
  then show ?thesis using wait_until_detached_returns [of tick_os "''1-2''" 0] by blast
qed

end
