(* ===== verification/ServerBridge.thy ===== *)
theory ServerBridge
  imports KernelUsbip Protocol
begin

text \<open>
  \<open>src/src/server/bridge.rs\<close>: after the handshake and the \<open>Bridge\<close> request, the server answers the
  client's USB/IP import request itself and hands the socket to the kernel. The socket is a
  parameter, a record of the operations used of it over the same state as the operating system.
  Log output is left out, so \<open>run_bridge\<close> drops the error.
\<close>

section \<open>The socket\<close>

record 'w tcp =
  tcp_read_exact :: "nat \<Rightarrow> 'w \<Rightarrow> ((string, bytes) result \<times> 'w) option"
  tcp_write_all :: "bytes \<Rightarrow> 'w \<Rightarrow> ((string, unit) result \<times> 'w) option"
  tcp_flush :: "'w \<Rightarrow> (string, unit) result \<times> 'w"
  tcp_into_std :: "'w \<Rightarrow> (string, 32 word) result \<times> 'w"
  tcp_set_blocking :: "32 word \<Rightarrow> 'w \<Rightarrow> (string, unit) result \<times> 'w"

text \<open>
  The code sets no timeout on the socket, so reading waits for as long as the other side sends
  nothing and keeps the connection, and writing for as long as it does not read: then they do not
  return, which is \<open>None\<close>. Flushing a TCP stream does nothing. \<open>tcp_into_std\<close> gives the file
  descriptor of the standard library's socket. Documented behaviour of \<open>read_exact\<close>: on success
  exactly the bytes asked for.
\<close>

section \<open>The exchange\<close>

definition USBIP_VERSION :: u16 where "USBIP_VERSION = 0x0111"
definition OP_REQ_IMPORT :: u16 where "OP_REQ_IMPORT = 0x8003"
definition OP_REP_IMPORT :: u16 where "OP_REP_IMPORT = 0x0003"

text \<open>Waiting for the normal drivers after an early unbind, at most twenty times.\<close>

fun await_release :: "'w os \<Rightarrow> string \<Rightarrow> nat \<Rightarrow> 'w \<Rightarrow> 'w" where
  "await_release os busid 0 w = w"
| "await_release os busid (Suc n) w =
     (if \<not> is_bound os busid w \<and> os_exists os (device_file busid ''bConfigurationValue'') w then w
      else await_release os busid n (os_sleep os 100 w))"

definition import_reply :: "UsbipDeviceInfo \<Rightarrow> bytes" where
  "import_reply info = to_be16 USBIP_VERSION @ to_be16 OP_REP_IMPORT @ to_be32 0 @ to_wire_bytes info"

text \<open>From the import request on, with the device bound; it may wait for the client for ever.\<close>

definition serve_import ::
  "'w os \<Rightarrow> 'w tcp \<Rightarrow> string \<Rightarrow> UsbipDeviceInfo \<Rightarrow> 'w \<Rightarrow> ((anyhow, 32 word) result \<times> 'w) option" where
  "serve_import os sock busid info w =
     (case tcp_read_exact sock 40 w of
        None \<Rightarrow> None
      | Some (Inl e, w) \<Rightarrow> Some (Err [''reading OP_REQ_IMPORT'', e], w)
      | Some (Inr req, w) \<Rightarrow>
          let req_code = from_be16 (req ! 2) (req ! 3) in
          if req_code \<noteq> OP_REQ_IMPORT then
            Some (Err [''client sent unexpected USB/IP code 0x'' @ hex_pad 4 req_code @ '' (expected OP_REQ_IMPORT)''], w)
          else
            (case tcp_write_all sock (import_reply info) w of
               None \<Rightarrow> None
             | Some (Inl e, w) \<Rightarrow> Some (Err [''sending OP_REP_IMPORT'', e], w)
             | Some (Inr _, w) \<Rightarrow>
                 (case tcp_flush sock w of
                    (Inl e, w) \<Rightarrow> Some (Err [''flushing OP_REP_IMPORT'', e], w)
                  | (Inr _, w) \<Rightarrow>
                      (case tcp_into_std sock w of
                         (Inl e, w) \<Rightarrow> Some (Err [''converting stream to std for kernel handoff'', e], w)
                       | (Inr fd, w) \<Rightarrow>
                           (case tcp_set_blocking sock fd w of
                              (Inl e, w) \<Rightarrow> Some (Err [''setting socket blocking mode'', e], w)
                            | (Inr _, w) \<Rightarrow> Some (Ok fd, w))))))"

text \<open>
  The rest: the handover and the wait for the kernel, which may never end (\<open>None\<close>). The closure
  that waits runs to its end.
\<close>

definition hand_over ::
  "'w os \<Rightarrow> string \<Rightarrow> 32 word \<Rightarrow> 'w \<Rightarrow> ((anyhow, unit) result \<times> 'w) option" where
  "hand_over os busid fd w =
     (case attach_socket os busid fd w of
        (Inl e, w) \<Rightarrow>
          (case usbip_unbind os busid w of
             (_, w) \<Rightarrow> Some (Err (''kernel rejected usbip_sockfd attach'' # e), w))
      | (Inr _, w) \<Rightarrow>
          (case wait_until_detached os busid w of
             None \<Rightarrow> None
           | Some w \<Rightarrow> (case usbip_unbind os busid w of (_, w) \<Rightarrow> Some (Ok (), w))))"

definition run_bridge_inner ::
  "'w os \<Rightarrow> 'w tcp \<Rightarrow> DeviceId \<Rightarrow> 'w \<Rightarrow> ((anyhow, unit) result \<times> 'w) option" where
  "run_bridge_inner os sock target w =
     (case with_context (''resolving sysfs path for bus='' @ show_word (bus_number target)
                           @ '' address='' @ show_word (address target))
             (port_path_for_address os (bus_number target) (address target) w) of
        Inl e \<Rightarrow> Some (Err e, w)
      | Inr port_path \<Rightarrow>
          let busid = sysfs_busid (bus_number target) port_path;
              w = (if is_bound os busid w then await_release os busid 20 (snd (usbip_unbind os busid w)) else w)
          in
          (case with_context (''reading sysfs for '' @ busid) (from_sysfs os busid w) of
             Inl e \<Rightarrow> Some (Err e, w)
           | Inr info \<Rightarrow>
               (case usbip_bind os busid w of
                  (Inl e, w) \<Rightarrow> Some (Err ((''binding '' @ busid @ '' to usbip-host'') # e), w)
                | (Inr _, w) \<Rightarrow>
                    (case serve_import os sock busid info w of
                       None \<Rightarrow> None
                     | Some (Inl e, w) \<Rightarrow> Some (Err e, w)
                     | Some (Inr fd, w) \<Rightarrow> hand_over os busid fd w))))"

definition run_bridge :: "'w os \<Rightarrow> 'w tcp \<Rightarrow> DeviceId \<Rightarrow> 'w \<Rightarrow> 'w option" where
  "run_bridge os sock target w = map_option snd (run_bridge_inner os sock target w)"

text \<open>The same in phases, the first until the device is bound, before the socket is read.\<close>

definition bridge_prepare ::
  "'w os \<Rightarrow> DeviceId \<Rightarrow> 'w \<Rightarrow> (anyhow, string \<times> UsbipDeviceInfo) result \<times> 'w" where
  "bridge_prepare os target w =
     (case with_context (''resolving sysfs path for bus='' @ show_word (bus_number target)
                           @ '' address='' @ show_word (address target))
             (port_path_for_address os (bus_number target) (address target) w) of
        Inl e \<Rightarrow> (Err e, w)
      | Inr port_path \<Rightarrow>
          let busid = sysfs_busid (bus_number target) port_path;
              w = (if is_bound os busid w then await_release os busid 20 (snd (usbip_unbind os busid w)) else w)
          in
          (case with_context (''reading sysfs for '' @ busid) (from_sysfs os busid w) of
             Inl e \<Rightarrow> (Err e, w)
           | Inr info \<Rightarrow>
               (case usbip_bind os busid w of
                  (Inl e, w) \<Rightarrow> (Err ((''binding '' @ busid @ '' to usbip-host'') # e), w)
                | (Inr _, w) \<Rightarrow> (Ok (busid, info), w))))"

lemma run_bridge_phases:
  "run_bridge_inner os sock target w =
     (case bridge_prepare os target w of
        (Inl e, w) \<Rightarrow> Some (Err e, w)
      | (Inr (busid, info), w) \<Rightarrow>
          (case serve_import os sock busid info w of
             None \<Rightarrow> None
           | Some (Inl e, w) \<Rightarrow> Some (Err e, w)
           | Some (Inr fd, w) \<Rightarrow> hand_over os busid fd w))"
  by (simp add: run_bridge_inner_def bridge_prepare_def Let_def split: sum.splits prod.splits)

section \<open>What the bridge does\<close>

lemma length_import_reply [simp]: "length (import_reply info) = 320"
  using wire_bytes_layout [of info] by (simp add: import_reply_def)

lemma import_reply_fields:
  "be16_at (import_reply info) 0 = USBIP_VERSION" "be16_at (import_reply info) 2 = OP_REP_IMPORT"
  "be32_at (import_reply info) 4 = 0" "drop 8 (import_reply info) = to_wire_bytes info"
  by (simp_all add: import_reply_def be16.get_here be16.get_skip be32.get_skip be32.get_here)

lemma wait_forever:
  "wait_until_detached os busid w = None \<longleftrightarrow> (\<forall>n. usbip_status os busid ((os_sleep os 500 ^^ n) w) = 2)"
  using wait_until_detached_returns [of os busid w] by blast

lemma wait_ends:
  assumes "wait_until_detached os busid w = Some w'"
  shows "\<exists>n. w' = (os_sleep os 500 ^^ n) w \<and> usbip_status os busid ((os_sleep os 500 ^^ n) w) \<noteq> 2 \<and>
    (\<forall>k < n. usbip_status os busid ((os_sleep os 500 ^^ k) w) = 2)"
  using wait_until_detached_returns [of os busid w] assms by blast

lemma hand_over_None:
  "hand_over os busid fd w = None \<longleftrightarrow>
     (\<exists>w4. attach_socket os busid fd w = (Ok (), w4) \<and>
        (\<forall>n. usbip_status os busid ((os_sleep os 500 ^^ n) w4) = 2))"
  by (auto simp: hand_over_def wait_forever dest: wait_ends split: prod.splits sum.splits option.splits)

lemma hand_over_Ok:
  assumes "hand_over os busid fd w = Some (Ok (), w')"
  shows "\<exists>w4 n. attach_socket os busid fd w = (Ok (), w4) \<and>
    usbip_status os busid ((os_sleep os 500 ^^ n) w4) \<noteq> 2 \<and>
    (\<forall>k < n. usbip_status os busid ((os_sleep os 500 ^^ k) w4) = 2) \<and>
    w' = snd (usbip_unbind os busid ((os_sleep os 500 ^^ n) w4))"
proof -
  from assms obtain w4 w5 where a: "attach_socket os busid fd w = (Ok (), w4)"
    and "wait_until_detached os busid w4 = Some w5" and w': "w' = snd (usbip_unbind os busid w5)"
    by (auto simp: hand_over_def split: prod.splits sum.splits option.splits)
  from wait_ends [OF this(2)] a w' show ?thesis by blast
qed

lemma serve_import_None:
  "serve_import os sock busid info w = None \<longleftrightarrow>
     tcp_read_exact sock 40 w = None \<or>
     (\<exists>req w3. tcp_read_exact sock 40 w = Some (Ok req, w3) \<and> from_be16 (req ! 2) (req ! 3) = OP_REQ_IMPORT \<and>
        tcp_write_all sock (import_reply info) w3 = None)"
  by (cases "tcp_read_exact sock 40 w")
    (auto simp: serve_import_def Let_def split: option.splits prod.splits sum.splits)

text \<open>The sockets whose operations leave the driver links of sysfs alone.\<close>

definition tcp_frame :: "'w os \<Rightarrow> 'w tcp \<Rightarrow> bool" where
  "tcp_frame os sock \<longleftrightarrow>
     (\<forall>busid w n bs fd r r' w'.
        (tcp_read_exact sock n w = Some (r, w') \<longrightarrow> is_bound os busid w' = is_bound os busid w) \<and>
        (tcp_write_all sock bs w = Some (r', w') \<longrightarrow> is_bound os busid w' = is_bound os busid w) \<and>
        is_bound os busid (snd (tcp_flush sock w)) = is_bound os busid w \<and>
        is_bound os busid (snd (tcp_into_std sock w)) = is_bound os busid w \<and>
        is_bound os busid (snd (tcp_set_blocking sock fd w)) = is_bound os busid w)"

lemma tcp_frameD:
  assumes "tcp_frame os sock"
  shows "tcp_read_exact sock n w = Some (r1, w') \<Longrightarrow> is_bound os busid w' = is_bound os busid w"
    and "tcp_write_all sock bs w = Some (r2, w') \<Longrightarrow> is_bound os busid w' = is_bound os busid w"
    and "tcp_flush sock w = (r3, w') \<Longrightarrow> is_bound os busid w' = is_bound os busid w"
    and "tcp_into_std sock w = (r4, w') \<Longrightarrow> is_bound os busid w' = is_bound os busid w"
    and "tcp_set_blocking sock fd w = (r5, w') \<Longrightarrow> is_bound os busid w' = is_bound os busid w"
  using assms unfolding tcp_frame_def by (blast, blast, (metis snd_conv)+)

lemma serve_import_bound:
  assumes "tcp_frame os sock" "serve_import os sock busid info w = Some (res, w')"
  shows "is_bound os b w' = is_bound os b w"
  using assms(2)
  by (auto simp: serve_import_def Let_def tcp_frameD [OF assms(1)]
      split: option.splits sum.splits prod.splits if_splits)

lemma prepared_bound:
  "bridge_prepare os target w = (Ok (busid, info), w') \<Longrightarrow>
     is_bound os busid w' \<and>
     (\<exists>port_path. port_path_for_address os (bus_number target) (address target) w = Ok port_path \<and>
        busid = sysfs_busid (bus_number target) port_path)"
  by (auto simp: bridge_prepare_def Let_def with_context_def dest: bind_binds
      split: sum.splits prod.splits)

text \<open>C37: a bridge that fails between binding the device and handing over the socket leaves the
  device bound to \<open>usbip-host\<close>, away from its normal drivers, whether the bind found it with these
  drivers, released from an earlier bridge or still bound from it: when the client goes away, sends
  another request, cannot be answered or its socket cannot be converted, the error is returned with
  the device still bound. That is for sockets whose own operations leave sysfs alone.\<close>

theorem failed_exchange_leaves_device_bound:
  assumes "tcp_frame os sock"
    and "bridge_prepare os target w = (Ok (busid, info), w1)"
    and "serve_import os sock busid info w1 = Some (Err e, w2)"
  shows "run_bridge_inner os sock target w = Some (Err e, w2) \<and> is_bound os busid w2 \<and>
    (\<exists>port_path. port_path_for_address os (bus_number target) (address target) w = Ok port_path \<and>
       busid = sysfs_busid (bus_number target) port_path)"
  using prepared_bound [OF assms(2)] serve_import_bound [OF assms(1,3), of busid] assms(2,3)
  by (auto simp: run_bridge_phases)

lemma bridge_waits:
  "run_bridge_inner os sock target w = None \<longleftrightarrow>
     (\<exists>busid info w2. bridge_prepare os target w = (Ok (busid, info), w2) \<and>
       (serve_import os sock busid info w2 = None \<or>
        (\<exists>fd w3 w4. serve_import os sock busid info w2 = Some (Ok fd, w3) \<and>
           attach_socket os busid fd w3 = (Ok (), w4) \<and>
           (\<forall>n. usbip_status os busid ((os_sleep os 500 ^^ n) w4) = 2))))"
  by (auto simp: run_bridge_phases hand_over_None split: prod.splits sum.splits option.splits)

text \<open>C38: when the bridge returns, given that the calls of the operating system do: it goes on for ever
  in exactly three cases, each with the device bound: the client stays silent before its 40 bytes of
  request are there, the client asks for the import and then does not take the answer, or the kernel
  took the socket and its status says from then on, at every poll, that the device is in use. When it
  returns success, the import was answered and the socket handed over, and unbinding the device was
  the last thing done, at the first poll that found it released.\<close>

theorem bridge_returns:
  "(run_bridge_inner os sock target w = None \<longleftrightarrow>
     (\<exists>busid info w2. bridge_prepare os target w = (Ok (busid, info), w2) \<and> is_bound os busid w2 \<and>
       (tcp_read_exact sock 40 w2 = None \<or>
        (\<exists>req w3. tcp_read_exact sock 40 w2 = Some (Ok req, w3) \<and>
           from_be16 (req ! 2) (req ! 3) = OP_REQ_IMPORT \<and> tcp_write_all sock (import_reply info) w3 = None) \<or>
        (\<exists>fd w3 w4. serve_import os sock busid info w2 = Some (Ok fd, w3) \<and>
           attach_socket os busid fd w3 = (Ok (), w4) \<and>
           (\<forall>n. usbip_status os busid ((os_sleep os 500 ^^ n) w4) = 2))))) \<and>
   (run_bridge_inner os sock target w = Some (Ok (), w') \<longrightarrow>
     (\<exists>busid info fd w2 w3 w4 n. bridge_prepare os target w = (Ok (busid, info), w2) \<and>
        serve_import os sock busid info w2 = Some (Ok fd, w3) \<and>
        attach_socket os busid fd w3 = (Ok (), w4) \<and>
        usbip_status os busid ((os_sleep os 500 ^^ n) w4) \<noteq> 2 \<and>
        (\<forall>k < n. usbip_status os busid ((os_sleep os 500 ^^ k) w4) = 2) \<and>
        w' = snd (usbip_unbind os busid ((os_sleep os 500 ^^ n) w4))))"
proof (intro conjI impI)
  show "run_bridge_inner os sock target w = None \<longleftrightarrow>
     (\<exists>busid info w2. bridge_prepare os target w = (Ok (busid, info), w2) \<and> is_bound os busid w2 \<and>
       (tcp_read_exact sock 40 w2 = None \<or>
        (\<exists>req w3. tcp_read_exact sock 40 w2 = Some (Ok req, w3) \<and>
           from_be16 (req ! 2) (req ! 3) = OP_REQ_IMPORT \<and> tcp_write_all sock (import_reply info) w3 = None) \<or>
        (\<exists>fd w3 w4. serve_import os sock busid info w2 = Some (Ok fd, w3) \<and>
           attach_socket os busid fd w3 = (Ok (), w4) \<and>
           (\<forall>n. usbip_status os busid ((os_sleep os 500 ^^ n) w4) = 2))))"
    unfolding bridge_waits serve_import_None disj_assoc by (blast dest: prepared_bound)
next
  assume "run_bridge_inner os sock target w = Some (Ok (), w')"
  then obtain busid info w2 fd w3 where "bridge_prepare os target w = (Ok (busid, info), w2)"
    "serve_import os sock busid info w2 = Some (Ok fd, w3)" "hand_over os busid fd w3 = Some (Ok (), w')"
    by (auto simp: run_bridge_phases split: prod.splits sum.splits option.splits)
  with hand_over_Ok [of os busid fd w3 w']
  show "\<exists>busid info fd w2 w3 w4 n. bridge_prepare os target w = (Ok (busid, info), w2) \<and>
        serve_import os sock busid info w2 = Some (Ok fd, w3) \<and>
        attach_socket os busid fd w3 = (Ok (), w4) \<and>
        usbip_status os busid ((os_sleep os 500 ^^ n) w4) \<noteq> 2 \<and>
        (\<forall>k < n. usbip_status os busid ((os_sleep os 500 ^^ k) w4) = 2) \<and>
        w' = snd (usbip_unbind os busid ((os_sleep os 500 ^^ n) w4))" by blast
qed

section \<open>A failing client\<close>

text \<open>
  A client that goes away before it sends its request, one that stays and sends nothing, and one that
  asks for the import.
\<close>

definition gone_tcp :: "'w tcp" where
  "gone_tcp = \<lparr>tcp_read_exact = (\<lambda>_ w. Some (Err ''early eof'', w)), tcp_write_all = (\<lambda>_ w. Some (Ok (), w)),
     tcp_flush = (\<lambda>w. (Ok (), w)), tcp_into_std = (\<lambda>w. (Ok 7, w)), tcp_set_blocking = (\<lambda>_ w. (Ok (), w))\<rparr>"

definition silent_tcp :: "'w tcp" where
  "silent_tcp = gone_tcp\<lparr>tcp_read_exact := (\<lambda>_ _. None)\<rparr>"

definition asking_tcp :: "'w tcp" where
  "asking_tcp = gone_tcp\<lparr>tcp_read_exact := (\<lambda>n w. Some (Ok ([0x01, 0x11, 0x80, 0x03] @ replicate (n - 4) 0), w))\<rparr>"

definition webcam_files :: "(string \<times> string) list" where
  "webcam_files =
     [(''/sys/bus/usb/devices/1-2/busnum'', ''1''), (''/sys/bus/usb/devices/1-2/devnum'', ''5''),
      (''/sys/bus/usb/devices/1-2/speed'', ''480''), (''/sys/bus/usb/devices/1-2/idVendor'', ''46d''),
      (''/sys/bus/usb/devices/1-2/idProduct'', ''825''), (''/sys/bus/usb/devices/1-2/bcdDevice'', ''12''),
      (''/sys/bus/usb/devices/1-2/bDeviceClass'', ''ef''), (''/sys/bus/usb/devices/1-2/bDeviceSubClass'', ''2''),
      (''/sys/bus/usb/devices/1-2/bDeviceProtocol'', ''1''), (''/sys/bus/usb/devices/1-2/bConfigurationValue'', ''1''),
      (''/sys/bus/usb/devices/1-2/bNumConfigurations'', ''1''), (''/sys/bus/usb/devices/1-2/bNumInterfaces'', ''4'')]"

definition webcam_os :: "(string \<times> string) list os" where
  "webcam_os = log_os webcam_files [''1-2'']"

lemma webcam_busid: "sysfs_busid 1 ''2'' = ''1-2''" by (simp add: sysfs_busid_def dec_eval)

lemmas parse_eval = read_sysfs_u32_def read_sysfs_string_def join_def trim_def is_ws_def parse_ok_def
  parse_word_def from_str_radix_def to_digit_def

lemma webcam_port_path: "port_path_for_address webcam_os 1 5 [] = Ok ''2''"
  by (simp add: port_path_for_address_def map_filter_def entry_port_path_def to_str_def webcam_os_def
      webcam_files_def log_os_def parse_eval strip_prefix_def dec_eval)

lemma webcam_from_sysfs: "\<exists>info. from_sysfs webcam_os ''1-2'' [] = Ok info"
  by (simp add: from_sysfs_def and_then_def sysfs_hex_def sysfs_dec_def webcam_os_def webcam_files_def log_os_def parse_eval
      trim_start_matches.simps)

lemma webcam_prepared:
  "\<exists>info k1. bridge_prepare webcam_os \<lparr>bus_number = 1, address = 5\<rparr> [] = (Ok (''1-2'', info), k1)"
proof -
  obtain info where info: "from_sysfs webcam_os ''1-2'' [] = Ok info" using webcam_from_sysfs by blast
  obtain k1 where b: "usbip_bind webcam_os ''1-2'' [] = (Ok (), k1)"
    unfolding webcam_os_def log_os_bind by simp
  have "\<not> is_bound webcam_os ''1-2'' []"
    by (simp add: is_bound_def webcam_os_def log_os_def file_name_def)
  with info b show ?thesis by (simp add: bridge_prepare_def webcam_port_path webcam_busid)
qed

theorem failed_exchange_leaves_device_bound_witness:
  "\<exists>e w2. run_bridge_inner webcam_os gone_tcp \<lparr>bus_number = 1, address = 5\<rparr> [] = Some (Err e, w2) \<and>
     is_bound webcam_os ''1-2'' w2"
proof -
  obtain info w1 where p: "bridge_prepare webcam_os \<lparr>bus_number = 1, address = 5\<rparr> [] = (Ok (''1-2'', info), w1)"
    using webcam_prepared by blast
  have frame: "tcp_frame webcam_os gone_tcp" by (simp add: tcp_frame_def gone_tcp_def)
  have s: "serve_import webcam_os gone_tcp ''1-2'' info w1 = Some (Err [''reading OP_REQ_IMPORT'', ''early eof''], w1)"
    by (simp add: serve_import_def gone_tcp_def)
  from failed_exchange_leaves_device_bound [OF frame p s] show ?thesis by blast
qed

lemma webcam_no_status: "read_sysfs_u32 webcam_os (device_file busid ''usbip_status'') v = None"
proof -
  have "\<forall>k \<in> fst ` set webcam_files. take 2 (rev k) \<noteq> ''su''" by (simp add: webcam_files_def)
  moreover have "take 2 (rev (device_file busid ''usbip_status'')) = ''su''"
    by (simp add: device_file_def)
  ultimately have "device_file busid ''usbip_status'' \<notin> fst ` set webcam_files" by blast
  then have "map_of webcam_files (device_file busid ''usbip_status'') = None"
    by (simp only: map_of_eq_None_iff not_False_eq_True)
  then show ?thesis by (simp add: read_sysfs_u32_def webcam_os_def log_os_def)
qed

theorem bridge_returns_witness:
  "run_bridge_inner webcam_os silent_tcp \<lparr>bus_number = 1, address = 5\<rparr> [] = None \<and>
   (\<exists>w' w4 n. run_bridge_inner webcam_os asking_tcp \<lparr>bus_number = 1, address = 5\<rparr> [] = Some (Ok (), w') \<and>
      w' = snd (usbip_unbind webcam_os ''1-2'' ((os_sleep webcam_os 500 ^^ n) w4)))"
proof -
  let ?d = "\<lparr>bus_number = 1, address = 5\<rparr>"
  obtain info w1 where p: "bridge_prepare webcam_os ?d [] = (Ok (''1-2'', info), w1)" using webcam_prepared by blast
  have "tcp_read_exact silent_tcp 40 w1 = None" by (simp add: silent_tcp_def)
  with bridge_returns [of webcam_os silent_tcp ?d "[]"] p prepared_bound [OF p]
  have silent: "run_bridge_inner webcam_os silent_tcp ?d [] = None" by blast
  have s: "serve_import webcam_os asking_tcp ''1-2'' info w1 = Some (Ok 7, w1)"
    by (simp add: serve_import_def asking_tcp_def gone_tcp_def from_be16_def OP_REQ_IMPORT_def)
  obtain w2 where a: "attach_socket webcam_os ''1-2'' 7 w1 = (Ok (), w2)"
    by (simp add: attach_socket_def webcam_os_def log_os_def)
  have "usbip_status webcam_os ''1-2'' v \<noteq> 2" for v by (simp add: usbip_status_def webcam_no_status)
  then have "wait_until_detached webcam_os ''1-2'' w2 = Some w2"
    by (simp add: wait_until_detached_def poll_until.simps)
  then have "run_bridge_inner webcam_os asking_tcp ?d [] = Some (Ok (), snd (usbip_unbind webcam_os ''1-2'' w2))"
    by (simp add: run_bridge_phases p s hand_over_def a split: prod.splits)
  then obtain w' where "run_bridge_inner webcam_os asking_tcp ?d [] = Some (Ok (), w')" by blast
  with bridge_returns [of webcam_os asking_tcp ?d "[]" w'] p silent show ?thesis by auto
qed

end
