(* ===== verification/Session.thy ===== *)
theory Session
  imports Codec
begin

text \<open>
  \<open>src/src/client/session.rs\<close>: a client's connection to a server, one request and one answer at a
  time. The network is a parameter, a record of operations over its state \<open>'w\<close>, with \<open>'s\<close> for a
  stream and \<open>'t\<close> for a TLS connector; so are \<open>hmac\<close>, bincode's encoder \<open>enc\<close> and the text
  \<open>debug\<close> that \<open>{:?}\<close> gives a message. Log output is left out.
\<close>

section \<open>The network\<close>

record ('s, 't, 'w) net =
  net_connect :: "string \<Rightarrow> 'w \<Rightarrow> (string, 's) result \<times> 'w"
  net_server_name :: "string \<Rightarrow> (string, string) result"
  net_tls :: "'t \<Rightarrow> string \<Rightarrow> 's \<Rightarrow> 'w \<Rightarrow> (string, 's) result \<times> 'w"
  net_write :: "'s \<Rightarrow> bytes \<Rightarrow> 'w \<Rightarrow> (string, unit) result \<times> 'w"
  net_next :: "'s \<Rightarrow> 'w \<Rightarrow> (WolfUsbError, Message) result option \<times> 'w"
  net_nonce :: "'w \<Rightarrow> bytes \<times> 'w"

text \<open>
  \<open>net_write\<close> writes bytes and flushes them, \<open>net_next\<close> is the framed stream's next item (\<open>None\<close>
  at its end), \<open>net_nonce\<close> the 32 bytes the random number generator fills in. Sending a message
  encodes it, which may fail with the codec, and writes the frame.
\<close>

definition net_send ::
  "('s, 't, 'w) net \<Rightarrow> bincode_enc \<Rightarrow> 's \<Rightarrow> Message \<Rightarrow> 'w \<Rightarrow> (WolfUsbError, unit) result \<times> 'w" where
  "net_send net enc s m w =
     (case encode enc m [] of
        (Inl e, _) \<Rightarrow> (Err e, w)
      | (Inr _, frame) \<Rightarrow> apfst (map_sum ConnectionFailed id) (net_write net s frame w))"

text \<open>The \<open>?\<close> operator between steps that change the state.\<close>

definition try_then ::
  "('w \<Rightarrow> ('e, 'a) result \<times> 'w) \<Rightarrow> ('a \<Rightarrow> 'w \<Rightarrow> ('e, 'b) result \<times> 'w) \<Rightarrow> 'w \<Rightarrow> ('e, 'b) result \<times> 'w" where
  "try_then m f w = (case m w of (Inl e, w) \<Rightarrow> (Err e, w) | (Inr a, w) \<Rightarrow> f a w)"

lemma try_then_Ok: "m w = (Ok a, v) \<Longrightarrow> try_then m f w = f a v"
  by (simp add: try_then_def)

lemma try_then_Err: "m w = (Err e, v) \<Longrightarrow> try_then m f w = (Err e, v)"
  by (simp add: try_then_def)

section \<open>Connecting\<close>

record 's Session =
  framed :: 's
  server_name :: string

definition unexpected :: "(Message \<Rightarrow> string) \<Rightarrow> string \<Rightarrow> Message \<Rightarrow> WolfUsbError" where
  "unexpected debug what other = UnexpectedMessage what (debug other)"

text \<open>The host the certificate is checked against: what stands before the first colon.\<close>

definition tls_host :: "string \<Rightarrow> string" where
  "tls_host addr = hd (split_on (\<lambda>c. c = CHR '':'') addr)"

definition wrap_stream ::
  "('s, 't, 'w) net \<Rightarrow> string \<Rightarrow> 't option \<Rightarrow> 's \<Rightarrow> 'w \<Rightarrow> (WolfUsbError, 's) result \<times> 'w" where
  "wrap_stream net addr connector tcp w =
     (case connector of
        None \<Rightarrow> (Ok tcp, w)
      | Some tc \<Rightarrow>
          (case net_server_name net (tls_host addr) of
             Inl e \<Rightarrow> (Err (ProtocolError (''Invalid TLS server name: '' @ e)), w)
           | Inr name \<Rightarrow>
               apfst (map_sum (\<lambda>e. ProtocolError (''TLS handshake failed: '' @ e)) id)
                 (net_tls net tc name tcp w)))"

definition auth_proof :: "(bytes \<Rightarrow> bytes \<Rightarrow> bytes) \<Rightarrow> bytes option \<Rightarrow> bytes \<Rightarrow> bytes" where
  "auth_proof hmac key nonce = (case key of Some k \<Rightarrow> client_tag hmac k nonce | None \<Rightarrow> [])"

text \<open>What the client makes of the server's answer to its Hello.\<close>

definition check_hello ::
  "(bytes \<Rightarrow> bytes \<Rightarrow> bytes) \<Rightarrow> (Message \<Rightarrow> string) \<Rightarrow> bytes option \<Rightarrow> bytes \<Rightarrow> Message \<Rightarrow> (WolfUsbError, string) result" where
  "check_hello hmac debug key nonce response =
     (case response of
        HelloResponse resp \<Rightarrow>
          if \<not> hr_auth_accepted resp then
            Err (AuthenticationFailed (case hr_error_message resp of Some e \<Rightarrow> e | None \<Rightarrow> ''Unknown auth error''))
          else if (case key of Some k \<Rightarrow> hr_auth_challenge_response resp \<noteq> server_tag hmac k nonce | None \<Rightarrow> False) then
            Err (AuthenticationFailed ''Server HMAC verification failed'')
          else if hr_protocol_version resp \<noteq> PROTOCOL_VERSION then
            Err (VersionMismatch PROTOCOL_VERSION (hr_protocol_version resp))
          else Ok (hr_server_name resp)
      | _ \<Rightarrow> Err (unexpected debug ''HelloResponse'' response))"

definition net_recv :: "('s, 't, 'w) net \<Rightarrow> 's \<Rightarrow> 'w \<Rightarrow> (WolfUsbError, Message) result \<times> 'w" where
  "net_recv net s w =
     (case net_next net s w of (None, w) \<Rightarrow> (Err ConnectionClosed, w) | (Some r, w) \<Rightarrow> (r, w))"

definition session_connect ::
  "('s, 't, 'w) net \<Rightarrow> (bytes \<Rightarrow> bytes \<Rightarrow> bytes) \<Rightarrow> bincode_enc \<Rightarrow> (Message \<Rightarrow> string) \<Rightarrow> string \<Rightarrow> string \<Rightarrow>
     bytes option \<Rightarrow> 't option \<Rightarrow> 'w \<Rightarrow> (WolfUsbError, 's Session) result \<times> 'w" where
  "session_connect net hmac enc debug addr client_name key connector =
     try_then (\<lambda>w. apfst (map_sum ConnectionFailed id) (net_connect net addr w)) (\<lambda>tcp.
     try_then (wrap_stream net addr connector tcp) (\<lambda>s w.
     case net_nonce net w of (nonce, w) \<Rightarrow>
       try_then (net_send net enc s (Hello
         \<lparr>hq_protocol_version = PROTOCOL_VERSION, hq_client_name = client_name, hq_auth_nonce = nonce,
          hq_auth_proof = auth_proof hmac key nonce\<rparr>)) (\<lambda>_.
       try_then (net_recv net s) (\<lambda>response w.
         (map_sum id (\<lambda>name. \<lparr>framed = s, server_name = name\<rparr>)
            (check_hello hmac debug key nonce response), w))) w))"

section \<open>Requests\<close>

definition send_and_recv ::
  "('s, 't, 'w) net \<Rightarrow> bincode_enc \<Rightarrow> 's Session \<Rightarrow> Message \<Rightarrow> 'w \<Rightarrow> (WolfUsbError, Message) result \<times> 'w" where
  "send_and_recv net enc ses msg = try_then (net_send net enc (framed ses) msg) (\<lambda>_. net_recv net (framed ses))"

text \<open>The reading of an answer, then the request: \<open>request\<close> sends, receives and reads.\<close>

definition request ::
  "('s, 't, 'w) net \<Rightarrow> bincode_enc \<Rightarrow> (Message \<Rightarrow> (WolfUsbError, 'a) result) \<Rightarrow> 's Session \<Rightarrow> Message \<Rightarrow> 'w \<Rightarrow>
     (WolfUsbError, 'a) result \<times> 'w" where
  "request net enc read ses msg = try_then (send_and_recv net enc ses msg) (\<lambda>response w. (read response, w))"

definition read_device_list :: "(Message \<Rightarrow> string) \<Rightarrow> Message \<Rightarrow> (WolfUsbError, DeviceInfo list) result" where
  "read_device_list debug response =
     (case response of
        DeviceList resp \<Rightarrow> Ok (dl_devices resp)
      | Error e \<Rightarrow> Err (ProtocolError (er_message e))
      | other \<Rightarrow> Err (unexpected debug ''DeviceList'' other))"

definition session_list_devices ::
  "('s, 't, 'w) net \<Rightarrow> bincode_enc \<Rightarrow> (Message \<Rightarrow> string) \<Rightarrow> 's Session \<Rightarrow> 'w \<Rightarrow>
     (WolfUsbError, DeviceInfo list) result \<times> 'w" where
  "session_list_devices net enc debug ses = request net enc (read_device_list debug) ses ListDevices"

definition read_descriptors :: "(Message \<Rightarrow> string) \<Rightarrow> Message \<Rightarrow> (WolfUsbError, DeviceDescriptorTree) result" where
  "read_descriptors debug response =
     (case response of
        DescriptorData resp \<Rightarrow> Ok (ddr_descriptors resp)
      | Error e \<Rightarrow> Err (ProtocolError (er_message e))
      | other \<Rightarrow> Err (unexpected debug ''DescriptorData'' other))"

definition session_get_descriptors ::
  "('s, 't, 'w) net \<Rightarrow> bincode_enc \<Rightarrow> (Message \<Rightarrow> string) \<Rightarrow> 's Session \<Rightarrow> DeviceId \<Rightarrow> 'w \<Rightarrow>
     (WolfUsbError, DeviceDescriptorTree) result \<times> 'w" where
  "session_get_descriptors net enc debug ses did =
     request net enc (read_descriptors debug) ses (GetDescriptors \<lparr>gdq_device_id = did\<rparr>)"

definition or_text :: "string \<Rightarrow> string option \<Rightarrow> WolfUsbError" where
  "or_text text err = ProtocolError (case err of Some e \<Rightarrow> e | None \<Rightarrow> text)"

definition read_attach :: "(Message \<Rightarrow> string) \<Rightarrow> Message \<Rightarrow> (WolfUsbError, u64) result" where
  "read_attach debug response =
     (case response of
        AttachResult resp \<Rightarrow>
          if ar_success resp then
            (case ar_session_id resp of
               Some sid \<Rightarrow> Ok sid
             | None \<Rightarrow> Err (ProtocolError ''Server returned success but no session_id''))
          else Err (or_text ''Attach failed'' (ar_error_message resp))
      | Error e \<Rightarrow> Err (ProtocolError (er_message e))
      | other \<Rightarrow> Err (unexpected debug ''AttachResult'' other))"

definition session_attach ::
  "('s, 't, 'w) net \<Rightarrow> bincode_enc \<Rightarrow> (Message \<Rightarrow> string) \<Rightarrow> 's Session \<Rightarrow> DeviceId \<Rightarrow> 'w \<Rightarrow>
     (WolfUsbError, u64) result \<times> 'w" where
  "session_attach net enc debug ses did =
     request net enc (read_attach debug) ses (Attach \<lparr>aq_device_id = did\<rparr>)"

definition read_detach :: "(Message \<Rightarrow> string) \<Rightarrow> Message \<Rightarrow> (WolfUsbError, unit) result" where
  "read_detach debug response =
     (case response of
        DetachResult resp \<Rightarrow>
          if dr_success resp then Ok () else Err (or_text ''Detach failed'' (dr_error_message resp))
      | Error e \<Rightarrow> Err (ProtocolError (er_message e))
      | other \<Rightarrow> Err (unexpected debug ''DetachResult'' other))"

definition session_detach ::
  "('s, 't, 'w) net \<Rightarrow> bincode_enc \<Rightarrow> (Message \<Rightarrow> string) \<Rightarrow> 's Session \<Rightarrow> DeviceId \<Rightarrow> u64 \<Rightarrow> 'w \<Rightarrow>
     (WolfUsbError, unit) result \<times> 'w" where
  "session_detach net enc debug ses did sid =
     request net enc (read_detach debug) ses (Detach \<lparr>dq_device_id = did, dq_session_id = sid\<rparr>)"

definition read_transfer :: "(Message \<Rightarrow> string) \<Rightarrow> Message \<Rightarrow> (WolfUsbError, TransferResponse) result" where
  "read_transfer debug response =
     (case response of
        TransferResult resp \<Rightarrow> Ok resp
      | Error e \<Rightarrow> Err (ProtocolError (er_message e))
      | other \<Rightarrow> Err (unexpected debug ''TransferResult'' other))"

definition session_control_transfer ::
  "('s, 't, 'w) net \<Rightarrow> bincode_enc \<Rightarrow> (Message \<Rightarrow> string) \<Rightarrow> 's Session \<Rightarrow> ControlTransferRequest \<Rightarrow> 'w \<Rightarrow>
     (WolfUsbError, TransferResponse) result \<times> 'w" where
  "session_control_transfer net enc debug ses req =
     request net enc (read_transfer debug) ses (ControlTransfer req)"

definition session_bulk_transfer ::
  "('s, 't, 'w) net \<Rightarrow> bincode_enc \<Rightarrow> (Message \<Rightarrow> string) \<Rightarrow> 's Session \<Rightarrow> BulkTransferRequest \<Rightarrow> 'w \<Rightarrow>
     (WolfUsbError, TransferResponse) result \<times> 'w" where
  "session_bulk_transfer net enc debug ses req =
     request net enc (read_transfer debug) ses (BulkTransfer req)"

definition session_interrupt_transfer ::
  "('s, 't, 'w) net \<Rightarrow> bincode_enc \<Rightarrow> (Message \<Rightarrow> string) \<Rightarrow> 's Session \<Rightarrow> InterruptTransferRequest \<Rightarrow> 'w \<Rightarrow>
     (WolfUsbError, TransferResponse) result \<times> 'w" where
  "session_interrupt_transfer net enc debug ses req =
     request net enc (read_transfer debug) ses (InterruptTransfer req)"

definition read_claim :: "(Message \<Rightarrow> string) \<Rightarrow> Message \<Rightarrow> (WolfUsbError, unit) result" where
  "read_claim debug response =
     (case response of
        ClaimInterfaceResult resp \<Rightarrow>
          if cir_success resp then Ok () else Err (or_text ''Claim interface failed'' (cir_error_message resp))
      | Error e \<Rightarrow> Err (ProtocolError (er_message e))
      | other \<Rightarrow> Err (unexpected debug ''ClaimInterfaceResult'' other))"

definition session_claim_interface ::
  "('s, 't, 'w) net \<Rightarrow> bincode_enc \<Rightarrow> (Message \<Rightarrow> string) \<Rightarrow> 's Session \<Rightarrow> u64 \<Rightarrow> DeviceId \<Rightarrow> u8 \<Rightarrow> 'w \<Rightarrow>
     (WolfUsbError, unit) result \<times> 'w" where
  "session_claim_interface net enc debug ses sid did n =
     request net enc (read_claim debug) ses
       (ClaimInterface \<lparr>ciq_session_id = sid, ciq_device_id = did, ciq_interface_number = n\<rparr>)"

definition read_release :: "(Message \<Rightarrow> string) \<Rightarrow> Message \<Rightarrow> (WolfUsbError, unit) result" where
  "read_release debug response =
     (case response of
        ReleaseInterfaceResult resp \<Rightarrow>
          if rir_success resp then Ok () else Err (or_text ''Release interface failed'' (rir_error_message resp))
      | Error e \<Rightarrow> Err (ProtocolError (er_message e))
      | other \<Rightarrow> Err (unexpected debug ''ReleaseInterfaceResult'' other))"

definition session_release_interface ::
  "('s, 't, 'w) net \<Rightarrow> bincode_enc \<Rightarrow> (Message \<Rightarrow> string) \<Rightarrow> 's Session \<Rightarrow> u64 \<Rightarrow> DeviceId \<Rightarrow> u8 \<Rightarrow> 'w \<Rightarrow>
     (WolfUsbError, unit) result \<times> 'w" where
  "session_release_interface net enc debug ses sid did n =
     request net enc (read_release debug) ses
       (ReleaseInterface \<lparr>riq_session_id = sid, riq_device_id = did, riq_interface_number = n\<rparr>)"

definition read_configuration :: "(Message \<Rightarrow> string) \<Rightarrow> Message \<Rightarrow> (WolfUsbError, unit) result" where
  "read_configuration debug response =
     (case response of
        SetConfigurationResult resp \<Rightarrow>
          if scr_success resp then Ok () else Err (or_text ''Set configuration failed'' (scr_error_message resp))
      | Error e \<Rightarrow> Err (ProtocolError (er_message e))
      | other \<Rightarrow> Err (unexpected debug ''SetConfigurationResult'' other))"

definition session_set_configuration ::
  "('s, 't, 'w) net \<Rightarrow> bincode_enc \<Rightarrow> (Message \<Rightarrow> string) \<Rightarrow> 's Session \<Rightarrow> u64 \<Rightarrow> DeviceId \<Rightarrow> u8 \<Rightarrow> 'w \<Rightarrow>
     (WolfUsbError, unit) result \<times> 'w" where
  "session_set_configuration net enc debug ses sid did n =
     request net enc (read_configuration debug) ses
       (SetConfiguration \<lparr>scq_session_id = sid, scq_device_id = did, scq_configuration = n\<rparr>)"

end
