(* ===== verification/Loopback.thy ===== *)
theory Loopback
  imports Connection Session
begin

text \<open>
  The client of theory \<open>Session\<close> connected to the server of theory \<open>Connection\<close>: an instance of the
  client's network whose state holds the server's connection, the device manager, the USB state and
  the bytes on their way, and whether the server has
  handed the connection to its bridge. What the client writes is decoded by the codec and handled by the server's
  loop body; what the server answers is encoded by the codec and decoded again for the client.
\<close>

section \<open>The link\<close>

record ('h, 'u) link =
  lk_conn :: Connection
  lk_dm :: "'h DeviceManager"
  lk_usb :: 'u
  lk_up :: bytes
  lk_down :: bytes
  lk_open :: bool
  lk_handoff :: "DeviceId option"
  lk_nonce :: bytes

definition deliver ::
  "('u, 'd, 'h) rusb \<Rightarrow> (bytes \<Rightarrow> bytes \<Rightarrow> bytes) \<Rightarrow> bincode_enc \<Rightarrow> bincode_dec \<Rightarrow> bytes \<Rightarrow> ('h, 'u) link \<Rightarrow>
     (string, unit) result \<times> ('h, 'u) link" where
  "deliver usb hmac enc dec bs lk =
     (if \<not> lk_open lk then (Err ''Broken pipe'', lk)
      else
        (case decode dec (lk_up lk @ bs) of
           (Inl _, r) \<Rightarrow> (Ok (), lk\<lparr>lk_up := r, lk_open := False\<rparr>)
         | (Inr None, r) \<Rightarrow> (Ok (), lk\<lparr>lk_up := r\<rparr>)
         | (Inr (Some m), r) \<Rightarrow>
             (case conn_turn usb hmac enc
                     \<lparr>t_incoming = Frame m, t_join = None, t_send_ok = True, t_flush_ok = True\<rparr>
                     (lk_conn lk) (lk_dm lk) (lk_usb lk) of
                (fl, out, c, dm, u) \<Rightarrow>
                  (Ok (), lk\<lparr>lk_conn := c, lk_dm := dm, lk_usb := u, lk_up := r,
                             lk_down := lk_down lk @ concat (map (\<lambda>m. snd (encode enc m [])) out),
                             lk_open := (fl = Continue),
                             lk_handoff := (case fl of Break (Some target) \<Rightarrow> Some target | _ \<Rightarrow> lk_handoff lk)\<rparr>))))"

definition link_net ::
  "('u, 'd, 'h) rusb \<Rightarrow> (bytes \<Rightarrow> bytes \<Rightarrow> bytes) \<Rightarrow> bincode_enc \<Rightarrow> bincode_dec \<Rightarrow>
     (unit, unit, ('h, 'u) link) net" where
  "link_net usb hmac enc dec =
     \<lparr>net_connect = (\<lambda>_ lk. (Ok (), lk)), net_server_name = Ok, net_tls = (\<lambda>_ _ _ lk. (Ok (), lk)),
      net_write = (\<lambda>_. deliver usb hmac enc dec),
      net_next = (\<lambda>_ lk.
        (case decode dec (lk_down lk) of
           (Inl e, r) \<Rightarrow> (Some (Err e), lk\<lparr>lk_down := r\<rparr>)
         | (Inr None, r) \<Rightarrow> (None, lk\<lparr>lk_down := r\<rparr>)
         | (Inr (Some m), r) \<Rightarrow> (Some (Ok m), lk\<lparr>lk_down := r\<rparr>))),
      net_nonce = (\<lambda>lk. (lk_nonce lk, lk))\<rparr>"

definition idle :: "('h, 'u) link \<Rightarrow> bool" where
  "idle lk \<longleftrightarrow> lk_open lk \<and> lk_up lk = [] \<and> lk_down lk = []"

text \<open>A message that travels: bincode encodes it and the payload is within the frame limit.\<close>

definition travels :: "bincode_enc \<Rightarrow> Message \<Rightarrow> bool" where
  "travels enc m \<longleftrightarrow> (\<exists>p. enc m = Ok p \<and> length p \<le> 2 ^ 24)"

section \<open>The client's contract with its server\<close>

text \<open>
  What the client relies on: a request sent on an idle stream is answered, and the stream is idle
  again. From that, each of the client's requests is its reading of the answer.
\<close>

locale answered =
  fixes net :: "('s, 't, 'w) net" and enc :: bincode_enc and quiet :: "'w \<Rightarrow> bool"
    and answer :: "Message \<Rightarrow> 'w \<Rightarrow> (Message \<times> 'w) option"
  assumes sent: "quiet w \<Longrightarrow> travels enc m \<Longrightarrow> answer m w = Some (resp, w') \<Longrightarrow> travels enc resp \<Longrightarrow>
      \<exists>v. net_send net enc s m w = (Ok (), v) \<and> net_recv net s v = (Ok resp, w')"
    and quiet_after: "quiet w \<Longrightarrow> answer m w = Some (resp, w') \<Longrightarrow> quiet w'"
begin

lemma exchange:
  assumes "quiet w" "travels enc m" "answer m w = Some (resp, w')" "travels enc resp"
  shows "send_and_recv net enc ses m w = (Ok resp, w')" "request net enc read ses m w = (read resp, w')"
  using sent [OF assms, of "framed ses"] by (auto simp: request_def send_and_recv_def try_then_def)

lemma send_then_recv:
  assumes "quiet w" "travels enc m" "answer m w = Some (resp, w')" "travels enc resp"
  shows "try_then (net_send net enc s m) (\<lambda>_. try_then (net_recv net s) f) w = f resp w'"
  using sent [OF assms, of s] by (auto simp: try_then_def)

end

section \<open>The server answers\<close>

definition link_answer ::
  "('u, 'd, 'h) rusb \<Rightarrow> (bytes \<Rightarrow> bytes \<Rightarrow> bytes) \<Rightarrow> Message \<Rightarrow> ('h, 'u) link \<Rightarrow> (Message \<times> ('h, 'u) link) option" where
  "link_answer usb hmac m lk =
     (case handle_message usb hmac None (lk_conn lk) (lk_dm lk) m (lk_usb lk) of
        (Reply resp, c, dm, u) \<Rightarrow> Some (resp, lk\<lparr>lk_conn := c, lk_dm := dm, lk_usb := u\<rparr>)
      | (BridgeTo _ _, _) \<Rightarrow> None)"

lemma travels_encode:
  assumes "bincode_ok enc dec" "travels enc m"
  shows "\<exists>f. encode enc m [] = (Ok (), f) \<and> (\<forall>rest. decode dec (f @ rest) = (Ok (Some m), rest))"
proof -
  obtain p where p: "enc m = Ok p" "length p \<le> 2 ^ 24" using assms(2) by (auto simp: travels_def)
  then have "\<not> MAX_FRAME_SIZE < (of_nat (length p) :: u32)"
    by (simp add: word_less_nat_alt word_le_MAX_FRAME_SIZE unat_of_nat)
  then have e: "encode enc m [] = (Ok (), to_be32 (of_nat (length p)) @ p)"
    using p(1) by (simp add: encode_def)
  have "payload_fits enc m" using p by (simp add: payload_fits_def)
  from codec_frame [OF assms(1) e this] e show ?thesis by auto
qed

lemma deliver_message:
  assumes "bincode_ok enc dec" "idle lk" "travels enc m" "travels enc resp"
    and "handle_message usb hmac None (lk_conn lk) (lk_dm lk) m (lk_usb lk) = (Reply resp, c, dm, u)"
  shows "\<exists>v. net_send (link_net usb hmac enc dec) enc s m lk = (Ok (), v) \<and>
    net_recv (link_net usb hmac enc dec) s v = (Ok resp, lk\<lparr>lk_conn := c, lk_dm := dm, lk_usb := u\<rparr>)"
proof -
  obtain f g where f: "encode enc m [] = (Ok (), f)" "decode dec f = (Ok (Some m), [])"
    and g: "encode enc resp [] = (Ok (), g)" "decode dec g = (Ok (Some resp), [])"
    using travels_encode [OF assms(1,3)] travels_encode [OF assms(1,4)] by (metis append_Nil2)
  have "framed_send enc True resp" using g(1) by (simp add: framed_send_def)
  then have "net_send (link_net usb hmac enc dec) enc s m lk =
      (Ok (), lk\<lparr>lk_conn := c, lk_dm := dm, lk_usb := u, lk_down := g\<rparr>)"
    using f g(1) assms(2,5)
    by (cases lk) (simp add: net_send_def link_net_def deliver_def conn_turn_def idle_def)
  moreover have "net_recv (link_net usb hmac enc dec) s (lk\<lparr>lk_conn := c, lk_dm := dm, lk_usb := u, lk_down := g\<rparr>) =
      (Ok resp, lk\<lparr>lk_conn := c, lk_dm := dm, lk_usb := u\<rparr>)"
    using g(2) assms(2) by (cases lk) (simp add: net_recv_def link_net_def idle_def)
  ultimately show ?thesis by blast
qed

lemma deliver_bridge:
  assumes "bincode_ok enc dec" "idle lk" "travels enc m" "travels enc resp"
    and "handle_message usb hmac None (lk_conn lk) (lk_dm lk) m (lk_usb lk) = (BridgeTo resp target, c, dm, u)"
  shows "\<exists>g. net_send (link_net usb hmac enc dec) enc s m lk =
      (Ok (), lk\<lparr>lk_conn := c, lk_dm := dm, lk_usb := u, lk_down := g, lk_open := False, lk_handoff := Some target\<rparr>) \<and>
    decode dec g = (Ok (Some resp), [])"
proof -
  obtain f g where f: "encode enc m [] = (Ok (), f)" "decode dec f = (Ok (Some m), [])"
    and g: "encode enc resp [] = (Ok (), g)" "decode dec g = (Ok (Some resp), [])"
    using travels_encode [OF assms(1,3)] travels_encode [OF assms(1,4)] by (metis append_Nil2)
  have "framed_send enc True resp" using g(1) by (simp add: framed_send_def)
  then show ?thesis
    using f g assms(2,5)
    by (cases lk) (simp add: net_send_def link_net_def deliver_def conn_turn_def idle_def)
qed

lemma link_send:
  assumes "bincode_ok enc dec \<and> idle lk" "travels enc m"
    and "link_answer usb hmac m lk = Some (resp, lk')" "travels enc resp"
  shows "\<exists>v. net_send (link_net usb hmac enc dec) enc s m lk = (Ok (), v) \<and>
    net_recv (link_net usb hmac enc dec) s v = (Ok resp, lk')"
  using assms deliver_message [of enc dec lk m resp usb hmac]
  by (fastforce simp: link_answer_def split: prod.splits Action.splits)

lemma link_idle: "idle lk \<Longrightarrow> link_answer usb hmac m lk = Some (resp, lk') \<Longrightarrow> idle lk'"
  by (auto simp: link_answer_def idle_def split: prod.splits Action.splits)

interpretation link: answered "link_net usb hmac enc dec" enc "\<lambda>lk. bincode_ok enc dec \<and> idle lk"
  "link_answer usb hmac"
  for usb :: "('u, 'd, 'h) rusb" and hmac enc dec
  by unfold_locales (use link_send link_idle in blast)+

section \<open>The handshake\<close>

definition client_hello :: "(bytes \<Rightarrow> bytes \<Rightarrow> bytes) \<Rightarrow> string \<Rightarrow> bytes option \<Rightarrow> bytes \<Rightarrow> HelloRequest" where
  "client_hello hmac client_name key nonce =
     \<lparr>hq_protocol_version = PROTOCOL_VERSION, hq_client_name = client_name, hq_auth_nonce = nonce,
      hq_auth_proof = auth_proof hmac key nonce\<rparr>"

lemma link_hello:
  "link_answer usb hmac (Hello req) lk =
     (case handle_hello hmac (lk_conn lk) req of (m, c) \<Rightarrow> Some (m, lk\<lparr>lk_conn := c\<rparr>))"
  by (simp add: link_answer_def handle_message_def split: prod.splits)

lemma connect_over_link:
  assumes "bincode_ok enc dec" "idle lk" "travels enc (Hello (client_hello hmac name key (lk_nonce lk)))"
    and "handle_hello hmac (lk_conn lk) (client_hello hmac name key (lk_nonce lk)) = (resp, c)" "travels enc resp"
  shows "session_connect (link_net usb hmac enc dec) hmac enc debug addr name key tls lk =
    (map_sum id (\<lambda>n. \<lparr>framed = (), server_name = n\<rparr>) (check_hello hmac debug key (lk_nonce lk) resp), lk\<lparr>lk_conn := c\<rparr>)"
proof -
  have "link_answer usb hmac (Hello (client_hello hmac name key (lk_nonce lk))) lk = Some (resp, lk\<lparr>lk_conn := c\<rparr>)"
    by (simp add: link_hello assms(4))
  from link.send_then_recv [OF _ assms(3) this assms(5), of dec "()"] assms(1,2)
  have "try_then (net_send (link_net usb hmac enc dec) enc () (Hello (client_hello hmac name key (lk_nonce lk))))
      (\<lambda>_. try_then (net_recv (link_net usb hmac enc dec) ()) f) lk = f resp (lk\<lparr>lk_conn := c\<rparr>)" for f
    by blast
  moreover have "apfst (map_sum ConnectionFailed id) (net_connect (link_net usb hmac enc dec) addr lk) = (Ok (), lk)"
    by (simp add: link_net_def)
  moreover have "wrap_stream (link_net usb hmac enc dec) addr tls () lk = (Ok (), lk)"
    by (cases tls) (simp_all add: wrap_stream_def link_net_def)
  moreover have "net_nonce (link_net usb hmac enc dec) lk = (lk_nonce lk, lk)" by (simp add: link_net_def)
  ultimately show ?thesis by (simp add: session_connect_def try_then_Ok flip: client_hello_def)
qed

text \<open>C12: the handshake makes client and server agree: over a link that carries the two messages,
  connecting succeeds exactly when neither side has a key, or both have keys whose tags on this
  nonce agree, and then the server has authenticated the connection. A client without a key, or
  with a wrong one, is refused by a server with a key, which does not authenticate it; a client with
  a key refuses a server that has none. Nothing else of the server changes.\<close>

theorem handshake_agreement:
  assumes "bincode_ok enc dec" "idle lk" "\<forall>k d. length (hmac k d) = 32"
    and "travels enc (Hello (client_hello hmac name key (lk_nonce lk)))"
    and "travels enc (fst (handle_hello hmac (lk_conn lk) (client_hello hmac name key (lk_nonce lk))))"
  shows "session_connect (link_net usb hmac enc dec) hmac enc debug addr name key tls lk =
    (let welcome = Ok \<lparr>framed = (), server_name = ''wolfusb''\<rparr>;
         refused = Err (AuthenticationFailed ''Authentication failed'');
         distrust = Err (AuthenticationFailed ''Server HMAC verification failed'');
         known = lk\<lparr>lk_conn := (lk_conn lk)\<lparr>authenticated := True\<rparr>\<rparr>
     in case (key, shared_key (lk_conn lk)) of
          (None, None) \<Rightarrow> (welcome, known)
        | (None, Some _) \<Rightarrow> (refused, lk)
        | (Some _, None) \<Rightarrow> (distrust, known)
        | (Some k, Some k') \<Rightarrow>
            if client_tag hmac k (lk_nonce lk) \<noteq> client_tag hmac k' (lk_nonce lk) then (refused, lk)
            else if server_tag hmac k (lk_nonce lk) \<noteq> server_tag hmac k' (lk_nonce lk) then (distrust, known)
            else (welcome, known))"
proof -
  obtain resp c where h: "handle_hello hmac (lk_conn lk) (client_hello hmac name key (lk_nonce lk)) = (resp, c)"
    by fastforce
  have tags: "client_tag hmac k n \<noteq> []" "server_tag hmac k n \<noteq> []" for k n
    using assms(3) by (metis client_tag_def list.size(3) zero_neq_numeral,
        metis server_tag_def list.size(3) zero_neq_numeral)
  have "session_connect (link_net usb hmac enc dec) hmac enc debug addr name key tls lk =
    (map_sum id (\<lambda>n. \<lparr>framed = (), server_name = n\<rparr>) (check_hello hmac debug key (lk_nonce lk) resp), lk\<lparr>lk_conn := c\<rparr>)"
    using assms(5) h by (intro connect_over_link [OF assms(1,2,4)]) simp_all
  then show ?thesis
    using h tags by (cases key; cases "shared_key (lk_conn lk)"; cases lk)
      (auto simp: handle_hello_def client_hello_def auth_proof_def check_hello_def hello_refused_def
        hello_accepted_def Let_def tags [symmetric] split: if_splits)
qed

section \<open>An encoding of finitely many messages\<close>

definition table_enc :: "Message list \<Rightarrow> bincode_enc" where
  "table_enc ms m =
     (case map_of (zip ms [0..<length ms]) m of Some i \<Rightarrow> Ok [of_nat i] | None \<Rightarrow> Err ''unsupported'')"

definition table_dec :: "Message list \<Rightarrow> bincode_dec" where
  "table_dec ms p =
     (case p of [b] \<Rightarrow> if unat b < length ms then Ok (ms ! unat b, 1) else Err ''unexpected'' | _ \<Rightarrow> Err ''unexpected'')"

lemma table_bincode_ok: "length ms \<le> 256 \<Longrightarrow> bincode_ok (table_enc ms) (table_dec ms)"
proof -
  assume short: "length ms \<le> 256"
  have "table_dec ms [of_nat i] = Ok (m, 1)" if "map_of (zip ms [0..<length ms]) m = Some i" for m i
  proof -
    have "(m, i) \<in> set (zip ms [0..<length ms])" using that by (rule map_of_SomeD)
    then have "i < length ms" "ms ! i = m" by (auto simp: set_zip)
    with short show ?thesis by (simp add: table_dec_def unat_of_nat)
  qed
  then show ?thesis by (auto simp: bincode_ok_def table_enc_def split: option.splits)
qed

lemma table_travels: "m \<in> set ms \<Longrightarrow> travels (table_enc ms) m"
proof -
  assume "m \<in> set ms"
  then have "m \<in> fst ` set (zip ms [0..<length ms])" by (simp flip: set_map)
  then obtain i where "map_of (zip ms [0..<length ms]) m = Some i"
    by (metis map_of_eq_None_iff option.exhaust)
  then show ?thesis by (simp add: travels_def table_enc_def)
qed

definition sample_hmac :: "bytes \<Rightarrow> bytes \<Rightarrow> bytes" where
  "sample_hmac k d = take 32 (k @ d @ replicate 32 0)"

lemma length_sample_hmac [simp]: "length (sample_hmac k d) = 32"
  by (simp add: sample_hmac_def)

definition sample_link :: "bytes option \<Rightarrow> (u8 \<times> u8, unit) link" where
  "sample_link key =
     \<lparr>lk_conn = connection_new Plain ''peer'' key, lk_dm = dm_empty, lk_usb = (), lk_up = [], lk_down = [],
      lk_open = True, lk_handoff = None, lk_nonce = [1, 2, 3]\<rparr>"

theorem handshake_agreement_witness:
  "\<exists>enc dec. fst (session_connect (link_net (idle_usb []) sample_hmac enc dec) sample_hmac enc (\<lambda>_. [])
     ''host:7070'' ''c'' (Some [7]) None (sample_link (Some [7]))) = Ok \<lparr>framed = (), server_name = ''wolfusb''\<rparr>"
proof -
  let ?lk = "sample_link (Some [7])"
  let ?hello = "client_hello sample_hmac ''c'' (Some [7]) (lk_nonce ?lk)"
  let ?ms = "[Hello ?hello, fst (handle_hello sample_hmac (lk_conn ?lk) ?hello)]"
  have "session_connect (link_net (idle_usb []) sample_hmac (table_enc ?ms) (table_dec ?ms)) sample_hmac
      (table_enc ?ms) (\<lambda>_. []) ''host:7070'' ''c'' (Some [7]) None ?lk =
    (Ok \<lparr>framed = (), server_name = ''wolfusb''\<rparr>, ?lk\<lparr>lk_conn := (lk_conn ?lk)\<lparr>authenticated := True\<rparr>\<rparr>)"
    by (subst handshake_agreement)
      (simp_all add: table_bincode_ok table_travels,
       simp_all add: sample_link_def idle_def connection_new_def)
  then show ?thesis by (metis fst_conv)
qed

section \<open>Remote calls\<close>

text \<open>
  The calls a client makes of its session, and what they do in the abstract: an operation of the
  device manager, on the sessions of one connection. Errors are texts.
\<close>

datatype call =
  ListCall | DescriptorsCall DeviceId | AttachCall DeviceId | DetachCall DeviceId u64
| ControlCall ControlTransferRequest | BulkCall BulkTransferRequest | InterruptCall InterruptTransferRequest
| ClaimCall u64 DeviceId u8 | ReleaseCall u64 DeviceId u8 | ConfigureCall u64 DeviceId u8

datatype outcome =
  Listed "DeviceInfo list" | Described DeviceDescriptorTree | Opened u64 | Finished | Transferred TransferResponse

fun remote_call ::
  "('s, 't, 'w) net \<Rightarrow> bincode_enc \<Rightarrow> (Message \<Rightarrow> string) \<Rightarrow> 's Session \<Rightarrow> call \<Rightarrow> 'w \<Rightarrow>
     (WolfUsbError, outcome) result \<times> 'w" where
  "remote_call net enc debug ses ListCall w =
     apfst (map_sum id Listed) (session_list_devices net enc debug ses w)"
| "remote_call net enc debug ses (DescriptorsCall did) w =
     apfst (map_sum id Described) (session_get_descriptors net enc debug ses did w)"
| "remote_call net enc debug ses (AttachCall did) w =
     apfst (map_sum id Opened) (session_attach net enc debug ses did w)"
| "remote_call net enc debug ses (DetachCall did sid) w =
     apfst (map_sum id (\<lambda>_. Finished)) (session_detach net enc debug ses did sid w)"
| "remote_call net enc debug ses (ControlCall req) w =
     apfst (map_sum id Transferred) (session_control_transfer net enc debug ses req w)"
| "remote_call net enc debug ses (BulkCall req) w =
     apfst (map_sum id Transferred) (session_bulk_transfer net enc debug ses req w)"
| "remote_call net enc debug ses (InterruptCall req) w =
     apfst (map_sum id Transferred) (session_interrupt_transfer net enc debug ses req w)"
| "remote_call net enc debug ses (ClaimCall sid did n) w =
     apfst (map_sum id (\<lambda>_. Finished)) (session_claim_interface net enc debug ses sid did n w)"
| "remote_call net enc debug ses (ReleaseCall sid did n) w =
     apfst (map_sum id (\<lambda>_. Finished)) (session_release_interface net enc debug ses sid did n w)"
| "remote_call net enc debug ses (ConfigureCall sid did n) w =
     apfst (map_sum id (\<lambda>_. Finished)) (session_set_configuration net enc debug ses sid did n w)"

type_synonym ('h, 'u) local_state = "Connection \<times> 'h DeviceManager \<times> 'u"

definition failed_transfer :: "u64 \<Rightarrow> DeviceId \<Rightarrow> string \<Rightarrow> TransferResponse" where
  "failed_transfer sid did text =
     \<lparr>tr_session_id = sid, tr_device_id = did, tr_success = False, tr_data = [], tr_bytes_transferred = 0,
      tr_error_message = Some text\<rparr>"

text \<open>An operation on the manager for a session of the connection; a transfer on the session's device.\<close>

definition local_operation ::
  "('u, 'd, 'h) rusb \<Rightarrow> u64 \<Rightarrow> ('h DeviceManager \<Rightarrow> 'u \<Rightarrow> (WolfUsbError, unit) result \<times> 'h DeviceManager \<times> 'u) \<Rightarrow>
     ('h, 'u) local_state \<Rightarrow> (string, outcome) result \<times> ('h, 'u) local_state" where
  "local_operation usb sid f s =
     (case s of (c, dm, u) \<Rightarrow>
        if sid \<notin> dom (sessions c) then (Err ''Invalid session'', s)
        else (case f dm u of (res, dm, u) \<Rightarrow>
                (map_sum (error_to_string (ru_strerror usb)) (\<lambda>_. Finished) res, c, dm, u)))"

definition local_transfer ::
  "('u, 'd, 'h) rusb \<Rightarrow> u64 \<Rightarrow> DeviceId \<Rightarrow> ('h \<Rightarrow> 'u \<Rightarrow> TransferResponse \<times> 'u) \<Rightarrow> ('h, 'u) local_state \<Rightarrow>
     (string, outcome) result \<times> ('h, 'u) local_state" where
  "local_transfer usb sid did f s =
     (case s of (c, dm, u) \<Rightarrow>
        if sid \<notin> dom (sessions c) then (Ok (Transferred (failed_transfer sid did ''Invalid session'')), s)
        else
          (case (validate_session dm sid did, get_handle usb dm did u) of
             (Inl e, _) \<Rightarrow> (Ok (Transferred (failed_transfer sid did (error_to_string (ru_strerror usb) e))), s)
           | (_, Inl e) \<Rightarrow> (Ok (Transferred (failed_transfer sid did (error_to_string (ru_strerror usb) e))), s)
           | (_, Inr h) \<Rightarrow> (case f h u of (r, u) \<Rightarrow> (Ok (Transferred r), c, dm, u))))"

fun local_call ::
  "('u, 'd, 'h) rusb \<Rightarrow> call \<Rightarrow> ('h, 'u) local_state \<Rightarrow> (string, outcome) result \<times> ('h, 'u) local_state" where
  "local_call usb ListCall (c, dm, u) =
     (map_sum (error_to_string (ru_strerror usb)) Listed (list_devices usb u), c, dm, u)"
| "local_call usb (DescriptorsCall did) (c, dm, u) =
     (map_sum (error_to_string (ru_strerror usb)) Described (get_descriptors usb did u), c, dm, u)"
| "local_call usb (AttachCall did) (c, dm, u) =
     (case dm_attach usb dm did (peer_addr c) u of
        (Inr sid, dm, u) \<Rightarrow> (Ok (Opened sid), c\<lparr>sessions := (sessions c)(sid \<mapsto> did)\<rparr>, dm, u)
      | (Inl e, dm, u) \<Rightarrow> (Err (error_to_string (ru_strerror usb) e), c, dm, u))"
| "local_call usb (DetachCall did sid) (c, dm, u) =
     (if sid \<notin> dom (sessions c) then (Err ''Session does not belong to this connection'', c, dm, u)
      else (case dm_detach usb dm did sid u of (res, dm, u) \<Rightarrow>
              (map_sum (error_to_string (ru_strerror usb)) (\<lambda>_. Finished) res,
               c\<lparr>sessions := (sessions c)(sid := None)\<rparr>, dm, u)))"
| "local_call usb (ControlCall req) s =
     local_transfer usb (ctq_session_id req) (ctq_device_id req) (\<lambda>h. execute_control_transfer usb h req) s"
| "local_call usb (BulkCall req) s =
     local_transfer usb (btq_session_id req) (btq_device_id req) (\<lambda>h. execute_bulk_transfer usb h req) s"
| "local_call usb (InterruptCall req) s =
     local_transfer usb (itq_session_id req) (itq_device_id req) (\<lambda>h. execute_interrupt_transfer usb h req) s"
| "local_call usb (ClaimCall sid did n) s = local_operation usb sid (\<lambda>dm. dm_claim_interface usb dm did n) s"
| "local_call usb (ReleaseCall sid did n) s = local_operation usb sid (\<lambda>dm. dm_release_interface usb dm did n) s"
| "local_call usb (ConfigureCall sid did n) s = local_operation usb sid (\<lambda>dm. dm_set_configuration usb dm did n) s"

text \<open>A sequence of calls, at either level.\<close>

fun run_calls :: "(call \<Rightarrow> 'x \<Rightarrow> 'r \<times> 'x) \<Rightarrow> call list \<Rightarrow> 'x \<Rightarrow> 'r list \<times> 'x" where
  "run_calls f [] x = ([], x)"
| "run_calls f (k # ks) x = (case f k x of (r, x) \<Rightarrow> apfst ((#) r) (run_calls f ks x))"

subsection \<open>Requests and answers\<close>

fun call_request :: "call \<Rightarrow> Message" where
  "call_request ListCall = ListDevices"
| "call_request (DescriptorsCall did) = GetDescriptors \<lparr>gdq_device_id = did\<rparr>"
| "call_request (AttachCall did) = Attach \<lparr>aq_device_id = did\<rparr>"
| "call_request (DetachCall did sid) = Detach \<lparr>dq_device_id = did, dq_session_id = sid\<rparr>"
| "call_request (ControlCall req) = ControlTransfer req"
| "call_request (BulkCall req) = BulkTransfer req"
| "call_request (InterruptCall req) = InterruptTransfer req"
| "call_request (ClaimCall sid did n) =
     ClaimInterface \<lparr>ciq_session_id = sid, ciq_device_id = did, ciq_interface_number = n\<rparr>"
| "call_request (ReleaseCall sid did n) =
     ReleaseInterface \<lparr>riq_session_id = sid, riq_device_id = did, riq_interface_number = n\<rparr>"
| "call_request (ConfigureCall sid did n) =
     SetConfiguration \<lparr>scq_session_id = sid, scq_device_id = did, scq_configuration = n\<rparr>"

fun call_reading :: "(Message \<Rightarrow> string) \<Rightarrow> call \<Rightarrow> Message \<Rightarrow> (WolfUsbError, outcome) result" where
  "call_reading debug ListCall m = map_sum id Listed (read_device_list debug m)"
| "call_reading debug (DescriptorsCall _) m = map_sum id Described (read_descriptors debug m)"
| "call_reading debug (AttachCall _) m = map_sum id Opened (read_attach debug m)"
| "call_reading debug (DetachCall _ _) m = map_sum id (\<lambda>_. Finished) (read_detach debug m)"
| "call_reading debug (ClaimCall _ _ _) m = map_sum id (\<lambda>_. Finished) (read_claim debug m)"
| "call_reading debug (ReleaseCall _ _ _) m = map_sum id (\<lambda>_. Finished) (read_release debug m)"
| "call_reading debug (ConfigureCall _ _ _) m = map_sum id (\<lambda>_. Finished) (read_configuration debug m)"
| "call_reading debug _ m = map_sum id Transferred (read_transfer debug m)"

lemma request_map:
  "apfst (map_sum id g) (request net enc rd ses m w) = request net enc (\<lambda>x. map_sum id g (rd x)) ses m w"
  by (simp add: request_def try_then_def split: prod.splits sum.splits)

lemma remote_call_request:
  "remote_call net enc debug ses k w = request net enc (\<lambda>m. call_reading debug k m) ses (call_request k) w"
  by (cases k) (simp_all add: request_map session_list_devices_def session_get_descriptors_def session_attach_def
      session_detach_def session_control_transfer_def session_bulk_transfer_def session_interrupt_transfer_def
      session_claim_interface_def session_release_interface_def session_set_configuration_def
      call_reading.simps [abs_def])

definition admitted :: "Connection \<Rightarrow> bool" where
  "admitted c \<longleftrightarrow> shared_key c = None \<or> authenticated c"

lemmas reading_defs = read_device_list_def read_descriptors_def read_attach_def read_detach_def read_transfer_def
  read_claim_def read_release_def read_configuration_def or_text_def error_reply_def attach_failed_def
  detach_result_def transfer_error_def claim_result_def release_result_def configuration_result_def

lemmas handler_defs = handle_list_devices_def handle_get_descriptors_def handle_attach_def handle_detach_def
  handle_control_transfer_def handle_bulk_transfer_def handle_interrupt_transfer_def handle_claim_interface_def
  handle_release_interface_def handle_set_configuration_def authorize_transfer_def

lemmas local_defs = local_operation_def local_transfer_def failed_transfer_def

text \<open>The server's answer to a call, as the client reads it, is the abstract operation's outcome.\<close>

lemma server_performs_call:
  assumes "admitted c" "local_call usb k (c, dm, u) = (r, c', dm', u')"
  shows "(\<exists>resp. handle_message usb hmac None c dm (call_request k) u = (Reply resp, c', dm', u') \<and>
      call_reading debug k resp = map_sum ProtocolError id r) \<and> admitted c'"
proof -
  have key: "shared_key c \<noteq> None \<longrightarrow> authenticated c" using assms(1) by (auto simp: admitted_def)
  have "admitted c'"
    using assms by (cases k) (auto simp: admitted_def local_defs split: prod.splits sum.splits if_splits)
  moreover have "\<exists>resp. handle_message usb hmac None c dm (call_request k) u = (Reply resp, c', dm', u') \<and>
      call_reading debug k resp = map_sum ProtocolError id r"
    using assms(2) key
    by (cases k) (auto simp: handle_message_def handler_defs reading_defs local_defs dom_def
        split: prod.splits sum.splits if_splits)
  ultimately show ?thesis by blast
qed

text \<open>Every message on the way is one the link can carry.\<close>

fun carried ::
  "('u, 'd, 'h) rusb \<Rightarrow> (bytes \<Rightarrow> bytes \<Rightarrow> bytes) \<Rightarrow> bincode_enc \<Rightarrow> call list \<Rightarrow> ('h, 'u) link \<Rightarrow> bool" where
  "carried usb hmac enc [] lk = True"
| "carried usb hmac enc (k # ks) lk =
     (travels enc (call_request k) \<and>
      (case link_answer usb hmac (call_request k) lk of
         None \<Rightarrow> True
       | Some (resp, lk) \<Rightarrow> travels enc resp \<and> carried usb hmac enc ks lk))"

lemma remote_call_local:
  assumes "bincode_ok enc dec" "idle lk" "admitted (lk_conn lk)" "travels enc (call_request k)"
    and "\<forall>resp lk'. link_answer usb hmac (call_request k) lk = Some (resp, lk') \<longrightarrow> travels enc resp"
    and "local_call usb k (lk_conn lk, lk_dm lk, lk_usb lk) = (r, c', dm', u')"
  shows "\<exists>resp. link_answer usb hmac (call_request k) lk =
      Some (resp, lk\<lparr>lk_conn := c', lk_dm := dm', lk_usb := u'\<rparr>) \<and>
    remote_call (link_net usb hmac enc dec) enc debug ses k lk =
      (map_sum ProtocolError id r, lk\<lparr>lk_conn := c', lk_dm := dm', lk_usb := u'\<rparr>)"
    and "admitted c'"
proof -
  from server_performs_call [OF assms(3,6)] obtain resp where
    h: "handle_message usb hmac None (lk_conn lk) (lk_dm lk) (call_request k) (lk_usb lk) = (Reply resp, c', dm', u')"
    and read: "call_reading debug k resp = map_sum ProtocolError id r" and ad: "admitted c'" by blast
  from ad show "admitted c'" .
  from h have ans: "link_answer usb hmac (call_request k) lk =
      Some (resp, lk\<lparr>lk_conn := c', lk_dm := dm', lk_usb := u'\<rparr>)" by (simp add: link_answer_def)
  with assms(5) have "travels enc resp" by blast
  with link.exchange(2) [where read = "call_reading debug k" and dec = dec and ses = ses, OF _ assms(4) ans]
    assms(1,2) read ans
  show "\<exists>resp. link_answer usb hmac (call_request k) lk =
      Some (resp, lk\<lparr>lk_conn := c', lk_dm := dm', lk_usb := u'\<rparr>) \<and>
    remote_call (link_net usb hmac enc dec) enc debug ses k lk =
      (map_sum ProtocolError id r, lk\<lparr>lk_conn := c', lk_dm := dm', lk_usb := u'\<rparr>)"
    by (simp add: remote_call_request)
qed

text \<open>C6: on a connection that needs no key or has authenticated, and as long as every request and
  every answer can be encoded and fits the 16 MiB of a frame, the client and the server implement the
  device manager at a distance: any sequence of the client's calls gives, one by one, the results of
  the same operations done on the server's manager under the connection's sessions, errors as protocol
  errors with the operation's text, and leaves the connection, the manager and the USB state as these
  operations leave them, with nothing left on the way.\<close>

theorem remote_calls_refine_manager:
  assumes "bincode_ok enc dec" "idle lk" "admitted (lk_conn lk)" "carried usb hmac enc ks lk"
    and "run_calls (local_call usb) ks (lk_conn lk, lk_dm lk, lk_usb lk) = (rs, c', dm', u')"
  shows "run_calls (remote_call (link_net usb hmac enc dec) enc debug ses) ks lk =
    (map (map_sum ProtocolError id) rs, lk\<lparr>lk_conn := c', lk_dm := dm', lk_usb := u'\<rparr>)"
  using assms(2-5)
proof (induction ks arbitrary: lk rs)
  case (Cons k ks)
  obtain r c1 dm1 u1 where l: "local_call usb k (lk_conn lk, lk_dm lk, lk_usb lk) = (r, c1, dm1, u1)"
    by (metis prod_cases4)
  with Cons.prems(4) obtain rs' where
    rest: "run_calls (local_call usb) ks (c1, dm1, u1) = (rs', c', dm', u')" and rs: "rs = r # rs'"
    by (auto simp: apfst_def map_prod_def split: prod.splits)
  let ?lk = "lk\<lparr>lk_conn := c1, lk_dm := dm1, lk_usb := u1\<rparr>"
  have t: "travels enc (call_request k)"
    "\<forall>resp lk'. link_answer usb hmac (call_request k) lk = Some (resp, lk') \<longrightarrow> travels enc resp"
    using Cons.prems(3) by auto
  obtain resp where ans: "link_answer usb hmac (call_request k) lk = Some (resp, ?lk)"
    and "remote_call (link_net usb hmac enc dec) enc debug ses k lk = (map_sum ProtocolError id r, ?lk)"
    using remote_call_local(1) [OF assms(1) Cons.prems(1,2) t l] by blast
  moreover have ad: "admitted c1" by (rule remote_call_local(2) [OF assms(1) Cons.prems(1,2) t l])
  moreover have t3: "carried usb hmac enc ks ?lk" using Cons.prems(3) ans by simp
  moreover have "run_calls (remote_call (link_net usb hmac enc dec) enc debug ses) ks ?lk =
      (map (map_sum ProtocolError id) rs', ?lk\<lparr>lk_conn := c', lk_dm := dm', lk_usb := u'\<rparr>)"
    using Cons.prems(1) ad t3 rest by (intro Cons.IH) (simp_all add: idle_def)
  ultimately show ?case by (simp add: rs id_def)
qed simp

text \<open>A client that attaches a device and tries to attach it again.\<close>

theorem remote_calls_refine_manager_witness:
  "\<exists>enc dec. fst (run_calls (remote_call (link_net (idle_usb [(1, 2)]) sample_hmac enc dec) enc (\<lambda>_. [])
       \<lparr>framed = (), server_name = ''wolfusb''\<rparr>)
     [AttachCall sample_device, AttachCall sample_device] (sample_link None)) =
   [Ok (Opened 1), Err (ProtocolError (error_to_string (ru_strerror (idle_usb [(1, 2)])) DeviceAlreadyAttached))]"
proof -
  let ?usb = "idle_usb [(1, 2)]" and ?lk = "sample_link None"
  let ?lk1 = "?lk\<lparr>lk_conn := (lk_conn ?lk)\<lparr>sessions := [1 \<mapsto> sample_device]\<rparr>, lk_dm := sample_dm\<rparr>"
  let ?resp = "\<lambda>sid. AttachResult \<lparr>ar_device_id = sample_device, ar_success = True, ar_error_message = None,
      ar_session_id = Some sid\<rparr>"
  let ?text = "error_to_string (ru_strerror ?usb) DeviceAlreadyAttached"
  let ?ms = "[Attach \<lparr>aq_device_id = sample_device\<rparr>, ?resp 1, attach_failed sample_device ?text]"
  have again: "dm_attach ?usb sample_dm sample_device a () = (Err DeviceAlreadyAttached, sample_dm, ())" for a
    by (simp add: dm_attach_def sample_dm_def)
  have first: "link_answer ?usb sample_hmac (Attach \<lparr>aq_device_id = sample_device\<rparr>) ?lk = Some (?resp 1, ?lk1)"
    using sample_attach_message [of sample_hmac] by (simp add: link_answer_def sample_link_def)
  have second: "link_answer ?usb sample_hmac (Attach \<lparr>aq_device_id = sample_device\<rparr>) ?lk1 =
      Some (attach_failed sample_device ?text, ?lk1)"
    by (simp add: link_answer_def sample_link_def handle_message_def handle_attach_def again connection_new_def
        del: error_to_string.simps)
  have carried: "carried ?usb sample_hmac (table_enc ?ms) [AttachCall sample_device, AttachCall sample_device] ?lk"
    by (simp add: first second table_travels del: error_to_string.simps)
  have "run_calls (local_call ?usb) [AttachCall sample_device, AttachCall sample_device]
      (lk_conn ?lk, lk_dm ?lk, lk_usb ?lk) =
    ([Ok (Opened 1), Err ?text], lk_conn ?lk1, sample_dm, ())"
    using sample_attach by (simp add: sample_link_def again connection_new_def del: error_to_string.simps)
  from remote_calls_refine_manager [OF table_bincode_ok _ _ carried this]
  have "run_calls (remote_call (link_net ?usb sample_hmac (table_enc ?ms) (table_dec ?ms)) (table_enc ?ms) (\<lambda>_. [])
       \<lparr>framed = (), server_name = ''wolfusb''\<rparr>) [AttachCall sample_device, AttachCall sample_device] ?lk =
    (map (map_sum ProtocolError id) [Ok (Opened 1), Err ?text],
     ?lk\<lparr>lk_conn := lk_conn ?lk1, lk_dm := sample_dm, lk_usb := ()\<rparr>)"
    by (simp add: idle_def admitted_def sample_link_def connection_new_def del: error_to_string.simps)
  then show ?thesis
    by (intro exI [of _ "table_enc ?ms"] exI [of _ "table_dec ?ms"])
      (simp del: run_calls.simps remote_call.simps error_to_string.simps)
qed

end
