(* ===== verification/Typing.thy ===== *)
theory Typing
  imports Loopback
begin

text \<open>
  The types of the protocol's exchanges: which answers a request may get (\<open>src/src/protocol/messages.rs\<close>
  pairs them by name only), that the server of \<open>Connection\<close> gives no others, and that the client
  of \<open>Session\<close> reads all of them.
\<close>

section \<open>Requests and their answers\<close>

text \<open>A flag of success, and the text that goes with a failure and with nothing else.\<close>

abbreviation outcome_ok :: "bool \<Rightarrow> string option \<Rightarrow> bool" where
  "outcome_ok success err \<equiv> success \<longleftrightarrow> err = None"

fun transfer_typed :: "u64 \<Rightarrow> DeviceId \<Rightarrow> TransferResponse \<Rightarrow> bool" where
  "transfer_typed sid did r \<longleftrightarrow> tr_session_id r = sid \<and> tr_device_id r = did \<and>
     outcome_ok (tr_success r) (tr_error_message r) \<and> (\<not> tr_success r \<longrightarrow> tr_data r = [] \<and> tr_bytes_transferred r = 0)"

text \<open>The codes of the errors that may answer a message instead.\<close>

fun error_codes :: "Message \<Rightarrow> ErrorCode list" where
  "error_codes (Hello _) = []"
| "error_codes Ping = []"
| "error_codes ListDevices = [EC_AuthenticationFailed, EC_InternalError, EC_UsbError]"
| "error_codes (GetDescriptors _) = [EC_AuthenticationFailed, EC_InternalError, EC_DeviceNotFound]"
| "error_codes (Attach _) = [EC_AuthenticationFailed]"
| "error_codes (Detach _) = [EC_AuthenticationFailed]"
| "error_codes (ClaimInterface _) = [EC_AuthenticationFailed]"
| "error_codes (ReleaseInterface _) = [EC_AuthenticationFailed]"
| "error_codes (SetConfiguration _) = [EC_AuthenticationFailed]"
| "error_codes (Bridge _) = [EC_AuthenticationFailed]"
| "error_codes _ = [EC_AuthenticationFailed, EC_InternalError]"

fun response_to :: "Message \<Rightarrow> Message \<Rightarrow> bool" where
  "response_to q (HelloResponse r) \<longleftrightarrow>
     (case q of Hello _ \<Rightarrow> hr_protocol_version r = PROTOCOL_VERSION \<and>
        outcome_ok (hr_auth_accepted r) (hr_error_message r) \<and> (\<not> hr_auth_accepted r \<longrightarrow> hr_auth_challenge_response r = [])
      | _ \<Rightarrow> False)"
| "response_to q Pong \<longleftrightarrow> q = Ping"
| "response_to q (DeviceList _) \<longleftrightarrow> q = ListDevices"
| "response_to q (DescriptorData r) \<longleftrightarrow>
     (case q of GetDescriptors req \<Rightarrow> ddr_device_id r = gdq_device_id req \<and>
        di_device_id (tree_device (ddr_descriptors r)) = gdq_device_id req
      | _ \<Rightarrow> False)"
| "response_to q (AttachResult r) \<longleftrightarrow>
     (case q of Attach req \<Rightarrow> ar_device_id r = aq_device_id req \<and>
        outcome_ok (ar_success r) (ar_error_message r) \<and> (ar_success r \<longleftrightarrow> ar_session_id r \<noteq> None)
      | _ \<Rightarrow> False)"
| "response_to q (DetachResult r) \<longleftrightarrow>
     (case q of Detach req \<Rightarrow> dr_device_id r = dq_device_id req \<and> outcome_ok (dr_success r) (dr_error_message r)
      | _ \<Rightarrow> False)"
| "response_to q (TransferResult r) \<longleftrightarrow>
     (case transfer_target q of Some (sid, did) \<Rightarrow> transfer_typed sid did r | None \<Rightarrow> False)"
| "response_to q (ClaimInterfaceResult r) \<longleftrightarrow>
     (case q of ClaimInterface _ \<Rightarrow> outcome_ok (cir_success r) (cir_error_message r) | _ \<Rightarrow> False)"
| "response_to q (ReleaseInterfaceResult r) \<longleftrightarrow>
     (case q of ReleaseInterface _ \<Rightarrow> outcome_ok (rir_success r) (rir_error_message r) | _ \<Rightarrow> False)"
| "response_to q (SetConfigurationResult r) \<longleftrightarrow>
     (case q of SetConfiguration _ \<Rightarrow> outcome_ok (scr_success r) (scr_error_message r) | _ \<Rightarrow> False)"
| "response_to q (BridgeAccepted r) \<longleftrightarrow> (case q of Bridge req \<Rightarrow> ba_device_id r = bq_device_id req | _ \<Rightarrow> False)"
| "response_to q (BridgeRejected _) \<longleftrightarrow> (case q of Bridge _ \<Rightarrow> True | _ \<Rightarrow> False)"
| "response_to q (Error e) \<longleftrightarrow> er_code e \<in> set (error_codes q)"
| "response_to q _ \<longleftrightarrow> False"

section \<open>The server's answers\<close>

lemma transfer_error_typed: "transfer_error sid did text = TransferResult r \<Longrightarrow> transfer_typed sid did r"
  by (auto simp: transfer_error_def)

lemma execute_typed:
  "execute_control_transfer usb h creq w = (r, w') \<Longrightarrow> transfer_typed (ctq_session_id creq) (ctq_device_id creq) r"
  "execute_bulk_transfer usb h breq w = (r, w') \<Longrightarrow> transfer_typed (btq_session_id breq) (btq_device_id breq) r"
  "execute_interrupt_transfer usb h ireq w = (r, w') \<Longrightarrow> transfer_typed (itq_session_id ireq) (itq_device_id ireq) r"
  by (auto simp: execute_control_transfer_def execute_bulk_transfer_def execute_interrupt_transfer_def
      capped_length_def Let_def split: if_splits prod.splits sum.splits)

lemma authorize_typed:
  "authorize_transfer usb c dm sid did w = Err m \<Longrightarrow> \<exists>r. m = TransferResult r \<and> transfer_typed sid did r"
  by (auto simp: authorize_transfer_def transfer_error_def split: if_splits sum.splits)

lemma get_descriptors_device:
  "get_descriptors usb did w = Ok tree \<Longrightarrow> di_device_id (tree_device tree) = did"
  by (auto simp: get_descriptors_def tree_device_info_def Let_def split: sum.splits)

fun act_message :: "Action \<Rightarrow> Message" where
  "act_message (Reply m) = m"
| "act_message (BridgeTo m _) = m"

lemmas typed_defs = handle_hello_def hello_refused_def hello_accepted_def handle_list_devices_def
  handle_get_descriptors_def handle_attach_def attach_failed_def handle_detach_def detach_result_def
  handle_control_transfer_def handle_bulk_transfer_def handle_interrupt_transfer_def
  handle_claim_interface_def claim_result_def handle_release_interface_def release_result_def
  handle_set_configuration_def configuration_result_def handle_bridge_def error_reply_def

lemma message_answered:
  assumes "handle_message usb hmac jn c dm msg w = (act, c', dm', w')"
  shows "response_to msg (act_message act)"
    and "act = BridgeTo m target \<Longrightarrow> \<exists>q r. msg = Bridge q \<and> m = BridgeAccepted r \<and> target = bq_device_id q"
proof -
  show "response_to msg (act_message act)"
  proof (cases msg)
    case (ControlTransfer req)
    with assms show ?thesis
      by (cases "authorize_transfer usb c dm (ctq_session_id req) (ctq_device_id req) w")
        (auto simp: handle_message_def typed_defs simp del: transfer_typed.simps dest: authorize_typed execute_typed
          split: if_splits option.splits prod.splits)
  next
    case (BulkTransfer req)
    with assms show ?thesis
      by (cases "authorize_transfer usb c dm (btq_session_id req) (btq_device_id req) w")
        (auto simp: handle_message_def typed_defs simp del: transfer_typed.simps dest: authorize_typed execute_typed
          split: if_splits option.splits prod.splits)
  next
    case (InterruptTransfer req)
    with assms show ?thesis
      by (cases "authorize_transfer usb c dm (itq_session_id req) (itq_device_id req) w")
        (auto simp: handle_message_def typed_defs simp del: transfer_typed.simps dest: authorize_typed execute_typed
          split: if_splits option.splits prod.splits)
  qed (use assms in \<open>auto simp: handle_message_def typed_defs get_descriptors_device Let_def
        split: if_splits option.splits prod.splits sum.splits\<close>)
  show "act = BridgeTo m target \<Longrightarrow> \<exists>q r. msg = Bridge q \<and> m = BridgeAccepted r \<and> target = bq_device_id q"
    using assms by (cases msg) (auto simp: handle_message_def handle_bridge_def Let_def
        split: if_splits option.splits prod.splits)
qed

lemma turn_answered:
  assumes "conn_turn usb hmac enc t c dm w = (fl, out, c', dm', w')"
  shows "out = [] \<and> fl = Break None \<or>
    (\<exists>msg m. t_incoming t = Frame msg \<and> out = [m] \<and> response_to msg m \<and>
       (\<forall>target. fl = Break (Some target) \<longrightarrow> (\<exists>q. msg = Bridge q \<and> target = bq_device_id q)))"
proof (cases "t_incoming t")
  case (Frame msg)
  obtain act c1 dm1 w1 where h: "handle_message usb hmac (t_join t) c dm msg w = (act, c1, dm1, w1)"
    by (metis prod_cases4)
  from message_answered [OF h] assms Frame h show ?thesis
    by (cases act) (auto simp: conn_turn_def split: if_splits)
qed (use assms in \<open>auto simp: conn_turn_def\<close>)

section \<open>The client's reading\<close>

text \<open>
  A message the client was waiting for: its reading does not fall into the branch that reports
  the message's debug text as unexpected.
\<close>

definition expected :: "call \<Rightarrow> Message \<Rightarrow> bool" where
  "expected k m \<longleftrightarrow> (\<forall>debug debug'. call_reading debug k m = call_reading debug' k m)"

lemma response_expected: "response_to (call_request k) m \<Longrightarrow> expected k m"
  by (cases k; cases m) (simp_all add: expected_def reading_defs split: if_splits option.splits)

text \<open>C15: the exchanges are well typed: a connection answers its messages in their order, each by one
  response of the type its request calls for, with the ids of the request in it, an error text
  exactly when it reports failure and a session exactly when an attach succeeds, or by an error
  with one of the codes the request may fail with; no message is skipped. What is not a request is answered by an error. And the client that
  made the request never takes such an answer for an unexpected message.\<close>

theorem answers_are_well_typed:
  assumes "run_loop usb hmac enc turns c dm w = (handoff, out, c', dm', w')"
  shows "list_all2 (\<lambda>t m. \<exists>msg. t_incoming t = Frame msg \<and> response_to msg m \<and>
      (\<forall>k. msg = call_request k \<longrightarrow> expected k m)) (take (length out) turns) out"
  using assms
proof (induction turns arbitrary: c dm w out)
  case (Cons t ts)
  obtain fl out1 c1 dm1 w1 where t: "conn_turn usb hmac enc t c dm w = (fl, out1, c1, dm1, w1)"
    by (metis prod_cases5)
  show ?case
  proof (cases fl)
    case Continue
    then obtain out2 where rest: "run_loop usb hmac enc ts c1 dm1 w1 = (handoff, out2, c', dm', w')" and out: "out = out1 @ out2"
      using Cons.prems t by (auto split: prod.splits)
    obtain msg m where m: "t_incoming t = Frame msg" "out1 = [m]" "response_to msg m"
      using turn_answered [OF t] Continue by auto
    with Cons.IH [OF rest] response_expected show ?thesis by (auto simp: out)
  next
    case (Break ho)
    then have "out = out1" using Cons.prems t by simp
    with turn_answered [OF t] response_expected show ?thesis by auto
  qed
qed simp

theorem answers_are_well_typed_witness:
  "\<exists>m. fst (snd (run_loop (idle_usb [(1, 2)]) (\<lambda>k d. k @ d) (\<lambda>_. Ok [0])
     [sample_turn (Attach \<lparr>aq_device_id = sample_device\<rparr>)] (connection_new Plain ''peer'' None) dm_empty ())) = [m] \<and>
     response_to (Attach \<lparr>aq_device_id = sample_device\<rparr>) m \<and> expected (AttachCall sample_device) m"
proof -
  let ?ts = "[sample_turn (Attach \<lparr>aq_device_id = sample_device\<rparr>)]"
  obtain m c' where l: "run_loop (idle_usb [(1, 2)]) (\<lambda>k d. k @ d) (\<lambda>_. Ok [0]) ?ts
      (connection_new Plain ''peer'' None) dm_empty () = (None, [m], c', sample_dm, ())"
    by (simp add: conn_turn_def sample_attach_message sample_send)
  from answers_are_well_typed [OF l] show ?thesis unfolding l
    by (auto dest: spec [of _ "AttachCall sample_device"])
qed

end
