(* ===== verification/Vhci.thy ===== *)
theory Vhci
  imports Os Usb
begin

text \<open>
  \<open>src/src/bridge/vhci.rs\<close>: the kernel's virtual host controller, through sysfs. The operating
  system is a parameter \<open>os\<close> (theory \<open>Os\<close>) and a file descriptor its number. I/O errors are their
  texts, the dash of two of them being the three bytes of its UTF-8 form.
\<close>

section \<open>Speeds\<close>

datatype Speed = Low | Full | High | Wireless | Super | SuperPlus

fun from_rusb :: "rusb_speed \<Rightarrow> Speed" where
  "from_rusb RSpeedLow = Low"
| "from_rusb RSpeedFull = Full"
| "from_rusb RSpeedHigh = High"
| "from_rusb RSpeedSuper = Super"
| "from_rusb RSpeedSuperPlus = SuperPlus"
| "from_rusb _ = High"

fun as_u8 :: "Speed \<Rightarrow> u8" where
  "as_u8 Low = 1"
| "as_u8 Full = 2"
| "as_u8 High = 3"
| "as_u8 Wireless = 4"
| "as_u8 Super = 5"
| "as_u8 SuperPlus = 6"

section \<open>The controller and its module\<close>

definition vhci_dir :: "nat \<Rightarrow> string" where
  "vhci_dir i = ''/sys/devices/platform/vhci_hcd.'' @ dec_str i"

definition em_dash :: string where
  "em_dash = [CHR 0xE2, CHR 0x80, CHR 0x94]"

definition vhci_not_found :: string where
  "vhci_not_found = ''vhci_hcd not found '' @ em_dash @ '' ensure kernel module is loaded (modprobe vhci-hcd)''"

definition find_vhci_path :: "'w os \<Rightarrow> 'w \<Rightarrow> (string, string) result" where
  "find_vhci_path os w =
     (case find (\<lambda>p. os_is_dir os p w) (map vhci_dir [0..<32]) of
        Some p \<Rightarrow> Ok p
      | None \<Rightarrow> Err vhci_not_found)"

definition vhci_load_failed :: string where
  "vhci_load_failed =
     ''Failed to load vhci-hcd kernel module. Install with: dnf install kernel-modules-extra (Fedora/RHEL) ''
     @ ''or apt install linux-modules-extra-$(uname -r) (Debian/Ubuntu)''"

definition vhci_ensure_module_loaded :: "'w os \<Rightarrow> 'w \<Rightarrow> (string, unit) result \<times> 'w" where
  "vhci_ensure_module_loaded os w =
     (if os_is_dir os ''/sys/devices/platform/vhci_hcd.0'' w then (Ok (), w)
      else
        (case os_command os ''modprobe'' [''vhci-hcd''] w of
           (Inl e, w) \<Rightarrow> (Err e, w)
         | (Inr success, w) \<Rightarrow>
             let w = (if success then w else snd (os_command os ''modprobe'' [''vhci_hcd''] w)) in
             if os_is_dir os ''/sys/devices/platform/vhci_hcd.0'' w then (Ok (), w)
             else (Err vhci_load_failed, w)))"

definition is_available :: "'w os \<Rightarrow> 'w \<Rightarrow> bool" where
  "is_available os w = os_is_dir os ''/sys/devices/platform/vhci_hcd.0'' w"

section \<open>The status file\<close>

text \<open>
  The loops over the lines of the status file, by recursion on the lines: \<open>continue\<close> goes on with
  the rest, \<open>return\<close> ends it.
\<close>

fun free_port_in :: "string list \<Rightarrow> (string, u32) result" where
  "free_port_in [] = Err ''No free vhci_hcd ports available''"
| "free_port_in (line # ls) =
     (let fields = split_whitespace line in
      if length fields < 3 then free_port_in ls
      else if fields ! 0 = ''hub'' then free_port_in ls
      else
        (case parse_word 10 (fields ! 1) of
           Inl _ \<Rightarrow> free_port_in ls
         | Inr port \<Rightarrow>
             (case parse_word 10 (fields ! 2) of
                Inl _ \<Rightarrow> free_port_in ls
              | Inr status \<Rightarrow> if status = (4 :: u32) then Ok port else free_port_in ls)))"

definition find_free_port :: "'w os \<Rightarrow> string \<Rightarrow> 'w \<Rightarrow> (string, u32) result" where
  "find_free_port os vhci_path w =
     (case os_read_to_string os (vhci_path @ ''/status'') w of
        Inl e \<Rightarrow> Err e
      | Inr content \<Rightarrow> free_port_in (str_lines content))"

fun port_status_in :: "string list \<Rightarrow> u32 \<Rightarrow> u32 option" where
  "port_status_in [] port = None"
| "port_status_in (line # ls) port =
     (let fields = split_whitespace line in
      if length fields < 3 \<or> fields ! 0 = ''hub'' then port_status_in ls port
      else
        (case parse_word 10 (fields ! 1) of
           Inl _ \<Rightarrow> port_status_in ls port
         | Inr p \<Rightarrow> if p \<noteq> port then port_status_in ls port else parse_ok (fields ! 2)))"

definition port_status_from_content :: "string \<Rightarrow> u32 \<Rightarrow> u32 option" where
  "port_status_from_content content port = port_status_in (str_lines content) port"

definition port_in_use :: "'w os \<Rightarrow> u32 \<Rightarrow> 'w \<Rightarrow> bool" where
  "port_in_use os port w =
     (case find_vhci_path os w of
        Inl _ \<Rightarrow> False
      | Inr vhci_path \<Rightarrow>
          (case os_read_to_string os (vhci_path @ ''/status'') w of
             Inl _ \<Rightarrow> False
           | Inr content \<Rightarrow>
               (case port_status_from_content content port of Some s \<Rightarrow> s \<noteq> 4 | None \<Rightarrow> False)))"

section \<open>Attaching and detaching\<close>

definition attach_command :: "u32 \<Rightarrow> 32 word \<Rightarrow> u32 \<Rightarrow> Speed \<Rightarrow> string" where
  "attach_command port fd devid speed =
     show_word port @ '' '' @ show_i32 fd @ '' '' @ show_word devid @ '' '' @ show_word (as_u8 speed)"

definition vhci_attach :: "'w os \<Rightarrow> 32 word \<Rightarrow> u32 \<Rightarrow> Speed \<Rightarrow> 'w \<Rightarrow> (string, u32) result \<times> 'w" where
  "vhci_attach os fd devid speed w =
     (case vhci_ensure_module_loaded os w of
        (Inl e, w) \<Rightarrow> (Err e, w)
      | (Inr _, w) \<Rightarrow>
          (case find_vhci_path os w of
             Inl e \<Rightarrow> (Err e, w)
           | Inr vhci_path \<Rightarrow>
               (case find_free_port os vhci_path w of
                  Inl e \<Rightarrow> (Err e, w)
                | Inr port \<Rightarrow>
                    (case open_and_write os (vhci_path @ ''/attach'') (attach_command port fd devid speed) w of
                       (Inl e, w) \<Rightarrow> (Err e, w)
                     | (Inr _, w) \<Rightarrow> (Ok port, w)))))"

definition vhci_detach :: "'w os \<Rightarrow> u32 \<Rightarrow> 'w \<Rightarrow> (string, unit) result \<times> 'w" where
  "vhci_detach os port w =
     (case find_vhci_path os w of
        Inl e \<Rightarrow> (Err e, w)
      | Inr vhci_path \<Rightarrow> open_and_write os (vhci_path @ ''/detach'') (show_word port) w)"

section \<open>Reading the table the kernel prints\<close>

text \<open>
  The format the driver's comment documents: a header row, then per port the hub's type, the port
  and status in decimal with leading zeros, and columns this code does not look at.
\<close>

record port_row =
  pr_hub :: string
  pr_port :: u32
  pr_status :: u32
  pr_rest :: string

definition row_ok :: "port_row \<Rightarrow> bool" where
  "row_ok r \<longleftrightarrow> pr_hub r \<noteq> [] \<and> (\<forall>c \<in> set (pr_hub r). \<not> is_ws c) \<and> pr_hub r \<noteq> ''hub'' \<and> newline \<notin> set (pr_rest r)"

definition row_line :: "port_row \<Rightarrow> string" where
  "row_line r = pr_hub r @ ''  '' @ zero_pad 4 (show_word (pr_port r)) @ '' '' @
     zero_pad 3 (show_word (pr_status r)) @ '' '' @ pr_rest r"

definition status_file :: "port_row list \<Rightarrow> string" where
  "status_file rows =
     ''hub port sta spd dev      sockfd local_busid'' @ [newline] @ concat (map (\<lambda>r. row_line r @ [newline]) rows)"

lemma zero_pad_show:
  "zero_pad k (show_word (w :: u32)) \<noteq> []" "c \<in> set (zero_pad k (show_word (w :: u32))) \<Longrightarrow> digit_class c"
proof -
  show "zero_pad k (show_word w) \<noteq> []" by (simp add: zero_pad_def show_word_def)
  have "\<forall>c \<in> set (show_word w). digit_class c" unfolding show_word_def by (auto intro: radix_str_digits [of 10])
  then show "c \<in> set (zero_pad k (show_word w)) \<Longrightarrow> digit_class c" by (rule zero_pad_digits)
qed

lemma row_fields:
  assumes "row_ok r"
  shows "split_whitespace (strip_cr (row_line r)) =
    pr_hub r # zero_pad 4 (show_word (pr_port r)) # zero_pad 3 (show_word (pr_status r)) #
      split_whitespace (strip_cr (CHR '' '' # pr_rest r))"
proof -
  have digits: "\<forall>c \<in> set (zero_pad k (show_word (w :: u32))). \<not> is_ws c" for k w
    using zero_pad_show(2) digit_class_plain(6) by blast
  have cr: "strip_cr (CHR '' '' # pr_rest r) = CHR '' '' # strip_cr (pr_rest r)"
    by (auto simp: strip_cr_def)
  have "strip_cr (row_line r) = (pr_hub r @ ''  '' @ zero_pad 4 (show_word (pr_port r)) @ '' '' @
     zero_pad 3 (show_word (pr_status r))) @ strip_cr (CHR '' '' # pr_rest r)"
    by (subst strip_cr_keep [symmetric]) (simp_all add: row_line_def)
  then show ?thesis using assms digits zero_pad_show(1)
    by (simp add: row_ok_def cr split_whitespace_word split_whitespace_sep)
qed

lemma row_line_clean: "row_ok r \<Longrightarrow> newline \<notin> set (row_line r)"
proof -
  have "newline \<notin> set (zero_pad k (show_word (w :: u32)))" for k w
    using zero_pad_show(2) digit_class_plain(8) by blast
  moreover assume "row_ok r"
  moreover have "is_ws newline" by (simp add: is_ws_def)
  ultimately show ?thesis by (auto simp: row_ok_def row_line_def)
qed

lemma lines_of_status:
  assumes "\<forall>r \<in> set rows. row_ok r"
  shows "str_lines (status_file rows) =
    ''hub port sta spd dev      sockfd local_busid'' # map (\<lambda>r. strip_cr (row_line r)) rows"
proof -
  let ?h = "''hub port sta spd dev      sockfd local_busid''"
  have "status_file rows = concat (map (\<lambda>l. l @ [newline]) (?h # map row_line rows))"
    by (simp add: status_file_def comp_def)
  moreover have "\<forall>l \<in> set (?h # map row_line rows). newline \<notin> set l"
    using assms row_line_clean by auto
  ultimately show ?thesis by (simp only: str_lines_concat) (simp add: strip_cr_def)
qed

lemma header_fields:
  "split_whitespace ''hub port sta spd dev      sockfd local_busid'' =
     [''hub'', ''port'', ''sta'', ''spd'', ''dev'', ''sockfd'', ''local_busid'']"
  by (simp add: split_whitespace_def is_ws_def)

lemma free_port_in_rows:
  "\<forall>r \<in> set rows. row_ok r \<Longrightarrow> free_port_in (map (\<lambda>r. strip_cr (row_line r)) rows) =
     (case find (\<lambda>r. pr_status r = 4) rows of
        Some r \<Rightarrow> Ok (pr_port r) | None \<Rightarrow> Err ''No free vhci_hcd ports available'')"
  by (induction rows) (auto simp: row_fields row_ok_def)

lemma port_status_in_rows:
  "\<forall>r \<in> set rows. row_ok r \<Longrightarrow> port_status_in (map (\<lambda>r. strip_cr (row_line r)) rows) p =
     map_of (map (\<lambda>r. (pr_port r, pr_status r)) rows) p"
  by (induction rows) (auto simp: row_fields row_ok_def parse_ok_def)

lemma free_port_status_file:
  "\<forall>r \<in> set rows. row_ok r \<Longrightarrow> free_port_in (str_lines (status_file rows)) =
     (case find (\<lambda>r. pr_status r = 4) rows of
        Some r \<Rightarrow> Ok (pr_port r) | None \<Rightarrow> Err ''No free vhci_hcd ports available'')"
  by (simp add: lines_of_status header_fields free_port_in_rows)

lemma port_status_status_file:
  "\<forall>r \<in> set rows. row_ok r \<Longrightarrow> port_status_from_content (status_file rows) p =
     map_of (map (\<lambda>r. (pr_port r, pr_status r)) rows) p"
  by (simp add: port_status_from_content_def lines_of_status header_fields port_status_in_rows)

lemma vhci_path_first: "os_is_dir os ''/sys/devices/platform/vhci_hcd.0'' w \<Longrightarrow>
    find_vhci_path os w = Ok ''/sys/devices/platform/vhci_hcd.0''"
  by (simp add: find_vhci_path_def upt_conv_Cons vhci_dir_def dec_eval)

lemma port_in_use_table:
  assumes "os_is_dir os ''/sys/devices/platform/vhci_hcd.0'' w" "\<forall>r \<in> set rows. row_ok r"
    and "os_read_to_string os ''/sys/devices/platform/vhci_hcd.0/status'' w = Ok (status_file rows)"
  shows "port_in_use os p w \<longleftrightarrow> (\<exists>s. map_of (map (\<lambda>r. (pr_port r, pr_status r)) rows) p = Some s \<and> s \<noteq> 4)"
  using assms by (auto simp: port_in_use_def vhci_path_first port_status_status_file split: option.splits)

lemma show_speed:
  "show_word (as_u8 speed) = (case speed of Low \<Rightarrow> ''1'' | Full \<Rightarrow> ''2'' | High \<Rightarrow> ''3'' | Wireless \<Rightarrow> ''4''
     | Super \<Rightarrow> ''5'' | SuperPlus \<Rightarrow> ''6'')"
  by (cases speed) (simp_all add: dec_eval)

text \<open>C24: attaching takes the first free port of the controller's table: with the module loaded and
  a table of distinct ports in the kernel's format, the only thing done is to open the \<open>attach\<close> file
  and write, in one go, the port, the descriptor, the device and the speed's number in decimal with
  single spaces between them; the port is returned when that succeeds and the error when it fails, and
  the port was not in use before; without a free port nothing is written. The check that a port is in
  use agrees with the table on every port of it, and counts a port it does not list as free.\<close>

theorem attach_takes_first_free_port:
  assumes "os_is_dir os ''/sys/devices/platform/vhci_hcd.0'' w"
    and "os_read_to_string os ''/sys/devices/platform/vhci_hcd.0/status'' w = Ok (status_file rows)"
    and "\<forall>r \<in> set rows. row_ok r" "distinct (map pr_port rows)"
  shows "(case find (\<lambda>r. pr_status r = 4) rows of
        None \<Rightarrow> vhci_attach os fd devid speed w = (Err ''No free vhci_hcd ports available'', w)
      | Some r \<Rightarrow>
          vhci_attach os fd devid speed w =
            (case os_open_write os ''/sys/devices/platform/vhci_hcd.0/attach'' w of
               Inl e \<Rightarrow> (Err e, w)
             | Inr _ \<Rightarrow> apfst (map_sum id (\<lambda>_. pr_port r)) (os_write_all os ''/sys/devices/platform/vhci_hcd.0/attach''
                 (show_word (pr_port r) @ '' '' @ show_i32 fd @ '' '' @ show_word devid @ '' '' @
                  (case speed of Low \<Rightarrow> ''1'' | Full \<Rightarrow> ''2'' | High \<Rightarrow> ''3'' | Wireless \<Rightarrow> ''4''
                   | Super \<Rightarrow> ''5'' | SuperPlus \<Rightarrow> ''6'')) w)) \<and>
          \<not> port_in_use os (pr_port r) w) \<and>
    (\<forall>r \<in> set rows. port_in_use os (pr_port r) w \<longleftrightarrow> pr_status r \<noteq> 4) \<and>
    (\<forall>p. p \<notin> pr_port ` set rows \<longrightarrow> \<not> port_in_use os p w)"
proof -
  have "map_of (map (\<lambda>r. (pr_port r, pr_status r)) rows) (pr_port r) = Some (pr_status r)" if "r \<in> set rows" for r
    using that assms(4) by (intro map_of_is_SomeI) (auto simp: comp_def)
  then have used: "\<forall>r \<in> set rows. port_in_use os (pr_port r) w \<longleftrightarrow> pr_status r \<noteq> 4"
    using port_in_use_table [OF assms(1,3,2)] by simp
  have absent: "map_of (map (\<lambda>r. (pr_port r, pr_status r)) rows) p = None" if "p \<notin> pr_port ` set rows" for p
    using that by (auto simp: map_of_eq_None_iff)
  have free: "find_free_port os ''/sys/devices/platform/vhci_hcd.0'' w =
      (case find (\<lambda>r. pr_status r = 4) rows of
         Some r \<Rightarrow> Ok (pr_port r) | None \<Rightarrow> Err ''No free vhci_hcd ports available'')"
    using assms(2,3) by (simp add: find_free_port_def free_port_status_file)
  have loaded: "vhci_ensure_module_loaded os w = (Ok (), w)"
    using assms(1) by (simp add: vhci_ensure_module_loaded_def)
  note path = vhci_path_first [OF assms(1)]
  have "\<forall>p. p \<notin> pr_port ` set rows \<longrightarrow> \<not> port_in_use os p w"
    using absent port_in_use_table [OF assms(1,3,2)] by simp
  moreover have "case find (\<lambda>r. pr_status r = 4) rows of
        None \<Rightarrow> vhci_attach os fd devid speed w = (Err ''No free vhci_hcd ports available'', w)
      | Some r \<Rightarrow>
          vhci_attach os fd devid speed w =
            (case os_open_write os ''/sys/devices/platform/vhci_hcd.0/attach'' w of
               Inl e \<Rightarrow> (Err e, w)
             | Inr _ \<Rightarrow> apfst (map_sum id (\<lambda>_. pr_port r)) (os_write_all os ''/sys/devices/platform/vhci_hcd.0/attach''
                 (show_word (pr_port r) @ '' '' @ show_i32 fd @ '' '' @ show_word devid @ '' '' @
                  (case speed of Low \<Rightarrow> ''1'' | Full \<Rightarrow> ''2'' | High \<Rightarrow> ''3'' | Wireless \<Rightarrow> ''4''
                   | Super \<Rightarrow> ''5'' | SuperPlus \<Rightarrow> ''6'')) w)) \<and>
          \<not> port_in_use os (pr_port r) w"
  proof (cases "find (\<lambda>r. pr_status r = 4) rows")
    case None
    with loaded path free show ?thesis by (simp add: vhci_attach_def)
  next
    case (Some r)
    then have "r \<in> set rows" "pr_status r = 4" by (auto simp: find_Some_iff)
    then have "\<not> port_in_use os (pr_port r) w" using used by simp
    with Some loaded path free show ?thesis
      by (simp add: vhci_attach_def open_and_write_def attach_command_def show_speed
          split: prod.splits sum.splits)
  qed
  ultimately show ?thesis using used by blast
qed

text \<open>The table of the source's own test.\<close>

definition test_rows :: "port_row list" where
  "test_rows =
     [\<lparr>pr_hub = ''hs'', pr_port = 0, pr_status = 6, pr_rest = ''003 00020003 000019 1-1''\<rparr>,
      \<lparr>pr_hub = ''hs'', pr_port = 1, pr_status = 4, pr_rest = ''000 00000000 000000 0-0''\<rparr>,
      \<lparr>pr_hub = ''ss'', pr_port = 8, pr_status = 4, pr_rest = ''000 00000000 000000 0-0''\<rparr>]"

lemma test_rows_ok: "\<forall>r \<in> set test_rows. row_ok r"
  by (simp add: test_rows_def row_ok_def is_ws_def)

theorem attach_takes_first_free_port_witness:
  "vhci_attach (log_os [(''/sys/devices/platform/vhci_hcd.0/status'', status_file test_rows)] []) 7 0x10005 High [] =
     (Ok 1, [(''/sys/devices/platform/vhci_hcd.0/attach'', ''1 7 65541 3'')])"
proof -
  let ?os = "log_os [(''/sys/devices/platform/vhci_hcd.0/status'', status_file test_rows)] []"
  have "os_is_dir ?os ''/sys/devices/platform/vhci_hcd.0'' []"
    and "os_read_to_string ?os ''/sys/devices/platform/vhci_hcd.0/status'' [] = Ok (status_file test_rows)"
    by (simp_all add: log_os_def)
  moreover have "distinct (map pr_port test_rows)" "find (\<lambda>r. pr_status r = 4) test_rows = Some (test_rows ! 1)"
    "pr_port (test_rows ! 1) = 1"
    by (simp_all add: test_rows_def)
  moreover have written: "show_word (1 :: u32) = ''1''" "show_i32 7 = ''7''" "show_word (0x10005 :: u32) = ''65541''"
    by (simp_all add: dec_eval show_i32_def)
  ultimately show ?thesis
    using attach_takes_first_free_port [of ?os "[]" test_rows 7 "0x10005" High] test_rows_ok
    by (simp add: log_os_def written)
qed

end
