(* ===== verification/Mount.thy ===== *)
theory Mount
  imports Session Vhci ServerBridge
begin

text \<open>
  \<open>src/src/client/mount.rs\<close>: a remote device as a local one. Handshake and bridge request go over
  the framed stream of theory \<open>Session\<close>, the import exchange over the same socket unframed (\<open>tcp s\<close>,
  theory \<open>ServerBridge\<close>), and the socket then goes to the kernel (theory \<open>Vhci\<close>). \<open>wait\<close> sleeps two
  seconds unless Ctrl-C comes first, and says which. \<open>set_nodelay\<close>, whose result is ignored, and
  log output are left out.
\<close>

section \<open>Handshake and bridge request\<close>

definition do_hello ::
  "('s, 't, 'w) net \<Rightarrow> (bytes \<Rightarrow> bytes \<Rightarrow> bytes) \<Rightarrow> bincode_enc \<Rightarrow> (Message \<Rightarrow> string) \<Rightarrow> (rusb_error \<Rightarrow> string) \<Rightarrow>
     's \<Rightarrow> string option \<Rightarrow> 'w \<Rightarrow> (anyhow, unit) result \<times> 'w" where
  "do_hello net hmac enc debug ru s key w =
     (let key_bytes = map_option as_bytes key in
      case net_nonce net w of (nonce, w) \<Rightarrow>
        (case net_send net enc s (Hello
                \<lparr>hq_protocol_version = PROTOCOL_VERSION, hq_client_name = ''wolfusb-mount'', hq_auth_nonce = nonce,
                 hq_auth_proof = auth_proof hmac key_bytes nonce\<rparr>) w of
           (Inl e, w) \<Rightarrow> (Err (''Failed to send Hello'' # error_chain ru e), w)
         | (Inr _, w) \<Rightarrow>
             (case net_next net s w of
                (None, w) \<Rightarrow> (Err [''Connection closed during handshake''], w)
              | (Some (Inl e), w) \<Rightarrow> (Err [''Protocol error: '' @ error_to_string ru e], w)
              | (Some (Inr (HelloResponse resp)), w) \<Rightarrow>
                  if \<not> hr_auth_accepted resp then
                    (Err [''Authentication failed: '' @ (case hr_error_message resp of Some e \<Rightarrow> e | None \<Rightarrow> [])], w)
                  else if (case key_bytes of
                             Some kb \<Rightarrow> hr_auth_challenge_response resp \<noteq> server_tag hmac kb nonce
                           | None \<Rightarrow> False)
                  then (Err [''Server HMAC verification failed''], w)
                  else (Ok (), w)
              | (Some (Inr other), w) \<Rightarrow> (Err [''Unexpected response: '' @ debug other], w))))"

definition send_bridge ::
  "('s, 't, 'w) net \<Rightarrow> bincode_enc \<Rightarrow> (Message \<Rightarrow> string) \<Rightarrow> (rusb_error \<Rightarrow> string) \<Rightarrow> 's \<Rightarrow> u8 \<Rightarrow> u8 \<Rightarrow> 'w \<Rightarrow>
     (anyhow, string) result \<times> 'w" where
  "send_bridge net enc debug ru s bus addr w =
     (case net_send net enc s (Bridge \<lparr>bq_device_id = \<lparr>bus_number = bus, address = addr\<rparr>\<rparr>) w of
        (Inl e, w) \<Rightarrow> (Err (''Failed to send Bridge request'' # error_chain ru e), w)
      | (Inr _, w) \<Rightarrow>
          (case net_next net s w of
             (None, w) \<Rightarrow> (Err [''Connection closed during bridge handshake''], w)
           | (Some (Inl e), w) \<Rightarrow> (Err [''Protocol error: '' @ error_to_string ru e], w)
           | (Some (Inr (BridgeAccepted r)), w) \<Rightarrow> (Ok (ba_busid r), w)
           | (Some (Inr (BridgeRejected r)), w) \<Rightarrow> (Err [''Server rejected bridge: '' @ br_error_message r], w)
           | (Some (Inr other), w) \<Rightarrow> (Err [''Unexpected response: '' @ debug other], w)))"

section \<open>The import exchange\<close>

record ImportReply =
  ir_devid :: u32
  ir_speed :: u8
  ir_vendor_id :: u16
  ir_product_id :: u16

definition USBIP_VERSION :: u16 where "USBIP_VERSION = 0x0111"
definition OP_REQ_IMPORT :: u16 where "OP_REQ_IMPORT = 0x8003"
definition OP_REP_IMPORT :: u16 where "OP_REP_IMPORT = 0x0003"

definition import_request :: "string \<Rightarrow> bytes" where
  "import_request busid =
     to_be16 USBIP_VERSION @ to_be16 OP_REQ_IMPORT @ to_be32 0 @
     as_bytes busid @ replicate (32 - length busid) 0"

text \<open>The fields of the 312 bytes, by their offsets.\<close>

definition parse_import_reply :: "bytes \<Rightarrow> ImportReply" where
  "parse_import_reply dev =
     \<lparr>ir_devid = push_bit 16 (be32_at dev 288) OR (be32_at dev 292 AND 0xFFFF),
      ir_speed = ucast (be32_at dev 296), ir_vendor_id = be16_at dev 300, ir_product_id = be16_at dev 302\<rparr>"

text \<open>The exchange; it waits for as long as the server neither answers nor goes away (\<open>None\<close>).\<close>

definition op_req_import :: "'w tcp \<Rightarrow> string \<Rightarrow> 'w \<Rightarrow> ((anyhow, ImportReply) result \<times> 'w) option" where
  "op_req_import sock busid w =
     (if 32 \<le> length busid then Some (Err [''busid too long: '' @ busid], w)
      else
        (case tcp_write_all sock (import_request busid) w of
           None \<Rightarrow> None
         | Some (Inl e, w) \<Rightarrow> Some (Err [''Failed to send OP_REQ_IMPORT'', e], w)
         | Some (Inr _, w) \<Rightarrow>
             (case tcp_read_exact sock 8 (snd (tcp_flush sock w)) of
                None \<Rightarrow> None
              | Some (Inl e, w) \<Rightarrow> Some (Err [''Failed to read OP_REP_IMPORT header'', e], w)
              | Some (Inr hdr, w) \<Rightarrow>
                  let code = be16_at hdr 2; status = be32_at hdr 4 in
                  if code \<noteq> OP_REP_IMPORT then
                    Some (Err [''Unexpected USB/IP response code: 0x'' @ hex_pad 4 code], w)
                  else if status \<noteq> 0 then
                    Some (Err [''Server rejected OP_REQ_IMPORT with status '' @ show_word status @ '' '' @ em_dash
                            @ '' device '' @ [CHR 0x27] @ busid @ [CHR 0x27] @ '' not available''], w)
                  else
                    (case tcp_read_exact sock 312 w of
                       None \<Rightarrow> None
                     | Some (Inl e, w) \<Rightarrow> Some (Err [''Failed to read OP_REP_IMPORT device data'', e], w)
                     | Some (Inr dev, w) \<Rightarrow> Some (Ok (parse_import_reply dev), w)))))"

section \<open>Mounting\<close>

definition mount_speed :: "u8 \<Rightarrow> Speed" where
  "mount_speed n =
     (if n = 1 then Low else if n = 2 then Full else if n = 3 then High
      else if n = 5 then Super else if n = 6 then SuperPlus else High)"

definition vhci_unavailable :: string where
  "vhci_unavailable = ''vhci_hcd kernel module unavailable '' @ em_dash @ '' USB virtualization won'' @ [CHR 0x27] @ ''t work''"

text \<open>\<open>try_then\<close> for a step that may not return.\<close>

definition wait_then ::
  "('w \<Rightarrow> (('e, 'a) result \<times> 'w) option) \<Rightarrow> ('a \<Rightarrow> 'w \<Rightarrow> (('e, 'b) result \<times> 'w) option) \<Rightarrow> 'w \<Rightarrow>
     (('e, 'b) result \<times> 'w) option" where
  "wait_then m f w =
     (case m w of None \<Rightarrow> None | Some (Inl e, w) \<Rightarrow> Some (Err e, w) | Some (Inr a, w) \<Rightarrow> f a w)"

lemma wait_then_Ok: "m w = Some (Ok a, v) \<Longrightarrow> wait_then m f w = f a v"
  by (simp add: wait_then_def)

text \<open>Everything up to the virtual device.\<close>

definition mount_attach ::
  "'w os \<Rightarrow> ('s, 't, 'w) net \<Rightarrow> ('s \<Rightarrow> 'w tcp) \<Rightarrow> (bytes \<Rightarrow> bytes \<Rightarrow> bytes) \<Rightarrow> bincode_enc \<Rightarrow> (Message \<Rightarrow> string) \<Rightarrow>
     (rusb_error \<Rightarrow> string) \<Rightarrow> string \<Rightarrow> u8 \<Rightarrow> u8 \<Rightarrow> string option \<Rightarrow> 'w \<Rightarrow>
     ((anyhow, ImportReply \<times> u32) result \<times> 'w) option" where
  "mount_attach os net tcp hmac enc debug ru server bus addr key =
     wait_then (\<lambda>w. Some (
       try_then (\<lambda>w. apfst (io_context vhci_unavailable) (vhci_ensure_module_loaded os w)) (\<lambda>_.
       try_then (\<lambda>w. apfst (io_context ''Failed to connect to wolfusb server'') (net_connect net server w)) (\<lambda>s.
       try_then (do_hello net hmac enc debug ru s key) (\<lambda>_.
       try_then (send_bridge net enc debug ru s bus addr) (\<lambda>busid w. (Ok (s, busid), w))))) w)) (\<lambda>(s, busid).
     wait_then (op_req_import (tcp s) busid) (\<lambda>reply w. Some (
       try_then (\<lambda>w. apfst (io_context ''Failed to convert TCP stream to std'') (tcp_into_std (tcp s) w)) (\<lambda>fd w.
       try_then (\<lambda>w. apfst (io_context ''Failed to attach to vhci_hcd (need CAP_SYS_ADMIN?)'')
                    (vhci_attach os fd (ir_devid reply) (mount_speed (ir_speed reply)) w))
         (\<lambda>port w. (Ok (reply, port), w))
         (snd (tcp_set_blocking (tcp s) fd w))) w)))"

text \<open>
  The wait for Ctrl-C or for a port that is lost: a poll after every wait, and two free polls in a
  row end it. It may go on for ever (\<open>None\<close>). The result says whether it was Ctrl-C.
\<close>

fun park_step :: "'w os \<Rightarrow> ('w \<Rightarrow> bool \<times> 'w) \<Rightarrow> u32 \<Rightarrow> u8 \<times> bool \<times> 'w \<Rightarrow> u8 \<times> bool \<times> 'w" where
  "park_step os wait port (consecutive_free, _, w) =
     (case wait w of
        (True, w) \<Rightarrow> (consecutive_free, True, w)
      | (False, w) \<Rightarrow>
          if port_in_use os port w then (0, False, w) else (consecutive_free + 1, False, w))"

fun park_done :: "u8 \<times> bool \<times> 'w \<Rightarrow> bool" where
  "park_done (consecutive_free, interrupted, _) \<longleftrightarrow> interrupted \<or> 2 \<le> consecutive_free"

definition park :: "'w os \<Rightarrow> ('w \<Rightarrow> bool \<times> 'w) \<Rightarrow> u32 \<Rightarrow> 'w \<Rightarrow> (bool \<times> 'w) option" where
  "park os wait port w = map_option snd (poll_until park_done (park_step os wait port) (0, False, w))"

definition mount_banner :: "ImportReply \<Rightarrow> u32 \<Rightarrow> string" where
  "mount_banner reply port =
     println (''Attached device as virtual USB on vhci_hcd port '' @ show_word port)
     @ println (''Device '' @ hex_pad 4 (ir_vendor_id reply) @ '':'' @ hex_pad 4 (ir_product_id reply)
          @ '' is now visible in lsusb. Press Ctrl-C to detach.'')"

text \<open>The result, what was printed, and the state.\<close>

definition cmd_mount ::
  "'w os \<Rightarrow> ('s, 't, 'w) net \<Rightarrow> ('s \<Rightarrow> 'w tcp) \<Rightarrow> (bytes \<Rightarrow> bytes \<Rightarrow> bytes) \<Rightarrow> bincode_enc \<Rightarrow> (Message \<Rightarrow> string) \<Rightarrow>
     (rusb_error \<Rightarrow> string) \<Rightarrow> ('w \<Rightarrow> bool \<times> 'w) \<Rightarrow> string \<Rightarrow> u8 \<Rightarrow> u8 \<Rightarrow> string option \<Rightarrow> 'w \<Rightarrow>
     ((anyhow, unit) result \<times> string \<times> 'w) option" where
  "cmd_mount os net tcp hmac enc debug ru wait server bus addr key w =
     (case mount_attach os net tcp hmac enc debug ru server bus addr key w of
        None \<Rightarrow> None
      | Some (Inl e, w) \<Rightarrow> Some (Err e, [], w)
      | Some (Inr (reply, port), w) \<Rightarrow>
          (case park os wait port w of
             None \<Rightarrow> None
           | Some (True, w) \<Rightarrow>
               Some (Ok (), mount_banner reply port @ println (newline # ''Detaching port '' @ show_word port @ ''...''),
                     os_sleep os 200 (snd (vhci_detach os port w)))
           | Some (False, w) \<Rightarrow>
               Some (Err [''USB device connection lost (vhci port '' @ show_word port @ '' released)''],
                     mount_banner reply port, w)))"

lemma import_reply_header:
  "be16_at (take 8 (import_reply info)) 2 = OP_REP_IMPORT" "be32_at (take 8 (import_reply info)) 4 = 0"
proof -
  have hdr: "take 8 (import_reply info) = to_be16 ServerBridge.USBIP_VERSION @ to_be16 ServerBridge.OP_REP_IMPORT @ to_be32 0"
    by (simp add: import_reply_def)
  show "be16_at (take 8 (import_reply info)) 2 = OP_REP_IMPORT" "be32_at (take 8 (import_reply info)) 4 = 0"
    unfolding hdr using be16.get_after [of "to_be16 ServerBridge.USBIP_VERSION" 2 ServerBridge.OP_REP_IMPORT "to_be32 0"]
      be32.get_after [of "to_be16 ServerBridge.USBIP_VERSION @ to_be16 ServerBridge.OP_REP_IMPORT" 4 0 "[]"]
    by (simp_all add: OP_REP_IMPORT_def ServerBridge.OP_REP_IMPORT_def)
qed

section \<open>Noticing a lost port\<close>

text \<open>
  The course of the wait, for a world \<open>w\<close> after the attach: the state after \<open>n\<close> waits, whether the
  next wait is cut short by Ctrl-C, and whether round \<open>n\<close> ends the wait.
\<close>

definition waited :: "('w \<Rightarrow> bool \<times> 'w) \<Rightarrow> 'w \<Rightarrow> nat \<Rightarrow> 'w" where
  "waited wait w n = ((\<lambda>w. snd (wait w)) ^^ n) w"

definition interrupted :: "('w \<Rightarrow> bool \<times> 'w) \<Rightarrow> 'w \<Rightarrow> nat \<Rightarrow> bool" where
  "interrupted wait w n = fst (wait (waited wait w n))"

definition leaves :: "'w os \<Rightarrow> ('w \<Rightarrow> bool \<times> 'w) \<Rightarrow> u32 \<Rightarrow> 'w \<Rightarrow> nat \<Rightarrow> bool" where
  "leaves os wait port w n \<longleftrightarrow> interrupted wait w n \<or>
     (0 < n \<and> \<not> port_in_use os port (waited wait w n) \<and> \<not> port_in_use os port (waited wait w (Suc n)))"

lemma waited_simps [simp]: "waited wait w 0 = w" "waited wait w (Suc n) = snd (wait (waited wait w n))"
  by (simp_all add: waited_def)

lemma wait_waited: "wait (waited wait w n) = (interrupted wait w n, waited wait w (Suc n))"
  by (simp add: interrupted_def)

lemma park_prefix:
  assumes "\<forall>k < n. \<not> leaves os wait port w k"
  shows "(park_step os wait port ^^ n) (0, False, w) =
    (if n = 0 \<or> port_in_use os port (waited wait w n) then 0 else 1, False, waited wait w n)"
  using assms
proof (induction n)
  case (Suc n)
  then have "\<not> leaves os wait port w n" by simp
  moreover have "(park_step os wait port ^^ n) (0, False, w) =
    (if n = 0 \<or> port_in_use os port (waited wait w n) then 0 else 1, False, waited wait w n)"
    using Suc by simp
  ultimately show ?case
    using wait_waited [of wait w n] by (auto simp: leaves_def simp del: waited_simps(2))
qed simp

lemma two_le_one: "\<not> (2 :: u8) \<le> 1"
  by (simp add: word_le_nat_alt)

lemma park_leaves:
  assumes "\<forall>k < n. \<not> leaves os wait port w k" "leaves os wait port w n"
  shows "park os wait port w = Some (interrupted wait w n, waited wait w (Suc n))"
proof -
  have step: "(park_step os wait port ^^ Suc n) (0, False, w) =
      park_step os wait port (if n = 0 \<or> port_in_use os port (waited wait w n) then 0 else 1, False, waited wait w n)"
    by (simp only: funpow.simps comp_apply park_prefix [OF assms(1)])
  have "\<forall>k < Suc n. \<not> park_done ((park_step os wait port ^^ k) (0, False, w))"
    using assms(1) by (auto simp: park_prefix two_le_one simp del: funpow.simps)
  then have "poll_until park_done (park_step os wait port) (0, False, w) =
      poll_until park_done (park_step os wait port) ((park_step os wait port ^^ Suc n) (0, False, w))"
    by (rule poll_until_steps)
  moreover have "\<exists>free. (park_step os wait port ^^ Suc n) (0, False, w) = (free, interrupted wait w n, waited wait w (Suc n)) \<and>
      (interrupted wait w n \<or> 2 \<le> free)"
    unfolding step using assms(2) wait_waited [of wait w n]
    by (cases "interrupted wait w n") (auto simp: leaves_def simp del: waited_simps(2))
  ultimately show ?thesis
    by (auto simp: park_def poll_until.simps [of _ _ "(_, _, _)"])
qed

lemma park_forever:
  assumes "\<And>n. \<not> leaves os wait port w n"
  shows "park os wait port w = None"
proof (rule ccontr)
  assume "park os wait port w \<noteq> None"
  then obtain v where "poll_until park_done (park_step os wait port) (0, False, w) = Some v"
    by (auto simp: park_def)
  from poll_until_result [OF this] obtain n where
    n: "v = (park_step os wait port ^^ n) (0, False, w)" "park_done v" by (elim exE conjE)
  have "v = (if n = 0 \<or> port_in_use os port (waited wait w n) then 0 else 1, False, waited wait w n)"
    unfolding n(1) using assms by (intro park_prefix) blast
  with n(2) show False by (cases "n = 0 \<or> port_in_use os port (waited wait w n)") (auto simp: two_le_one)
qed

text \<open>C14: a lost device is noticed: once the device is attached, the command ends exactly when
  Ctrl-C comes or two polls in a row, two seconds apart, find the port free, and at the first such
  time. After Ctrl-C it detaches the port and succeeds; for a lost port it fails with the error that
  says so, so that whoever supervises it starts it again. A port that is free from some time on ends
  it no later than at the second poll after that.\<close>

theorem mount_ends_when_port_is_lost:
  assumes "mount_attach os net tcp hmac enc debug ru server bus addr key v = Some (Ok (reply, port), w)"
  shows "(cmd_mount os net tcp hmac enc debug ru wait server bus addr key v = None \<longleftrightarrow>
            (\<forall>n. \<not> leaves os wait port w n)) \<and>
    (\<forall>n. leaves os wait port w n \<and> (\<forall>k < n. \<not> leaves os wait port w k) \<longrightarrow>
       cmd_mount os net tcp hmac enc debug ru wait server bus addr key v =
         (if interrupted wait w n then
            Some (Ok (), mount_banner reply port @ println (newline # ''Detaching port '' @ show_word port @ ''...''),
              os_sleep os 200 (snd (vhci_detach os port (waited wait w (Suc n)))))
          else
            Some (Err [''USB device connection lost (vhci port '' @ show_word port @ '' released)''],
              mount_banner reply port, waited wait w (Suc n)))) \<and>
    (\<forall>m. (\<forall>n \<ge> m. \<not> port_in_use os port (waited wait w n)) \<longrightarrow> (\<exists>n \<le> Suc m. leaves os wait port w n))"
proof -
  have mount: "cmd_mount os net tcp hmac enc debug ru wait server bus addr key v =
      (case park os wait port w of
         None \<Rightarrow> None
       | Some (True, w) \<Rightarrow>
           Some (Ok (), mount_banner reply port @ println (newline # ''Detaching port '' @ show_word port @ ''...''),
                 os_sleep os 200 (snd (vhci_detach os port w)))
       | Some (False, w) \<Rightarrow>
           Some (Err [''USB device connection lost (vhci port '' @ show_word port @ '' released)''],
                 mount_banner reply port, w))"
    by (simp add: cmd_mount_def assms)
  have first: "\<exists>n. leaves os wait port w n \<and> (\<forall>k < n. \<not> leaves os wait port w k)" if "\<exists>n. leaves os wait port w n"
    using that exists_least_iff [of "leaves os wait port w"] by blast
  have "cmd_mount os net tcp hmac enc debug ru wait server bus addr key v = None \<longleftrightarrow> (\<forall>n. \<not> leaves os wait port w n)"
  proof (cases "\<exists>n. leaves os wait port w n")
    case True
    with first obtain n where "leaves os wait port w n" "\<forall>k < n. \<not> leaves os wait port w k" by blast
    with park_leaves [of n os wait port w] show ?thesis unfolding mount by (cases "interrupted wait w n") auto
  next
    case False
    with park_forever [of os wait port w] show ?thesis unfolding mount by simp
  qed
  moreover have "leaves os wait port w (Suc m)" if "\<forall>n \<ge> m. \<not> port_in_use os port (waited wait w n)" for m
    using that by (simp add: leaves_def del: waited_simps)
  moreover have "cmd_mount os net tcp hmac enc debug ru wait server bus addr key v =
         (if interrupted wait w n then
            Some (Ok (), mount_banner reply port @ println (newline # ''Detaching port '' @ show_word port @ ''...''),
              os_sleep os 200 (snd (vhci_detach os port (waited wait w (Suc n)))))
          else
            Some (Err [''USB device connection lost (vhci port '' @ show_word port @ '' released)''],
              mount_banner reply port, waited wait w (Suc n)))"
    if "leaves os wait port w n" "\<forall>k < n. \<not> leaves os wait port w k" for n
    unfolding mount park_leaves [OF that(2,1)] by (cases "interrupted wait w n") simp_all
  ultimately show ?thesis by blast
qed

text \<open>
  A small world: the messages received and the waits so far. The server accepts the client and
  bridges device 1-2; port 1 of the table is free at first, in use for two waits and free again.
\<close>

definition rows_at :: "nat \<Rightarrow> port_row list" where
  "rows_at n = [\<lparr>pr_hub = ''hs'', pr_port = 1, pr_status = (if n = 1 \<or> n = 2 then 6 else 4), pr_rest = ''0-0''\<rparr>]"

definition lost_os :: "(nat \<times> nat) os" where
  "lost_os =
     \<lparr>os_read_to_string = (\<lambda>_ w. Ok (status_file (rows_at (snd w)))), os_read_dir = (\<lambda>_ _. Ok []),
      os_read_link = (\<lambda>_ _. Err ''none''), os_is_dir = (\<lambda>_ _. True), os_exists = (\<lambda>_ _. True),
      os_open_write = (\<lambda>_ _. Ok ()), os_write_all = (\<lambda>_ _ w. (Ok (), w)),
      os_command = (\<lambda>_ _ w. (Ok True, w)), os_sleep = (\<lambda>_ w. w)\<rparr>"

definition lost_net :: "(unit, unit, nat \<times> nat) net" where
  "lost_net =
     \<lparr>net_connect = (\<lambda>_ w. (Ok (), w)), net_server_name = Ok, net_tls = (\<lambda>_ _ _ w. (Ok (), w)),
      net_write = (\<lambda>_ _ w. (Ok (), w)),
      net_next = (\<lambda>_ (k, n).
        (Some (Ok (if k = 0 then
             HelloResponse \<lparr>hr_protocol_version = PROTOCOL_VERSION, hr_server_name = ''wolfusb'', hr_auth_accepted = True,
               hr_auth_challenge_response = [], hr_error_message = None\<rparr>
           else
             BridgeAccepted \<lparr>ba_device_id = \<lparr>bus_number = 1, address = 5\<rparr>, ba_busid = ''1-5-2'', ba_devid = 0, ba_speed = 0,
               ba_vendor_id = 0, ba_product_id = 0, ba_bcd_device = 0, ba_device_class = 0, ba_device_subclass = 0,
               ba_device_protocol = 0, ba_num_configurations = 0, ba_num_interfaces = 0, ba_config_value = 0\<rparr>)),
         (Suc k, n))),
      net_nonce = (\<lambda>w. ([], w))\<rparr>"

definition lost_tcp :: "(nat \<times> nat) tcp" where
  "lost_tcp =
     \<lparr>tcp_read_exact = (\<lambda>n w. Some (Ok (if n = 8 then take 8 (import_reply (sample_export ''1-2''))
                                  else to_wire_bytes (sample_export ''1-2'')), w)),
      tcp_write_all = (\<lambda>_ w. Some (Ok (), w)), tcp_flush = (\<lambda>w. (Ok (), w)), tcp_into_std = (\<lambda>w. (Ok 9, w)),
      tcp_set_blocking = (\<lambda>_ w. (Ok (), w))\<rparr>"

definition lost_wait :: "nat \<times> nat \<Rightarrow> bool \<times> nat \<times> nat" where
  "lost_wait w = (False, fst w, Suc (snd w))"

lemma rows_at_ok: "\<forall>r \<in> set (rows_at n). row_ok r"
  by (simp add: rows_at_def row_ok_def is_ws_def)

lemma lost_attach:
  "mount_attach lost_os lost_net (\<lambda>_. lost_tcp) hmac (\<lambda>_. Ok [0]) debug ru ''host:3240'' 1 5 None (0, 0) =
     Some (Ok (parse_import_reply (to_wire_bytes (sample_export ''1-2'')), 1), 2, 0)"
proof -
  have "encode (\<lambda>_. Ok [0]) m [] = (Ok (), to_be32 1 @ [0])" for m by (simp add: encode_def MAX_FRAME_SIZE_def)
  then have send: "net_send lost_net (\<lambda>_. Ok [0]) () m w = (Ok (), w)" for m w
    by (simp add: net_send_def lost_net_def)
  have hello: "do_hello lost_net hmac (\<lambda>_. Ok [0]) debug ru () None (0, 0) = (Ok (), Suc 0, 0)"
    by (simp add: do_hello_def send) (simp add: lost_net_def)
  have bridge: "send_bridge lost_net (\<lambda>_. Ok [0]) debug ru () 1 5 (Suc 0, 0) = (Ok ''1-5-2'', 2, 0)"
    by (simp add: send_bridge_def send) (simp add: lost_net_def numeral_2_eq_2)
  have imported: "op_req_import lost_tcp ''1-5-2'' w =
      Some (Ok (parse_import_reply (to_wire_bytes (sample_export ''1-2''))), w)" for w
    by (simp add: op_req_import_def lost_tcp_def import_reply_header)
  have "find_free_port lost_os p (2, 0) = Ok 1" for p
    using free_port_status_file [OF rows_at_ok, of 0] by (simp add: find_free_port_def lost_os_def rows_at_def)
  then have attached: "vhci_attach lost_os fd devid speed (2, 0) = (Ok 1, 2, 0)" for fd devid speed
    by (simp add: vhci_attach_def vhci_ensure_module_loaded_def vhci_path_first open_and_write_def lost_os_def)
  have "vhci_ensure_module_loaded lost_os w = (Ok (), w)" "net_connect lost_net s w = (Ok (), w)"
    "tcp_into_std lost_tcp w = (Ok 9, w)" "tcp_set_blocking lost_tcp fd w = (Ok (), w)" for w s fd
    by (simp_all add: vhci_ensure_module_loaded_def lost_os_def lost_net_def lost_tcp_def)
  then show ?thesis by (simp add: mount_attach_def wait_then_Ok try_then_Ok hello bridge imported attached)
qed

theorem mount_ends_when_port_is_lost_witness:
  "map_option fst (cmd_mount lost_os lost_net (\<lambda>_. lost_tcp) (\<lambda>k d. k @ d) (\<lambda>_. Ok [0]) (\<lambda>_. []) (\<lambda>_. []) lost_wait
     ''host:3240'' 1 5 None (0, 0)) = Some (Err [''USB device connection lost (vhci port 1 released)''])"
proof -
  have waited: "waited lost_wait (2, 0) n = (2, n)" for n
    by (induction n) (simp_all add: lost_wait_def)
  have use: "port_in_use lost_os 1 (2, n) \<longleftrightarrow> n = 1 \<or> n = 2" for n
    using port_in_use_table [of lost_os "(2, n)" "rows_at n" 1, OF _ rows_at_ok]
    by (simp add: lost_os_def) (auto simp: rows_at_def)
  have quiet: "interrupted lost_wait (2, 0) n = False" for n by (simp add: interrupted_def lost_wait_def)
  have leaves: "leaves lost_os lost_wait 1 (2, 0) n \<longleftrightarrow> 3 \<le> n" for n
    using waited [of "Suc n"] by (auto simp: leaves_def quiet waited use simp del: waited_simps)
  have first: "leaves lost_os lost_wait 1 (2, 0) 3 \<and> (\<forall>k < 3. \<not> leaves lost_os lost_wait 1 (2, 0) k)"
    by (auto simp: leaves)
  from mount_ends_when_port_is_lost [OF lost_attach] first quiet
  show ?thesis by (simp add: dec_eval del: waited_simps)
qed

section \<open>The import exchange against the server\<close>

text \<open>
  A socket pair: what the client writes is served by the server's side of the exchange
  (\<open>serve_import\<close>) before the client reads on.
\<close>

record pipe =
  pi_up :: bytes
  pi_down :: bytes
  pi_served :: "(anyhow, 32 word) result option"

text \<open>
  A socket over a world that holds its incoming bytes, says whether the other side has closed its end
  and what becomes of the bytes written. Reading more than is there is an error when the other side
  has closed, and waits otherwise.
\<close>

definition queue_tcp ::
  "('w \<Rightarrow> bytes) \<Rightarrow> (bytes \<Rightarrow> 'w \<Rightarrow> 'w) \<Rightarrow> ('w \<Rightarrow> bool) \<Rightarrow> (bytes \<Rightarrow> 'w \<Rightarrow> 'w) \<Rightarrow> 32 word \<Rightarrow> 'w tcp" where
  "queue_tcp queue set_queue closed written fd =
     \<lparr>tcp_read_exact = (\<lambda>n w.
        if n \<le> length (queue w) then Some (Ok (take n (queue w)), set_queue (drop n (queue w)) w)
        else if closed w then Some (Err ''early eof'', set_queue [] w) else None),
      tcp_write_all = (\<lambda>bs w. Some (Ok (), written bs w)), tcp_flush = (\<lambda>w. (Ok (), w)),
      tcp_into_std = (\<lambda>w. (Ok fd, w)), tcp_set_blocking = (\<lambda>_ w. (Ok (), w))\<rparr>"

definition server_end :: "32 word \<Rightarrow> pipe tcp" where
  "server_end = queue_tcp pi_up (\<lambda>bs p. p\<lparr>pi_up := bs\<rparr>) (\<lambda>_. False) (\<lambda>bs p. p\<lparr>pi_down := pi_down p @ bs\<rparr>)"

text \<open>The server serves what has come, or goes on waiting; when it gives up, it closes its end.\<close>

definition client_end :: "pipe os \<Rightarrow> 32 word \<Rightarrow> string \<Rightarrow> UsbipDeviceInfo \<Rightarrow> pipe tcp" where
  "client_end os fd name info =
     queue_tcp pi_down (\<lambda>bs p. p\<lparr>pi_down := bs\<rparr>)
       (\<lambda>p. case pi_served p of Some (Inl _) \<Rightarrow> True | _ \<Rightarrow> False)
       (\<lambda>bs p.
          let p = p\<lparr>pi_up := pi_up p @ bs\<rparr> in
          (case serve_import os (server_end fd) name info p of
             None \<Rightarrow> p
           | Some (r, p) \<Rightarrow> p\<lparr>pi_served := Some r\<rparr>)) fd"

lemma import_request_code: "be16_at (import_request busid) 2 = OP_REQ_IMPORT"
  by (simp add: import_request_def be16.get_skip be16.get_here)

lemma length_import_request: "length busid < 32 \<Longrightarrow> length (import_request busid) = 40"
  by (simp add: import_request_def)

lemma serve_import_queue:
  assumes "length busid < 32" "queue w = import_request busid"
  shows "serve_import os (queue_tcp queue set_queue closed written fd) name info w =
    Some (Ok fd, written (import_reply info) (set_queue [] w))"
proof -
  have "from_be16 (import_request busid ! 2) (import_request busid ! 3) = ServerBridge.OP_REQ_IMPORT"
    using import_request_code [of busid]
    by (simp add: be16_at_def OP_REQ_IMPORT_def ServerBridge.OP_REQ_IMPORT_def)
  then show ?thesis
    using length_import_request [OF assms(1)] assms(2)
    by (simp add: serve_import_def queue_tcp_def)
qed

lemma op_req_import_queue:
  assumes "length busid < 32" "queue (written (import_request busid) w) = import_reply info"
    and "\<And>bs v. queue (set_queue bs v) = bs" "\<And>bs bs' v. set_queue bs (set_queue bs' v) = set_queue bs v"
  shows "op_req_import (queue_tcp queue set_queue closed written fd) busid w =
    Some (Ok (parse_import_reply (to_wire_bytes info)), set_queue [] (written (import_request busid) w))"
  using assms import_reply_header import_reply_fields(4) [of info] wire_bytes_layout [of info]
  by (simp add: op_req_import_def queue_tcp_def)

lemma mask_16: "(0xFFFF :: u32) = mask 16"
  by (simp add: mask_eq_exp_minus_1)

lemma devid_parts:
  "take_bit 16 (push_bit 16 b OR (d AND 0xFFFF)) = take_bit 16 (d :: u32)"
  "drop_bit 16 (push_bit 16 b OR (d AND 0xFFFF)) = take_bit 16 (b :: u32)"
  unfolding mask_16 by (rule bit_word_eqI; auto simp: bit_simps)+

text \<open>C17: the two ends of the import exchange fit: whatever bus id the client asks for (under 32
  bytes), the server answers with the device it has bound and hands its socket on, and the client
  reads the answer back as that device: the bus and device number in the halves of the device id the
  kernel is given, the vendor and product, and the speed, whose code the virtual controller is given
  unchanged when it is one the kernel reports for a known speed, and as high speed otherwise.\<close>

theorem import_exchange_agrees:
  assumes "length busid < 32"
  shows "\<exists>reply. op_req_import (client_end os fd name info) busid \<lparr>pi_up = [], pi_down = [], pi_served = None\<rparr> =
      Some (Ok reply, \<lparr>pi_up = [], pi_down = [], pi_served = Some (Ok fd)\<rparr>) \<and>
    drop_bit 16 (ir_devid reply) = take_bit 16 (ui_bus_num info) \<and>
    take_bit 16 (ir_devid reply) = take_bit 16 (ui_dev_num info) \<and>
    ir_vendor_id reply = ui_vendor_id info \<and> ir_product_id reply = ui_product_id info \<and>
    as_u8 (mount_speed (ir_speed reply)) =
      (if (ucast (ui_speed info) :: u8) \<in> {1, 2, 3, 5, 6} then ucast (ui_speed info) else 3)"
proof -
  let ?dev = "to_wire_bytes info"
  have "op_req_import (client_end os fd name info) busid \<lparr>pi_up = [], pi_down = [], pi_served = None\<rparr> =
      Some (Ok (parse_import_reply ?dev), \<lparr>pi_up = [], pi_down = [], pi_served = Some (Ok fd)\<rparr>)"
    using assms unfolding client_end_def server_end_def
    by (subst op_req_import_queue [where info = info]) (simp_all add: serve_import_queue Let_def)
  moreover have "as_u8 (mount_speed n) = (if n \<in> {1, 2, 3, 5, 6} then n else 3)" for n
    by (simp add: mount_speed_def)
  moreover have "drop_bit 16 (ir_devid (parse_import_reply ?dev)) = take_bit 16 (ui_bus_num info)"
    "take_bit 16 (ir_devid (parse_import_reply ?dev)) = take_bit 16 (ui_dev_num info)"
    using wire_bytes_layout [of info]
    by (simp_all only: parse_import_reply_def ImportReply.select_convs devid_parts)
  moreover have "ir_vendor_id (parse_import_reply ?dev) = ui_vendor_id info"
    "ir_product_id (parse_import_reply ?dev) = ui_product_id info" "ir_speed (parse_import_reply ?dev) = ucast (ui_speed info)"
    using wire_bytes_layout [of info] by (simp_all add: parse_import_reply_def)
  ultimately show ?thesis by (intro exI [of _ "parse_import_reply ?dev"] conjI) simp_all
qed

theorem import_exchange_agrees_witness:
  "\<forall>os. \<exists>reply p. op_req_import (client_end os 9 ''1-2'' (sample_export ''1-2'')) ''1-5-2''
       \<lparr>pi_up = [], pi_down = [], pi_served = None\<rparr> = Some (Ok reply, p) \<and> as_u8 (mount_speed (ir_speed reply)) = 3"
proof
  fix os :: "pipe os"
  show "\<exists>reply p. op_req_import (client_end os 9 ''1-2'' (sample_export ''1-2'')) ''1-5-2''
       \<lparr>pi_up = [], pi_down = [], pi_served = None\<rparr> = Some (Ok reply, p) \<and> as_u8 (mount_speed (ir_speed reply)) = 3"
    using import_exchange_agrees [of "''1-5-2''" os 9 "''1-2''" "sample_export ''1-2''"]
    by (auto simp: sample_export_def)
qed

end
