(* ===== verification/MountLink.thy ===== *)
theory MountLink
  imports Mount Loopback
begin

text \<open>
  The whole of a mount: the client of theory \<open>Mount\<close> against the server's connection (\<open>Connection\<close>,
  through the link of \<open>Loopback\<close>) and its bridge (\<open>ServerBridge\<close>), each side with a kernel of its own.
  One world holds the link, the bytes on the raw socket and the two kernels; an operating system that
  is part of a larger world is lifted to it.
\<close>

section \<open>A system that is part of a world\<close>

definition lift_os :: "('w \<Rightarrow> 'v) \<Rightarrow> ('v \<Rightarrow> 'w \<Rightarrow> 'w) \<Rightarrow> 'v os \<Rightarrow> 'w os" where
  "lift_os get put os =
     \<lparr>os_read_to_string = (\<lambda>p w. os_read_to_string os p (get w)),
      os_read_dir = (\<lambda>p w. os_read_dir os p (get w)), os_read_link = (\<lambda>p w. os_read_link os p (get w)),
      os_is_dir = (\<lambda>p w. os_is_dir os p (get w)), os_exists = (\<lambda>p w. os_exists os p (get w)),
      os_open_write = (\<lambda>p w. os_open_write os p (get w)),
      os_write_all = (\<lambda>p s w. (case os_write_all os p s (get w) of (r, v) \<Rightarrow> (r, put v w))),
      os_command = (\<lambda>c args w. (case os_command os c args (get w) of (r, v) \<Rightarrow> (r, put v w))),
      os_sleep = (\<lambda>n w. put (os_sleep os n (get w)) w)\<rparr>"



section \<open>A network that is part of a world\<close>



section \<open>The device that is prepared\<close>





section \<open>Both sides in one world\<close>

record ('h, 'u, 'k, 'c) site =
  s_link :: "('h, 'u) link"
  s_server :: 'k
  s_client :: 'c
  s_up :: bytes
  s_down :: bytes
  s_bridge :: "(anyhow, unit) result option"
  s_closed :: bool




definition server_os :: "'k os \<Rightarrow> ('h, 'u, 'k, 'c) site os" where
  "server_os = lift_os s_server (\<lambda>k w. w\<lparr>s_server := k\<rparr>)"



definition server_sock :: "32 word \<Rightarrow> ('h, 'u, 'k, 'c) site tcp" where
  "server_sock = queue_tcp s_up (\<lambda>bs w. w\<lparr>s_up := bs\<rparr>) (\<lambda>_. False) (\<lambda>bs w. w\<lparr>s_down := s_down w @ bs\<rparr>)"

text \<open>
  The server after the handoff, up to the moment its kernel is given the socket: a plain connection
  runs the bridge on its socket, which closes it when it fails; a TLS connection is dropped. The bridge
  takes the client's request when all of it is there and waits until then. What the client writes once
  the server has handed off goes to this.
\<close>

definition bridge_side :: "'k os \<Rightarrow> 32 word \<Rightarrow> DeviceId \<Rightarrow> ('h, 'u, 'k, 'c) site \<Rightarrow> ('h, 'u, 'k, 'c) site" where
  "bridge_side os fd target w =
     (case stream (lk_conn (s_link w)) of
        Tls \<Rightarrow> w\<lparr>s_closed := True\<rparr>
      | Plain \<Rightarrow>
          (case bridge_prepare (server_os os) target w of
             (Inl e, w) \<Rightarrow> w\<lparr>s_bridge := Some (Err e), s_closed := True\<rparr>
           | (Inr (busid, info), w') \<Rightarrow>
               (case serve_import (server_os os) (server_sock fd) busid info w' of
                  None \<Rightarrow> w
                | Some (Inl e, w) \<Rightarrow> w\<lparr>s_bridge := Some (Err e), s_closed := True\<rparr>
                | Some (Inr fd, w) \<Rightarrow>
                    (case attach_socket (server_os os) busid fd w of
                       (Inl e, w) \<Rightarrow>
                         (case usbip_unbind (server_os os) busid w of
                            (_, w) \<Rightarrow> w\<lparr>s_bridge := Some (Err (''kernel rejected usbip_sockfd attach'' # e)),
                                       s_closed := True\<rparr>)
                     | (Inr _, w) \<Rightarrow> w\<lparr>s_bridge := Some (Ok ())\<rparr>))))"

definition client_sock :: "'k os \<Rightarrow> 32 word \<Rightarrow> 32 word \<Rightarrow> ('h, 'u, 'k, 'c) site tcp" where
  "client_sock os sfd cfd =
     queue_tcp s_down (\<lambda>bs w. w\<lparr>s_down := bs\<rparr>) s_closed
       (\<lambda>bs w.
          let w = w\<lparr>s_up := s_up w @ bs\<rparr>
          in case lk_handoff (s_link w) of Some target \<Rightarrow> bridge_side os sfd target w | None \<Rightarrow> w) cfd"

section \<open>The framed part\<close>




section \<open>The kernels, joined\<close>





text \<open>A TLS connection is not bridged: the server drops it, and the client's import fails.\<close>

lemma import_over_tls:
  assumes "stream (lk_conn (s_link w)) = Tls" "lk_handoff (s_link w) = Some target"
    and "s_down w = []" "length busid < 32"
  shows "op_req_import (client_sock os sfd cfd) busid w =
    Some (Err [''Failed to read OP_REP_IMPORT header'', ''early eof''],
      w\<lparr>s_up := s_up w @ import_request busid, s_closed := True\<rparr>)"
  using assms by (simp add: op_req_import_def client_sock_def queue_tcp_def bridge_side_def Let_def)






end
