(* ===== verification/Display.thy ===== *)
theory Display
  imports Protocol Os
begin

text \<open>
  \<open>src/src/client/display.rs\<close>: what the client prints, as the text of its output, and the parser
  of hex data given on the command line.
\<close>

section \<open>Tables\<close>

definition class_names :: "(u8 \<times> string) list" where
  "class_names =
     [(0x00, ''Per-Iface''), (0x01, ''Audio''), (0x02, ''CDC''), (0x03, ''HID''), (0x05, ''Physical''),
      (0x06, ''Image''), (0x07, ''Printer''), (0x08, ''Storage''), (0x09, ''Hub''), (0x0A, ''CDC-Data''),
      (0x0B, ''SmartCard''), (0x0D, ''ContentSec''), (0x0E, ''Video''), (0x0F, ''Healthcare''),
      (0x10, ''AV''), (0x11, ''Billboard''), (0xDC, ''Diagnostic''), (0xE0, ''Wireless''),
      (0xEF, ''Misc''), (0xFE, ''App-Spec''), (0xFF, ''Vendor'')]"

definition format_class :: "u8 \<Rightarrow> u8 \<Rightarrow> string" where
  "format_class cls subclass = (case map_of class_names cls of Some n \<Rightarrow> n | None \<Rightarrow> ''Unknown'')"

fun speed_label :: "UsbSpeed \<Rightarrow> string" where
  "speed_label SpeedUnknown = ''?''"
| "speed_label SpeedLow = ''1.5M''"
| "speed_label SpeedFull = ''12M''"
| "speed_label SpeedHigh = ''480M''"
| "speed_label SpeedSuper = ''5G''"
| "speed_label SpeedSuperPlus = ''10G''"

definition or_dash :: "string option \<Rightarrow> string" where
  "or_dash s = (case s of Some t \<Rightarrow> t | None \<Rightarrow> ''-'')"

definition vid_pid :: "DeviceInfo \<Rightarrow> string" where
  "vid_pid d = hex_pad 4 (di_vendor_id d) @ '':'' @ hex_pad 4 (di_product_id d)"

definition device_row :: "DeviceInfo \<Rightarrow> string" where
  "device_row d = println
     (pad_right 7 (display_device_id (di_device_id d)) @ '' '' @ vid_pid d @ '' ''
      @ pad_right 6 (speed_label (di_speed d)) @ '' ''
      @ pad_right 10 (format_class (di_class_code d) (di_sub_class_code d)) @ '' ''
      @ pad_right 24 (or_dash (di_manufacturer d)) @ '' '' @ pad_right 24 (or_dash (di_product d)) @ '' ''
      @ or_dash (di_serial_number d))"

definition print_device_list :: "DeviceInfo list \<Rightarrow> string" where
  "print_device_list devices =
     (if devices = [] then println ''No USB devices found.''
      else
        println (pad_right 7 ''Bus:Addr'' @ '' '' @ pad_right 9 ''VID:PID'' @ '' '' @ pad_right 6 ''Speed'' @ '' ''
          @ pad_right 10 ''Class'' @ '' '' @ pad_right 24 ''Manufacturer'' @ '' '' @ pad_right 24 ''Product''
          @ '' Serial'')
        @ println (replicate 100 (CHR ''-''))
        @ concat (map device_row devices))"

section \<open>The descriptor tree\<close>

fun debug_speed :: "UsbSpeed \<Rightarrow> string" where
  "debug_speed SpeedUnknown = ''Unknown''"
| "debug_speed SpeedLow = ''Low''"
| "debug_speed SpeedFull = ''Full''"
| "debug_speed SpeedHigh = ''High''"
| "debug_speed SpeedSuper = ''Super''"
| "debug_speed SpeedSuperPlus = ''SuperPlus''"

definition show_version :: "u8 \<times> u8 \<times> u8 \<Rightarrow> string" where
  "show_version v = (case v of (a, b, c) \<Rightarrow> show_word a @ ''.'' @ show_word b @ ''.'' @ show_word c)"

definition show_bool :: "bool \<Rightarrow> string" where
  "show_bool b = (if b then ''true'' else ''false'')"

definition class_line :: "u8 \<Rightarrow> u8 \<Rightarrow> u8 \<Rightarrow> string" where
  "class_line cls sub proto =
     format_class cls sub @ '' ('' @ hex_pad 2 cls @ '':'' @ hex_pad 2 sub @ '':'' @ hex_pad 2 proto @ '')''"

fun direction_label :: "UsbDirection \<Rightarrow> string" where
  "direction_label DirIn = ''IN''"
| "direction_label DirOut = ''OUT''"

fun transfer_label :: "UsbTransferType \<Rightarrow> string" where
  "transfer_label TTControl = ''Control''"
| "transfer_label TTIsochronous = ''Isochronous''"
| "transfer_label TTBulk = ''Bulk''"
| "transfer_label TTInterrupt = ''Interrupt''"

definition optional_line :: "string \<Rightarrow> string option \<Rightarrow> string" where
  "optional_line label s = (case s of Some t \<Rightarrow> println (label @ t) | None \<Rightarrow> [])"

definition device_lines :: "DeviceInfo \<Rightarrow> string" where
  "device_lines dev =
     println (''Device: '' @ display_device_id (di_device_id dev))
     @ println (''  VID:PID:        '' @ vid_pid dev)
     @ println (''  USB Version:    '' @ show_version (di_usb_version dev))
     @ println (''  Device Version: '' @ show_version (di_device_version dev))
     @ println (''  Class:          '' @ class_line (di_class_code dev) (di_sub_class_code dev) (di_protocol_code dev))
     @ println (''  Max Packet EP0: '' @ show_word (di_max_packet_size_ep0 dev))
     @ println (''  Speed:          '' @ debug_speed (di_speed dev))
     @ optional_line ''  Manufacturer:   '' (di_manufacturer dev)
     @ optional_line ''  Product:        '' (di_product dev)
     @ optional_line ''  Serial:         '' (di_serial_number dev)
     @ println (''  Configurations: '' @ show_word (di_num_configurations dev))"

definition endpoint_line :: "EndpointInfo \<Rightarrow> string" where
  "endpoint_line ep = println
     (''        EP 0x'' @ hex_pad 2 (ep_address ep) @ '': '' @ direction_label (ep_direction ep) @ '' ''
      @ transfer_label (ep_transfer_type ep) @ '' (max '' @ show_word (ep_max_packet_size ep)
      @ '' bytes, interval '' @ show_word (ep_interval ep) @ '')'')"

definition interface_lines :: "InterfaceInfo \<Rightarrow> string" where
  "interface_lines i =
     println []
     @ println (''    Interface '' @ show_word (ii_interface_number i) @ '' (alt setting ''
         @ show_word (ii_setting_number i) @ ''):'')
     @ println (''      Class:     '' @ class_line (ii_class_code i) (ii_sub_class_code i) (ii_protocol_code i))
     @ println (''      Endpoints: '' @ show_word (ii_num_endpoints i))
     @ concat (map endpoint_line (ii_endpoints i))"

definition configuration_lines :: "ConfigurationInfo \<Rightarrow> string" where
  "configuration_lines c =
     println []
     @ println (''  Configuration '' @ show_word (ci_number c) @ '':'')
     @ println (''    Interfaces:    '' @ show_word (ci_num_interfaces c))
     @ println (''    Max Power:     '' @ show_word (ci_max_power_ma c) @ '' mA'')
     @ println (''    Self Powered:  '' @ show_bool (ci_self_powered c))
     @ println (''    Remote Wakeup: '' @ show_bool (ci_remote_wakeup c))
     @ concat (map interface_lines (ci_interfaces c))"

definition print_descriptor_tree :: "DeviceDescriptorTree \<Rightarrow> string" where
  "print_descriptor_tree tree =
     device_lines (tree_device tree) @ concat (map configuration_lines (tree_configurations tree))"

section \<open>Transfers and hex dumps\<close>

text \<open>\<open>slice::chunks\<close>.\<close>

fun chunks :: "nat \<Rightarrow> 'a list \<Rightarrow> 'a list list" where
  "chunks n xs = (if xs = [] \<or> n = 0 then [] else take n xs # chunks n (drop n xs))"

declare chunks.simps [simp del]

definition dump_char :: "u8 \<Rightarrow> char" where
  "dump_char b = (if 0x21 \<le> b \<and> b \<le> 0x7E \<or> b = 0x20 then char_of (unat b) else CHR ''.'')"

definition dump_line :: "nat \<Rightarrow> bytes \<Rightarrow> string" where
  "dump_line i chunk =
     zero_pad 8 (hex_str (i * 16)) @ ''  ''
     @ concat (map (\<lambda>(j, b). (if j = 8 then '' '' else []) @ hex_pad 2 b @ '' '') (enumerate 0 chunk))
     @ concat (map (\<lambda>j. (if length chunk + j = 8 then '' '' else []) @ ''   '') [0..<16 - length chunk])
     @ '' |'' @ map dump_char chunk @ ''|'' @ [newline]"

definition hex_dump :: "bytes \<Rightarrow> string" where
  "hex_dump dat = concat (map (\<lambda>(i, chunk). dump_line i chunk) (enumerate 0 (chunks 16 dat)))"

definition print_transfer_result :: "TransferResponse \<Rightarrow> string" where
  "print_transfer_result resp =
     (if tr_success resp then
        println (''Transfer OK: '' @ show_word (tr_bytes_transferred resp) @ '' bytes transferred'')
        @ (if tr_data resp \<noteq> [] then println (hex_dump (tr_data resp)) else [])
      else
        println (''Transfer FAILED: '' @ (case tr_error_message resp of Some e \<Rightarrow> e | None \<Rightarrow> ''Unknown error'')))"

section \<open>Hex data\<close>

text \<open>
  The pairs are taken in order; the first that is no hex byte ends the parse with an error.
  \<open>None\<close> is the panic of a slice that does not end at a character boundary.
\<close>

fun parse_pairs :: "string \<Rightarrow> nat list \<Rightarrow> (anyhow, bytes) result option" where
  "parse_pairs s [] = Some (Ok [])"
| "parse_pairs s (i # is) =
     (case slice s i (i + 2) of
        None \<Rightarrow> None
      | Some t \<Rightarrow>
          (case parse_word 16 t of
             Inl e \<Rightarrow> Some (Err [''Invalid hex at position '' @ dec_str i @ '': '' @ parse_int_error e])
           | Inr b \<Rightarrow> map_option (map_sum id ((#) b)) (parse_pairs s is)))"

definition is_separator :: "char \<Rightarrow> bool" where
  "is_separator c \<longleftrightarrow> c = CHR '' '' \<or> c = CHR '':'' \<or> c = CHR 0x09"

definition parse_hex_data :: "string \<Rightarrow> (anyhow, bytes) result option" where
  "parse_hex_data text =
     (let s = remove_all ''0X'' (remove_all ''0x'' (filter (\<lambda>c. \<not> is_separator c) text))
      in if length s mod 2 \<noteq> 0 then Some (Err [''Hex string must have even number of characters''])
         else parse_pairs s (map (\<lambda>k. 2 * k) [0..<length s div 2]))"

section \<open>Reading hex data\<close>

lemma length_hex_pad_u8 [simp]: "length (hex_pad 2 (b :: u8)) = 2"
proof -
  have "unat b < 16 ^ Suc 1" using unsigned_less [of b, where ?'a = nat] by simp
  from length_radix_str [OF _ this] show ?thesis by (simp add: hex_pad_def zero_pad_def)
qed

text \<open>Bytes of two hex digits, each with or without a prefix.\<close>

definition hex_tokens :: "(string \<times> u8) list \<Rightarrow> string" where
  "hex_tokens ts = concat (map (\<lambda>(pre, b). pre @ hex_pad 2 b) ts)"

definition prefix_ok :: "string \<Rightarrow> bool" where
  "prefix_ok pre \<longleftrightarrow> pre = [] \<or> pre = ''0x'' \<or> pre = ''0X''"

definition drop_prefix :: "string \<Rightarrow> string \<Rightarrow> string" where
  "drop_prefix p pre = (if pre = p then [] else pre)"

lemma drop_prefixes:
  "prefix_ok pre \<Longrightarrow> drop_prefix ''0X'' (drop_prefix ''0x'' pre) = []"
  "prefix_ok pre \<Longrightarrow> prefix_ok (drop_prefix p pre)"
  by (auto simp: prefix_ok_def drop_prefix_def)

lemma hex_pad_cases:
  obtains d e where "hex_pad 2 (b :: u8) = [d, e]" "digit_class d" "digit_class e"
proof -
  obtain d e where "hex_pad 2 b = [d, e]"
    using length_hex_pad_u8 [of b] by (metis (no_types) length_0_conv length_Suc_conv numeral_2_eq_2)
  with hex_pad_digits [of _ 2 b] that show thesis by auto
qed

lemma remove_all_skip: "take (length p) (c # s) \<noteq> p \<Longrightarrow> remove_all p (c # s) = c # remove_all p s"
  by simp

lemma remove_prefix_tokens:
  assumes "x = CHR ''x'' \<or> x = CHR ''X''" "\<forall>(pre, b) \<in> set ts. prefix_ok pre"
  shows "remove_all [CHR ''0'', x] (hex_tokens ts) =
    hex_tokens (map (apfst (drop_prefix [CHR ''0'', x])) ts)"
  using assms(2)
proof (induction ts)
  case Nil
  then show ?case by (simp add: hex_tokens_def)
next
  case (Cons t ts)
  obtain pre b where t: "t = (pre, b)" by fastforce
  obtain d e where de: "hex_pad 2 b = [d, e]" "digit_class d" "digit_class e" by (rule hex_pad_cases)
  have "hex_tokens ts = [] \<or> hd (hex_tokens ts) \<noteq> x"
  proof (cases ts)
    case (Cons t' ts')
    obtain pre' b' where t': "t' = (pre', b')" by fastforce
    obtain d' e' where h: "hex_pad 2 b' = [d', e']" "digit_class d'" by (rule hex_pad_cases)
    have "prefix_ok pre'" using Cons Cons.prems t' by simp
    moreover have "hex_tokens ts = pre' @ d' # e' # hex_tokens ts'" by (simp add: hex_tokens_def Cons t' h(1))
    ultimately have "hd (hex_tokens ts) = CHR ''0'' \<or> hd (hex_tokens ts) = d'" by (auto simp: prefix_ok_def)
    moreover have "d' \<noteq> x" using digit_class_plain(2,3) [OF h(2)] assms(1) by blast
    ultimately show ?thesis using assms(1) by auto
  qed (simp add: hex_tokens_def)
  then have e: "remove_all [CHR ''0'', x] (e # hex_tokens ts) = e # remove_all [CHR ''0'', x] (hex_tokens ts)"
    by (intro remove_all_skip) (cases "hex_tokens ts"; auto)
  have "d \<noteq> x" "e \<noteq> x" using digit_class_plain(2,3) [OF de(2)] digit_class_plain(2,3) [OF de(3)] assms(1) by blast+
  then have de': "remove_all [CHR ''0'', x] (d # e # hex_tokens ts) = d # e # remove_all [CHR ''0'', x] (hex_tokens ts)"
    using e by (subst remove_all_skip) simp_all
  have tok: "hex_tokens (t # ts) = pre @ d # e # hex_tokens ts" by (simp add: hex_tokens_def t de(1))
  have "prefix_ok pre" using Cons.prems t by simp
  then have "remove_all [CHR ''0'', x] (hex_tokens (t # ts)) =
      (if pre = [CHR ''0'', x] then [] else pre) @ d # e # remove_all [CHR ''0'', x] (hex_tokens ts)"
    using assms(1) \<open>d \<noteq> x\<close> de' unfolding tok prefix_ok_def by auto
  then show ?case using Cons by (simp add: t hex_tokens_def de(1) drop_prefix_def)
qed

lemma parse_pairs_bytes:
  assumes "\<And>k. k < length bs \<Longrightarrow> slice s (2 * (m + k)) (2 * (m + k) + 2) = Some (hex_pad 2 (bs ! k))"
  shows "parse_pairs s (map (\<lambda>k. 2 * k) [m..<m + length bs]) = Some (Ok bs)"
  using assms
proof (induction bs arbitrary: m)
  case (Cons b bs)
  have "slice s (2 * m) (2 * m + 2) = Some (hex_pad 2 b)" using Cons.prems [of 0] by simp
  moreover have "parse_pairs s (map (\<lambda>k. 2 * k) [Suc m..<Suc m + length bs]) = Some (Ok bs)"
    using Cons.prems [of "Suc k" for k] by (intro Cons.IH) simp
  ultimately show ?case by (simp add: upt_conv_Cons del: upt_Suc)
qed simp

lemma hex_bytes_slice:
  assumes "k < length bs"
  shows "slice (concat (map (hex_pad 2) bs)) (2 * k) (2 * k + 2) = Some (hex_pad 2 (bs ! k :: u8))"
proof -
  let ?s = "concat (map (hex_pad 2) bs)"
  have len: "length (concat (map (hex_pad 2) (xs :: bytes))) = 2 * length xs" for xs by (induction xs) auto
  have split: "bs = take k bs @ bs ! k # drop (Suc k) bs" using assms by (simp add: id_take_nth_drop)
  have "?s = concat (map (hex_pad 2) (take k bs)) @ hex_pad 2 (bs ! k) @ concat (map (hex_pad 2) (drop (Suc k) bs))"
    by (subst split) simp
  then have cut: "take 2 (drop (2 * k) ?s) = hex_pad 2 (bs ! k)"
    using assms by (simp add: len)
  have plain: "\<forall>c \<in> set ?s. \<not> continuation c" by (auto dest: hex_pad_digits digit_class_plain)
  have "is_char_boundary ?s i" if "i \<le> length ?s" for i
    using plain that nth_mem [of i ?s] by (cases "i = length ?s") (auto simp: is_char_boundary_def)
  with cut assms show ?thesis by (simp add: slice_def len)
qed

lemma parse_hex_tokens:
  assumes "filter (\<lambda>c. \<not> is_separator c) text = hex_tokens ts" "\<forall>(pre, b) \<in> set ts. prefix_ok pre"
  shows "parse_hex_data text = Some (Ok (map snd ts))"
proof -
  let ?drop = "\<lambda>x. map (apfst (drop_prefix [CHR ''0'', x]))"
  have ok: "\<forall>(pre, b) \<in> set (?drop (CHR ''x'') ts). prefix_ok pre"
    using assms(2) drop_prefixes(2) by (simp add: case_prod_beta)
  have bare: "hex_tokens (?drop (CHR ''X'') (?drop (CHR ''x'') ts)) = concat (map (hex_pad 2) (map snd ts))"
    using assms(2) unfolding hex_tokens_def by (induction ts) (auto simp: drop_prefixes)
  have len: "length (concat (map (hex_pad 2) (xs :: bytes))) = 2 * length xs" for xs by (induction xs) auto
  have "remove_all ''0X'' (remove_all ''0x'' (hex_tokens ts)) = concat (map (hex_pad 2) (map snd ts))"
    using remove_prefix_tokens [OF _ assms(2), of "CHR ''x''"] remove_prefix_tokens [OF _ ok, of "CHR ''X''"] bare
    by simp
  moreover have "parse_pairs (concat (map (hex_pad 2) (map snd ts))) (map (\<lambda>k. 2 * k) [0..<0 + length (map snd ts)]) =
      Some (Ok (map snd ts))"
    by (rule parse_pairs_bytes) (use hex_bytes_slice [of _ "map snd ts"] in simp)
  ultimately show ?thesis by (simp add: parse_hex_data_def assms(1) len del: map_map)
qed

section \<open>What is dumped can be read back\<close>

lemma concat_chunks: "0 < n \<Longrightarrow> concat (chunks n xs) = xs"
  by (induction n xs rule: chunks.induct) (subst chunks.simps, auto)

lemma chunks_short: "c \<in> set (chunks n xs) \<Longrightarrow> length c \<le> n \<and> c \<noteq> []"
  by (induction n xs rule: chunks.induct) (subst (asm) (2) chunks.simps, auto split: if_splits)

lemma length_chunks: "0 < n \<Longrightarrow> n * length (chunks n xs) < length xs + n"
proof (induction n xs rule: chunks.induct)
  case (1 n xs)
  show ?case
  proof (cases "xs = [] \<or> length xs \<le> n")
    case True
    then show ?thesis using 1(2) by (auto simp: chunks.simps [of n xs] chunks.simps [of n "[]"])
  next
    case False
    with 1 have "n * length (chunks n (drop n xs)) < length xs" by simp
    with False show ?thesis by (subst chunks.simps) auto
  qed
qed

definition dump_cell :: "bytes \<Rightarrow> nat \<Rightarrow> string" where
  "dump_cell chunk j = (if j = 8 then '' '' else []) @
     (if j < length chunk then hex_pad 2 (chunk ! j) else ''  '') @ '' ''"

definition dump_cells :: "bytes \<Rightarrow> string" where
  "dump_cells chunk = concat (map (dump_cell chunk) [0..<16])"

lemma upt_16: "k \<le> 16 \<Longrightarrow> [0..<16] = [0..<k] @ [k..<16]"
  using upt_add_eq_append [of 0 k "16 - k"] by simp

lemma dump_cells_eq:
  assumes "length chunk \<le> 16"
  shows "concat (map (\<lambda>(j, b). (if j = 8 then '' '' else []) @ hex_pad 2 b @ '' '') (enumerate 0 chunk))
     @ concat (map (\<lambda>j. (if length chunk + j = 8 then '' '' else []) @ ''   '') [0..<16 - length chunk]) =
    dump_cells chunk"
proof -
  have split: "[0..<16] = [0..<length chunk] @ map ((+) (length chunk)) [0..<16 - length chunk]"
  proof -
    have "map ((+) (length chunk)) [0..<16 - length chunk] = [length chunk..<16]"
      using assms by (intro nth_equalityI) auto
    with upt_16 [OF assms] show ?thesis by simp
  qed
  have "map (\<lambda>(j, b). (if j = 8 then '' '' else []) @ hex_pad 2 b @ '' '') (enumerate 0 chunk) =
      map (dump_cell chunk) [0..<length chunk]"
    by (simp add: map_enumerate dump_cell_def)
  moreover have "map (\<lambda>j. (if length chunk + j = 8 then '' '' else []) @ ''   '') [0..<16 - length chunk] =
      map (dump_cell chunk) (map ((+) (length chunk)) [0..<16 - length chunk])"
    by (simp add: dump_cell_def)
  ultimately show ?thesis unfolding dump_cells_def split by (simp only: map_append concat_append)
qed

lemma length_dump_cells [simp]: "length (dump_cells chunk) = 49"
  by (simp add: dump_cells_def dump_cell_def upt_conv_Cons)

lemma dump_cells_bytes:
  assumes "length chunk \<le> 16"
  shows "filter (\<lambda>c. \<not> is_separator c) (dump_cells chunk) = hex_tokens (map (Pair []) chunk)"
proof -
  have keep: "filter (\<lambda>c. \<not> is_separator c) (hex_pad 2 b) = hex_pad 2 b" for b :: u8
    by (rule filter_True) (auto dest!: hex_pad_digits simp: is_separator_def digit_class_def)
  have "filter (\<lambda>c. \<not> is_separator c) (dump_cell chunk j) =
      (if j < length chunk then hex_pad 2 (chunk ! j) else [])" for j
    using keep by (simp add: dump_cell_def is_separator_def)
  then have "filter (\<lambda>c. \<not> is_separator c) (dump_cells chunk) =
      concat (map (\<lambda>j. if j < length chunk then hex_pad 2 (chunk ! j) else []) [0..<16])"
    by (simp add: dump_cells_def filter_concat comp_def)
  also have "[0..<16] = [0..<length chunk] @ [length chunk..<16]"
    by (rule upt_16 [OF assms])
  also have "concat (map (\<lambda>j. if j < length chunk then hex_pad 2 (chunk ! j) else []) \<dots>) =
      concat (map (\<lambda>j. hex_pad 2 (chunk ! j)) [0..<length chunk])"
  proof -
    have "concat (map (\<lambda>j. if j < length chunk then hex_pad 2 (chunk ! j) else []) [length chunk..<16]) = []"
      by simp
    moreover have "map (\<lambda>j. if j < length chunk then hex_pad 2 (chunk ! j) else []) [0..<length chunk] =
        map (\<lambda>j. hex_pad 2 (chunk ! j)) [0..<length chunk]"
      by simp
    ultimately show ?thesis by (simp only: map_append concat_append append_Nil2)
  qed
  also have "map (\<lambda>j. hex_pad 2 (chunk ! j)) [0..<length chunk] = map (hex_pad 2) chunk"
    by (rule nth_equalityI) simp_all
  finally show ?thesis by (simp add: hex_tokens_def comp_def)
qed

text \<open>C25: a hex dump loses nothing and can be given back as data: the dump has one line for every
  sixteen bytes, and the hex columns of a line (from column 10, 49 wide) are read back by the parser
  of hex data as exactly these bytes. The parser accepts more: bytes of two digits separated at will
  by spaces, colons and tabs, each with or without a \<open>0x\<close> or \<open>0X\<close>.\<close>

theorem hex_dump_roundtrip:
  assumes "length dat < 2 ^ 32"
  shows "map (\<lambda>l. parse_hex_data (take 49 (drop 10 l))) (str_lines (hex_dump dat)) =
      map (\<lambda>c. Some (Ok c)) (chunks 16 dat) \<and>
    concat (chunks 16 dat) = dat \<and>
    (\<forall>text ts. filter (\<lambda>c. c \<noteq> CHR '' '' \<and> c \<noteq> CHR '':'' \<and> c \<noteq> CHR 0x09) text = hex_tokens ts \<and> (\<forall>(pre, b) \<in> set ts. prefix_ok pre) \<longrightarrow>
       parse_hex_data text = Some (Ok (map snd ts)))"
proof -
  define row where "row = (\<lambda>(i, c). zero_pad 8 (hex_str (i * 16)) @ ''  '' @ dump_cells c @ '' |'' @ map dump_char c @ ''|'')"
  let ?ics = "enumerate 0 (chunks 16 dat)"
  have mem: "length c \<le> 16 \<and> i * 16 < 2 ^ 32" if "(i, c) \<in> set ?ics" for i c
  proof -
    from that have "i < length (chunks 16 dat)" "c \<in> set (chunks 16 dat)" by (auto simp: in_set_enumerate_eq)
    with length_chunks [of 16 dat] chunks_short [of c 16 dat] assms show ?thesis by simp
  qed
  have "dump_line i c = row (i, c) @ [newline]" if "(i, c) \<in> set ?ics" for i c
    using dump_cells_eq [of c] mem [OF that] by (simp add: dump_line_def row_def flip: append_assoc)
  then have dump: "hex_dump dat = concat (map (\<lambda>l. l @ [newline]) (map row ?ics))"
    unfolding hex_dump_def by (auto simp: comp_def intro!: arg_cong [where f = concat] map_cong)
  have clean: "newline \<notin> set (row x)" for x
  proof -
    have "newline \<notin> set (zero_pad 8 (hex_str n))" for n
      using zero_pad_digits [of "hex_str n" newline 8] radix_str_digits [of 16 _ n] digit_class_plain(8) by fastforce
    moreover have "newline \<notin> set (hex_pad 2 (b :: u8))" for b using hex_pad_digits digit_class_plain(8) by blast
    moreover have "newline \<noteq> dump_char b" for b
      by (auto simp: dump_char_def word_le_nat_alt dest: arg_cong [where f = "of_char :: char \<Rightarrow> nat"])
    ultimately show ?thesis by (cases x) (auto simp: row_def dump_cells_def dump_cell_def)
  qed
  have cr: "strip_cr (row x) = row x" for x
    by (cases x) (simp add: row_def strip_cr_def)
  have "parse_hex_data (take 49 (drop 10 (row x))) = Some (Ok (snd x))" if "x \<in> set ?ics" for x
  proof -
    obtain i c where x: "x = (i, c)" by fastforce
    then have "take 49 (drop 10 (row x)) = dump_cells c"
      using mem that by (simp add: row_def length_zero_pad_hex)
    moreover have "filter (\<lambda>c. \<not> is_separator c) (dump_cells c) = hex_tokens (map (Pair []) c)"
      using mem that x by (intro dump_cells_bytes) blast
    then have "parse_hex_data (dump_cells c) = Some (Ok (map snd (map (Pair ([] :: string)) c)))"
      by (rule parse_hex_tokens) (simp add: prefix_ok_def)
    ultimately show ?thesis by (simp add: x comp_def)
  qed
  then have "map (\<lambda>l. parse_hex_data (take 49 (drop 10 l))) (str_lines (hex_dump dat)) =
      map (\<lambda>x. Some (Ok (snd x))) ?ics"
    unfolding dump using clean by (simp add: str_lines_concat del: map_map) (simp add: comp_def cr)
  also have "\<dots> = map (\<lambda>c. Some (Ok c)) (chunks 16 dat)"
    by (rule nth_equalityI) (simp_all add: nth_enumerate_eq)
  finally show ?thesis using parse_hex_tokens by (simp add: concat_chunks is_separator_def)
qed

theorem hex_dump_roundtrip_witness:
  "map (\<lambda>l. parse_hex_data (take 49 (drop 10 l))) (str_lines (hex_dump [0x80, 0x06, 0xFF])) =
     [Some (Ok [0x80, 0x06, 0xFF])]"
  using hex_dump_roundtrip [of "[0x80, 0x06, 0xFF]"] by (simp add: chunks.simps)

text \<open>
  Two inputs of the parser: a sign is taken for a digit, and text outside ASCII makes it panic when a
  pair ends inside a character.
\<close>

lemma hex_data_accepts_sign: "parse_hex_data ''+f'' = Some (Ok [0x0F])"
  by (simp add: parse_hex_data_def is_separator_def slice_def is_char_boundary_def continuation_def
      parse_word_def from_str_radix_def to_digit_def)

lemma hex_data_panics: "parse_hex_data (CHR ''a'' # [CHR 0xC3, CHR 0xA9] @ ''b'') = None"
  by (simp add: parse_hex_data_def is_separator_def slice_def is_char_boundary_def continuation_def
      upt_conv_Cons)

end
