(* ===== verification/Tls.thy ===== *)
theory Tls
  imports Os
begin

text \<open>
  \<open>src/src/tls.rs\<close>: what the program asks of rustls. The library is a parameter, a record of the
  calls used: opening a PEM file, the certificates and the key in it, and the configurations built
  from them. \<open>'f\<close> is an open file, \<open>'c\<close> a certificate, \<open>'k\<close> a private key, \<open>'g\<close> a signature, \<open>'a\<close> an
  acceptor and \<open>'t\<close> a connector.
\<close>

section \<open>The library\<close>

text \<open>The methods of a certificate verifier; success is the assertion that the check passed.\<close>

record ('c, 'g) verifier =
  vf_server_cert :: "'c \<Rightarrow> 'c list \<Rightarrow> string \<Rightarrow> bytes \<Rightarrow> nat \<Rightarrow> (string, unit) result"
  vf_tls12_signature :: "bytes \<Rightarrow> 'c \<Rightarrow> 'g \<Rightarrow> (string, unit) result"
  vf_tls13_signature :: "bytes \<Rightarrow> 'c \<Rightarrow> 'g \<Rightarrow> (string, unit) result"
  vf_schemes :: "u16 list"

record ('f, 'c, 'k, 'g, 'a, 't, 'w) rustls =
  tl_open :: "string \<Rightarrow> 'w \<Rightarrow> (string, 'f) result"
  tl_certs :: "'f \<Rightarrow> (string, 'c) result list"
  tl_private_key :: "'f \<Rightarrow> (string, 'k option) result"
  tl_single_cert :: "'c list \<Rightarrow> 'k \<Rightarrow> (string, 'a) result"
  tl_add_root :: "'c \<Rightarrow> (string, unit) result"
  tl_roots_connector :: "'c list \<Rightarrow> 't"
  tl_webpki_connector :: 't
  tl_default_schemes :: "u16 list"
  tl_custom_connector :: "('c, 'g) verifier \<Rightarrow> 't"

section \<open>The code\<close>

text \<open>Collecting results: the first error, or all values.\<close>

fun collect :: "('e, 'a) result list \<Rightarrow> ('e, 'a list) result" where
  "collect [] = Ok []"
| "collect (Inl e # rs) = Err e"
| "collect (Inr a # rs) = map_sum id ((#) a) (collect rs)"

definition load_certs :: "('f, 'c, 'k, 'g, 'a, 't, 'w) rustls \<Rightarrow> string \<Rightarrow> 'w \<Rightarrow> (anyhow, 'c list) result" where
  "load_certs lib path w =
     (case tl_open lib path w of
        Inl e \<Rightarrow> Err [''Cannot open cert file '' @ path @ '': '' @ e]
      | Inr file \<Rightarrow>
          (case collect (tl_certs lib file) of
             Inl e \<Rightarrow> Err [''Cannot parse cert file '' @ path @ '': '' @ e]
           | Inr certs \<Rightarrow> if certs = [] then Err [''No certificates found in '' @ path] else Ok certs))"

definition load_key :: "('f, 'c, 'k, 'g, 'a, 't, 'w) rustls \<Rightarrow> string \<Rightarrow> 'w \<Rightarrow> (anyhow, 'k) result" where
  "load_key lib path w =
     (case tl_open lib path w of
        Inl e \<Rightarrow> Err [''Cannot open key file '' @ path @ '': '' @ e]
      | Inr file \<Rightarrow>
          (case tl_private_key lib file of
             Inl e \<Rightarrow> Err [''Cannot parse key file '' @ path @ '': '' @ e]
           | Inr None \<Rightarrow> Err [''No private key found in '' @ path]
           | Inr (Some key) \<Rightarrow> Ok key))"

definition server_acceptor ::
  "('f, 'c, 'k, 'g, 'a, 't, 'w) rustls \<Rightarrow> string \<Rightarrow> string \<Rightarrow> 'w \<Rightarrow> (anyhow, 'a) result" where
  "server_acceptor lib cert_path key_path w =
     (case load_certs lib cert_path w of
        Inl e \<Rightarrow> Err e
      | Inr certs \<Rightarrow>
          (case load_key lib key_path w of
             Inl e \<Rightarrow> Err e
           | Inr key \<Rightarrow> map_sum (\<lambda>e. [''TLS server config error: '' @ e]) id (tl_single_cert lib certs key)))"

text \<open>
  The verifier for \<open>--tls-insecure\<close> accepts everything, and offers the signature schemes of the
  default provider (by their registered numbers).
\<close>

definition insecure_verifier :: "('f, 'c, 'k, 'g, 'a, 't, 'w) rustls \<Rightarrow> ('c, 'g) verifier" where
  "insecure_verifier lib =
     \<lparr>vf_server_cert = (\<lambda>_ _ _ _ _. Ok ()), vf_tls12_signature = (\<lambda>_ _ _. Ok ()),
      vf_tls13_signature = (\<lambda>_ _ _. Ok ()), vf_schemes = tl_default_schemes lib\<rparr>"

definition client_connector ::
  "('f, 'c, 'k, 'g, 'a, 't, 'w) rustls \<Rightarrow> string option \<Rightarrow> bool \<Rightarrow> 'w \<Rightarrow> (anyhow, 't) result" where
  "client_connector lib ca_path insecure w =
     (if insecure then Ok (tl_custom_connector lib (insecure_verifier lib))
      else
        (case ca_path of
           Some ca \<Rightarrow>
             (case load_certs lib ca w of
                Inl e \<Rightarrow> Err e
              | Inr ca_certs \<Rightarrow>
                  (case collect (map (tl_add_root lib) ca_certs) of
                     Inl e \<Rightarrow> Err [e]
                   | Inr _ \<Rightarrow> Ok (tl_roots_connector lib ca_certs)))
         | None \<Rightarrow> Ok (tl_webpki_connector lib)))"

end
