(* ===== verification/Cli.thy ===== *)
theory Cli
  imports Loopback Display Mount Tls
begin

text \<open>
  \<open>src/src/client/commands.rs\<close> and \<open>src/src/main.rs\<close>: the subcommands. Parsing the command line is
  clap's; a command here is what it gives. A command prints to the text it returns.
\<close>

section \<open>The commands of a session\<close>

text \<open>
  \<open>ru\<close> is \<open>rusb\<close>'s error texts, \<open>json\<close> is \<open>serde_json\<close>. An error ends a command before it prints
  anything. \<open>None\<close> is the panic of the hex parser.
\<close>

definition lift_session ::
  "(rusb_error \<Rightarrow> string) \<Rightarrow> (WolfUsbError, 'a) result \<times> 'w \<Rightarrow> (anyhow, 'a) result \<times> 'w" where
  "lift_session ru = apfst (map_sum (error_chain ru) id)"

definition cmd_list ::
  "('s, 't, 'w) net \<Rightarrow> bincode_enc \<Rightarrow> (Message \<Rightarrow> string) \<Rightarrow> (rusb_error \<Rightarrow> string) \<Rightarrow>
     (DeviceInfo list \<Rightarrow> (string, string) result) \<Rightarrow> 's Session \<Rightarrow> bool \<Rightarrow> 'w \<Rightarrow> (anyhow, string) result \<times> 'w" where
  "cmd_list net enc debug ru to_json ses json =
     try_then (\<lambda>w. lift_session ru (session_list_devices net enc debug ses w)) (\<lambda>devices w.
       (if json then map_sum (\<lambda>e. [e]) println (to_json devices) else Ok (print_device_list devices), w))"

definition cmd_info ::
  "('s, 't, 'w) net \<Rightarrow> bincode_enc \<Rightarrow> (Message \<Rightarrow> string) \<Rightarrow> (rusb_error \<Rightarrow> string) \<Rightarrow> 's Session \<Rightarrow> u8 \<Rightarrow> u8 \<Rightarrow> 'w \<Rightarrow>
     (anyhow, string) result \<times> 'w" where
  "cmd_info net enc debug ru ses bus addr =
     try_then (\<lambda>w. lift_session ru
         (session_get_descriptors net enc debug ses \<lparr>bus_number = bus, address = addr\<rparr> w)) (\<lambda>tree w.
       (Ok (print_descriptor_tree tree), w))"

definition cmd_attach ::
  "('s, 't, 'w) net \<Rightarrow> bincode_enc \<Rightarrow> (Message \<Rightarrow> string) \<Rightarrow> (rusb_error \<Rightarrow> string) \<Rightarrow> 's Session \<Rightarrow> u8 \<Rightarrow> u8 \<Rightarrow> 'w \<Rightarrow>
     (anyhow, string) result \<times> 'w" where
  "cmd_attach net enc debug ru ses bus addr =
     (let device_id = \<lparr>bus_number = bus, address = addr\<rparr> in
      try_then (\<lambda>w. lift_session ru (session_attach net enc debug ses device_id w)) (\<lambda>session_id w.
        (Ok (println (''Attached to '' @ display_device_id device_id @ '', session_id = '' @ show_word session_id)), w)))"

definition cmd_detach ::
  "('s, 't, 'w) net \<Rightarrow> bincode_enc \<Rightarrow> (Message \<Rightarrow> string) \<Rightarrow> (rusb_error \<Rightarrow> string) \<Rightarrow> 's Session \<Rightarrow> u8 \<Rightarrow> u8 \<Rightarrow> u64 \<Rightarrow> 'w \<Rightarrow>
     (anyhow, string) result \<times> 'w" where
  "cmd_detach net enc debug ru ses bus addr session_id =
     (let device_id = \<lparr>bus_number = bus, address = addr\<rparr> in
      try_then (\<lambda>w. lift_session ru (session_detach net enc debug ses device_id session_id w)) (\<lambda>_ w.
        (Ok (println (''Detached from '' @ display_device_id device_id)), w)))"

definition data_bytes :: "string option \<Rightarrow> (anyhow, bytes) result option" where
  "data_bytes dat = (case dat of Some hex \<Rightarrow> parse_hex_data hex | None \<Rightarrow> Some (Ok []))"

text \<open>What the three transfer commands do with their data and with the answer.\<close>

definition run_transfer ::
  "(rusb_error \<Rightarrow> string) \<Rightarrow> string option \<Rightarrow> (bytes \<Rightarrow> 'w \<Rightarrow> (WolfUsbError, TransferResponse) result \<times> 'w) \<Rightarrow> 'w \<Rightarrow>
     ((anyhow, string) result \<times> 'w) option" where
  "run_transfer ru dat f w =
     (case data_bytes dat of
        None \<Rightarrow> None
      | Some (Inl e) \<Rightarrow> Some (Err e, w)
      | Some (Inr bs) \<Rightarrow>
          Some (try_then (\<lambda>w. lift_session ru (f bs w)) (\<lambda>resp w. (Ok (print_transfer_result resp), w)) w))"

definition cmd_control ::
  "('s, 't, 'w) net \<Rightarrow> bincode_enc \<Rightarrow> (Message \<Rightarrow> string) \<Rightarrow> (rusb_error \<Rightarrow> string) \<Rightarrow> 's Session \<Rightarrow>
     u64 \<Rightarrow> u8 \<Rightarrow> u8 \<Rightarrow> u8 \<Rightarrow> u8 \<Rightarrow> u16 \<Rightarrow> u16 \<Rightarrow> u16 \<Rightarrow> string option \<Rightarrow> u64 \<Rightarrow> 'w \<Rightarrow>
     ((anyhow, string) result \<times> 'w) option" where
  "cmd_control net enc debug ru ses session_id bus addr request_type req value index len dat timeout_ms =
     run_transfer ru dat (\<lambda>bs. session_control_transfer net enc debug ses
       \<lparr>ctq_session_id = session_id, ctq_device_id = \<lparr>bus_number = bus, address = addr\<rparr>,
        ctq_request_type = request_type, ctq_request = req, ctq_value = value, ctq_index = index,
        ctq_data = bs, ctq_length = len, ctq_timeout_ms = timeout_ms\<rparr>)"

definition cmd_bulk ::
  "('s, 't, 'w) net \<Rightarrow> bincode_enc \<Rightarrow> (Message \<Rightarrow> string) \<Rightarrow> (rusb_error \<Rightarrow> string) \<Rightarrow> 's Session \<Rightarrow>
     u64 \<Rightarrow> u8 \<Rightarrow> u8 \<Rightarrow> u8 \<Rightarrow> u32 \<Rightarrow> string option \<Rightarrow> u64 \<Rightarrow> 'w \<Rightarrow> ((anyhow, string) result \<times> 'w) option" where
  "cmd_bulk net enc debug ru ses session_id bus addr endpoint len dat timeout_ms =
     run_transfer ru dat (\<lambda>bs. session_bulk_transfer net enc debug ses
       \<lparr>btq_session_id = session_id, btq_device_id = \<lparr>bus_number = bus, address = addr\<rparr>, btq_endpoint = endpoint,
        btq_data = bs, btq_length = len, btq_timeout_ms = timeout_ms\<rparr>)"

definition cmd_interrupt ::
  "('s, 't, 'w) net \<Rightarrow> bincode_enc \<Rightarrow> (Message \<Rightarrow> string) \<Rightarrow> (rusb_error \<Rightarrow> string) \<Rightarrow> 's Session \<Rightarrow>
     u64 \<Rightarrow> u8 \<Rightarrow> u8 \<Rightarrow> u8 \<Rightarrow> u32 \<Rightarrow> string option \<Rightarrow> u64 \<Rightarrow> 'w \<Rightarrow> ((anyhow, string) result \<times> 'w) option" where
  "cmd_interrupt net enc debug ru ses session_id bus addr endpoint len dat timeout_ms =
     run_transfer ru dat (\<lambda>bs. session_interrupt_transfer net enc debug ses
       \<lparr>itq_session_id = session_id, itq_device_id = \<lparr>bus_number = bus, address = addr\<rparr>, itq_endpoint = endpoint,
        itq_data = bs, itq_length = len, itq_timeout_ms = timeout_ms\<rparr>)"

section \<open>Arguments\<close>

record ClientTlsArgs =
  ta_tls :: bool
  ta_tls_ca :: "string option"
  ta_tls_insecure :: bool

record ServerArgs =
  sv_bind :: string
  sv_port :: u16
  sv_key :: "string option"
  sv_tls_cert :: "string option"
  sv_tls_key :: "string option"

text \<open>The options every client command but \<open>mount\<close> has.\<close>

record ClientArgs =
  cl_server :: string
  cl_key :: "string option"
  cl_tls_args :: ClientTlsArgs

record ControlArgs =
  co_session_id :: u64
  co_bus :: u8
  co_addr :: u8
  co_request_type :: string
  co_request :: string
  co_value :: string
  co_index :: string
  co_length :: u16
  co_data :: "string option"
  co_timeout :: u64

record TransferArgs =
  tf_session_id :: u64
  tf_bus :: u8
  tf_addr :: u8
  tf_endpoint :: string
  tf_length :: u32
  tf_data :: "string option"
  tf_timeout :: u64

text \<open>\<open>List json\<close>, \<open>Mount server bus addr key\<close>, \<open>Info bus addr\<close>, \<open>Attach bus addr\<close>, \<open>Detach bus addr session\<close>.\<close>

datatype Commands =
  CmdServer ServerArgs
| CmdList ClientArgs bool
| CmdMount string u8 u8 "string option"
| CmdInfo ClientArgs u8 u8
| CmdAttach ClientArgs u8 u8
| CmdDetach ClientArgs u8 u8 u64
| CmdControl ClientArgs ControlArgs
| CmdBulk ClientArgs TransferArgs
| CmdInterrupt ClientArgs TransferArgs

definition hex_digits :: "string \<Rightarrow> string option" where
  "hex_digits s = (case strip_prefix ''0x'' s of Some hex \<Rightarrow> Some hex | None \<Rightarrow> strip_prefix ''0X'' s)"

definition parse_u8_hex :: "string \<Rightarrow> (anyhow, u8) result" where
  "parse_u8_hex s =
     (case hex_digits s of
        Some hex \<Rightarrow> map_sum (\<lambda>e. [parse_int_error e]) id (parse_word 16 hex)
      | None \<Rightarrow> map_sum (\<lambda>e. [parse_int_error e]) id (parse_word 10 s))"

definition parse_u16_hex :: "string \<Rightarrow> (anyhow, u16) result" where
  "parse_u16_hex s =
     (case hex_digits s of
        Some hex \<Rightarrow> map_sum (\<lambda>e. [parse_int_error e]) id (parse_word 16 hex)
      | None \<Rightarrow> map_sum (\<lambda>e. [parse_int_error e]) id (parse_word 10 s))"

section \<open>The program\<close>

text \<open>
  Everything outside: the network, bincode, HMAC, the texts of messages and \<open>rusb\<close>'s errors, JSON,
  rustls, the operating system, the raw socket and the wait of \<open>mount\<close>, and the server, which runs
  until it fails (\<open>src/src/server/listener.rs\<close>, theory \<open>Server\<close>).
\<close>

record ('s, 'f, 'c, 'k, 'g, 'a, 't, 'w) env =
  en_net :: "('s, 't, 'w) net"
  en_enc :: bincode_enc
  en_hmac :: "bytes \<Rightarrow> bytes \<Rightarrow> bytes"
  en_debug :: "Message \<Rightarrow> string"
  en_ru :: "rusb_error \<Rightarrow> string"
  en_json :: "DeviceInfo list \<Rightarrow> (string, string) result"
  en_rustls :: "('f, 'c, 'k, 'g, 'a, 't, 'w) rustls"
  en_os :: "'w os"
  en_tcp :: "'s \<Rightarrow> 'w tcp"
  en_wait :: "'w \<Rightarrow> bool \<times> 'w"
  en_run_server :: "string \<Rightarrow> u16 \<Rightarrow> bytes option \<Rightarrow> 'a option \<Rightarrow> 'w \<Rightarrow> ((WolfUsbError, unit) result \<times> 'w) option"

definition build_tls_connector ::
  "('f, 'c, 'k, 'g, 'a, 't, 'w) rustls \<Rightarrow> ClientTlsArgs \<Rightarrow> 'w \<Rightarrow> (anyhow, 't option) result" where
  "build_tls_connector lib args w =
     (if \<not> ta_tls args \<and> ta_tls_ca args = None \<and> \<not> ta_tls_insecure args then Ok None
      else map_sum id Some (client_connector lib (ta_tls_ca args) (ta_tls_insecure args) w))"

definition client_session ::
  "('s, 'f, 'c, 'k, 'g, 'a, 't, 'w) env \<Rightarrow> ClientArgs \<Rightarrow> 'w \<Rightarrow> (anyhow, 's Session) result \<times> 'w" where
  "client_session env args w =
     (case build_tls_connector (en_rustls env) (cl_tls_args args) w of
        Inl e \<Rightarrow> (Err e, w)
      | Inr tls \<Rightarrow>
          lift_session (en_ru env)
            (session_connect (en_net env) (en_hmac env) (en_enc env) (en_debug env) (cl_server args) ''wolfusb-cli''
               (map_option as_bytes (cl_key args)) tls w))"

text \<open>\<open>None\<close>: a panic, or no end (the server, or a mounted device that stays).\<close>

definition finish :: "(anyhow, string) result \<times> 'w \<Rightarrow> (anyhow, unit) result \<times> string \<times> 'w" where
  "finish r = (case r of (Inl e, w) \<Rightarrow> (Err e, [], w) | (Inr out, w) \<Rightarrow> (Ok (), out, w))"

definition with_session ::
  "('s, 'f, 'c, 'k, 'g, 'a, 't, 'w) env \<Rightarrow> ClientArgs \<Rightarrow> ('s Session \<Rightarrow> 'w \<Rightarrow> ((anyhow, string) result \<times> 'w) option) \<Rightarrow>
     'w \<Rightarrow> ((anyhow, unit) result \<times> string \<times> 'w) option" where
  "with_session env args f w =
     (case client_session env args w of
        (Inl e, w) \<Rightarrow> Some (Err e, [], w)
      | (Inr ses, w) \<Rightarrow> map_option finish (f ses w))"

definition control_command ::
  "('s, 'f, 'c, 'k, 'g, 'a, 't, 'w) env \<Rightarrow> ControlArgs \<Rightarrow> 's Session \<Rightarrow> 'w \<Rightarrow> ((anyhow, string) result \<times> 'w) option" where
  "control_command env a ses w =
     (case parse_u8_hex (co_request_type a) of
        Inl e \<Rightarrow> Some (Err e, w)
      | Inr request_type \<Rightarrow>
     (case parse_u8_hex (co_request a) of
        Inl e \<Rightarrow> Some (Err e, w)
      | Inr req \<Rightarrow>
     (case parse_u16_hex (co_value a) of
        Inl e \<Rightarrow> Some (Err e, w)
      | Inr value \<Rightarrow>
     (case parse_u16_hex (co_index a) of
        Inl e \<Rightarrow> Some (Err e, w)
      | Inr index \<Rightarrow>
          cmd_control (en_net env) (en_enc env) (en_debug env) (en_ru env) ses (co_session_id a) (co_bus a) (co_addr a)
            request_type req value index (co_length a) (co_data a) (co_timeout a) w))))"

definition run_server_command ::
  "('s, 'f, 'c, 'k, 'g, 'a, 't, 'w) env \<Rightarrow> ServerArgs \<Rightarrow> 'w \<Rightarrow> ((anyhow, unit) result \<times> 'w) option" where
  "run_server_command env a w =
     (case (case (sv_tls_cert a, sv_tls_key a) of
              (Some cert, Some key) \<Rightarrow> map_sum id Some (server_acceptor (en_rustls env) cert key w)
            | (None, None) \<Rightarrow> Ok None
            | _ \<Rightarrow> Err [''Both --tls-cert and --tls-key must be provided together'']) of
        Inl e \<Rightarrow> Some (Err e, w)
      | Inr acceptor \<Rightarrow>
          map_option (lift_session (en_ru env))
            (en_run_server env (sv_bind a) (sv_port a) (map_option as_bytes (sv_key a)) acceptor w))"

fun run_command ::
  "('s, 'f, 'c, 'k, 'g, 'a, 't, 'w) env \<Rightarrow> Commands \<Rightarrow> 'w \<Rightarrow> ((anyhow, unit) result \<times> string \<times> 'w) option" where
  "run_command env (CmdServer a) w = map_option (\<lambda>(r, w). (r, [], w)) (run_server_command env a w)"
| "run_command env (CmdList c json) w =
     with_session env c (\<lambda>ses w. Some (cmd_list (en_net env) (en_enc env) (en_debug env) (en_ru env) (en_json env) ses json w)) w"
| "run_command env (CmdMount server bus addr key) w =
     cmd_mount (en_os env) (en_net env) (en_tcp env) (en_hmac env) (en_enc env) (en_debug env) (en_ru env) (en_wait env)
       server bus addr key w"
| "run_command env (CmdInfo c bus addr) w =
     with_session env c (\<lambda>ses w. Some (cmd_info (en_net env) (en_enc env) (en_debug env) (en_ru env) ses bus addr w)) w"
| "run_command env (CmdAttach c bus addr) w =
     with_session env c (\<lambda>ses w. Some (cmd_attach (en_net env) (en_enc env) (en_debug env) (en_ru env) ses bus addr w)) w"
| "run_command env (CmdDetach c bus addr session_id) w =
     with_session env c
       (\<lambda>ses w. Some (cmd_detach (en_net env) (en_enc env) (en_debug env) (en_ru env) ses bus addr session_id w)) w"
| "run_command env (CmdControl c a) w = with_session env c (control_command env a) w"
| "run_command env (CmdBulk c a) w =
     with_session env c (\<lambda>ses w.
       (case parse_u8_hex (tf_endpoint a) of
          Inl e \<Rightarrow> Some (Err e, w)
        | Inr endpoint \<Rightarrow>
            cmd_bulk (en_net env) (en_enc env) (en_debug env) (en_ru env) ses (tf_session_id a) (tf_bus a) (tf_addr a)
              endpoint (tf_length a) (tf_data a) (tf_timeout a) w)) w"
| "run_command env (CmdInterrupt c a) w =
     with_session env c (\<lambda>ses w.
       (case parse_u8_hex (tf_endpoint a) of
          Inl e \<Rightarrow> Some (Err e, w)
        | Inr endpoint \<Rightarrow>
            cmd_interrupt (en_net env) (en_enc env) (en_debug env) (en_ru env) ses (tf_session_id a) (tf_bus a) (tf_addr a)
              endpoint (tf_length a) (tf_data a) (tf_timeout a) w)) w"

section \<open>Number arguments\<close>

lemma digits_no_prefix:
  assumes "\<forall>c \<in> set s. digit_class c"
  shows "hex_digits s = None"
proof -
  have "strip_prefix [CHR ''0'', x] s = None" if "x = CHR ''x'' \<or> x = CHR ''X''" for x
  proof (rule ccontr)
    assume "strip_prefix [CHR ''0'', x] s \<noteq> None"
    then obtain r where "s = [CHR ''0'', x] @ r" by (auto simp: strip_prefix_Some)
    with assms have "digit_class x" by simp
    with that show False by (auto dest: digit_class_plain)
  qed
  then show ?thesis by (simp add: hex_digits_def)
qed

lemma show_word_no_prefix [simp]: "hex_digits (show_word (w :: 'a::len word)) = None"
  by (rule digits_no_prefix) (auto simp: show_word_def intro: radix_str_digits [of 10])

lemma parse_hex_args [simp]:
  "parse_u8_hex (show_word b) = Ok b" "parse_u16_hex (show_word v) = Ok v"
  "parse_u8_hex (CHR ''0'' # CHR ''x'' # hex_pad n b) = Ok b" "parse_u16_hex (CHR ''0'' # CHR ''x'' # hex_pad n v) = Ok v"
  by (simp_all add: parse_u8_hex_def parse_u16_hex_def) (simp_all add: hex_digits_def strip_prefix_def)

section \<open>Commands with a session number\<close>

text \<open>The call a command with a session number makes, when its arguments parse.\<close>

fun session_command :: "Commands \<Rightarrow> (ClientArgs \<times> call) option" where
  "session_command (CmdDetach c bus addr sid) = Some (c, DetachCall \<lparr>bus_number = bus, address = addr\<rparr> sid)"
| "session_command (CmdControl c a) =
     (case (parse_u8_hex (co_request_type a), parse_u8_hex (co_request a), parse_u16_hex (co_value a),
            parse_u16_hex (co_index a), data_bytes (co_data a)) of
        (Inr rt, Inr rq, Inr v, Inr i, Some (Inr bs)) \<Rightarrow>
          Some (c, ControlCall \<lparr>ctq_session_id = co_session_id a,
            ctq_device_id = \<lparr>bus_number = co_bus a, address = co_addr a\<rparr>, ctq_request_type = rt, ctq_request = rq,
            ctq_value = v, ctq_index = i, ctq_data = bs, ctq_length = co_length a, ctq_timeout_ms = co_timeout a\<rparr>)
      | _ \<Rightarrow> None)"
| "session_command (CmdBulk c a) =
     (case (parse_u8_hex (tf_endpoint a), data_bytes (tf_data a)) of
        (Inr ep, Some (Inr bs)) \<Rightarrow>
          Some (c, BulkCall \<lparr>btq_session_id = tf_session_id a,
            btq_device_id = \<lparr>bus_number = tf_bus a, address = tf_addr a\<rparr>, btq_endpoint = ep, btq_data = bs,
            btq_length = tf_length a, btq_timeout_ms = tf_timeout a\<rparr>)
      | _ \<Rightarrow> None)"
| "session_command (CmdInterrupt c a) =
     (case (parse_u8_hex (tf_endpoint a), data_bytes (tf_data a)) of
        (Inr ep, Some (Inr bs)) \<Rightarrow>
          Some (c, InterruptCall \<lparr>itq_session_id = tf_session_id a,
            itq_device_id = \<lparr>bus_number = tf_bus a, address = tf_addr a\<rparr>, itq_endpoint = ep, itq_data = bs,
            itq_length = tf_length a, itq_timeout_ms = tf_timeout a\<rparr>)
      | _ \<Rightarrow> None)"
| "session_command _ = None"

text \<open>What such a command comes to, given the outcome of its call.\<close>

fun command_outcome ::
  "(rusb_error \<Rightarrow> string) \<Rightarrow> Commands \<Rightarrow> (WolfUsbError, outcome) result \<Rightarrow> (anyhow, unit) result \<times> string" where
  "command_outcome ru cmd (Inl e) = (Err (error_chain ru e), [])"
| "command_outcome ru cmd (Inr (Transferred resp)) = (Ok (), print_transfer_result resp)"
| "command_outcome ru (CmdDetach c bus addr sid) (Inr _) =
     (Ok (), println (''Detached from '' @ display_device_id \<lparr>bus_number = bus, address = addr\<rparr>))"
| "command_outcome ru cmd (Inr _) = (Ok (), [])"

lemma finish_try_then:
  "finish (try_then (\<lambda>w. lift_session ru (f w)) (\<lambda>a w. (Ok (g a), w)) w) =
     (case f w of (Inl e, w) \<Rightarrow> (Err (error_chain ru e), [], w) | (Inr a, w) \<Rightarrow> (Ok (), g a, w))"
  by (simp add: finish_def try_then_def lift_session_def split: prod.splits sum.splits)

lemma run_command_session:
  assumes "session_command cmd = Some (args, k)" "client_session env args w = (Ok ses, w1)"
    and "remote_call (en_net env) (en_enc env) (en_debug env) ses k w1 = (r, w2)"
  shows "run_command env cmd w =
    Some (fst (command_outcome (en_ru env) cmd r), snd (command_outcome (en_ru env) cmd r), w2)"
  using assms
  by (cases cmd) (auto simp: with_session_def control_command_def cmd_control_def cmd_bulk_def cmd_interrupt_def
      cmd_detach_def run_transfer_def finish_try_then Let_def apfst_def map_prod_def
      split: sum.splits option.splits prod.splits)

lemma client_session_over_link:
  assumes "client_session env args lk = (Ok ses, lk1)" "en_net env = link_net usb (en_hmac env) (en_enc env) dec"
    and "bincode_ok (en_enc env) dec" "idle lk"
    and "travels (en_enc env) (Hello hello)" "travels (en_enc env) (fst (handle_hello (en_hmac env) (lk_conn lk) hello))"
    and "hello = client_hello (en_hmac env) ''wolfusb-cli'' (map_option as_bytes (cl_key args)) (lk_nonce lk)"
  shows "\<exists>c. lk1 = lk\<lparr>lk_conn := c\<rparr> \<and> sessions c = sessions (lk_conn lk) \<and> admitted c"
proof -
  obtain resp c where h: "handle_hello (en_hmac env) (lk_conn lk) hello = (resp, c)" by fastforce
  obtain tls where "lift_session (en_ru env) (session_connect (en_net env) (en_hmac env) (en_enc env) (en_debug env)
      (cl_server args) ''wolfusb-cli'' (map_option as_bytes (cl_key args)) tls lk) = (Ok ses, lk1)"
    using assms(1) by (auto simp: client_session_def split: sum.splits)
  moreover have "session_connect (en_net env) (en_hmac env) (en_enc env) (en_debug env)
      (cl_server args) ''wolfusb-cli'' (map_option as_bytes (cl_key args)) tls lk =
    (map_sum id (\<lambda>n. \<lparr>framed = (), server_name = n\<rparr>)
       (check_hello (en_hmac env) (en_debug env) (map_option as_bytes (cl_key args)) (lk_nonce lk) resp), lk\<lparr>lk_conn := c\<rparr>)"
    unfolding assms(2)
    by (rule connect_over_link [OF assms(3,4)]) (use assms(5-7) h in simp_all)
  ultimately have ok: "\<exists>n. check_hello (en_hmac env) (en_debug env) (map_option as_bytes (cl_key args)) (lk_nonce lk) resp = Ok n"
    and lk1: "lk1 = lk\<lparr>lk_conn := c\<rparr>"
    by (auto simp: lift_session_def map_sum_def split: sum.splits)
  from ok h have "admitted c"
    by (auto simp: check_hello_def handle_hello_def hello_refused_def hello_accepted_def admitted_def
        split: if_splits option.splits)
  with lk1 handle_hello_same [OF h] show ?thesis by blast
qed

text \<open>C16: a session number is of no use on the command line: every command opens a connection of its
  own and the server knows no session on a new connection, so whatever number is given, \<open>detach\<close>
  fails and the three transfer commands print that the session is invalid and exit with success,
  without anything reaching the device manager or a device. (What \<open>attach\<close> attached was
  detached by the cleanup when its connection ended.)\<close>

theorem session_numbers_do_not_survive:
  assumes "en_net env = link_net usb (en_hmac env) (en_enc env) dec" "bincode_ok (en_enc env) dec" "idle lk"
    and "lk_conn lk = connection_new strm peer key"
    and "session_command cmd = Some (args, k)" "client_session env args lk = (Ok ses, lk1)"
    and "travels (en_enc env) (Hello hello)" "travels (en_enc env) (fst (handle_hello (en_hmac env) (lk_conn lk) hello))"
    and "hello = client_hello (en_hmac env) ''wolfusb-cli'' (map_option as_bytes (cl_key args)) (lk_nonce lk)"
    and "carried usb (en_hmac env) (en_enc env) [k] lk1"
  shows "run_command env cmd lk =
      Some (case cmd of
              CmdDetach _ _ _ _ \<Rightarrow> (Err [''Protocol error: Session does not belong to this connection''], [], lk1)
            | _ \<Rightarrow> (Ok (), println ''Transfer FAILED: Invalid session'', lk1)) \<and>
    lk_dm lk1 = lk_dm lk \<and> lk_usb lk1 = lk_usb lk \<and> sessions (lk_conn lk1) = Map.empty"
proof -
  obtain c where c: "lk1 = lk\<lparr>lk_conn := c\<rparr>" "sessions c = Map.empty" "admitted c"
    using client_session_over_link [OF assms(6,1,2,3,7,8,9)] assms(4) by (auto simp: connection_new_def)
  have idle1: "idle lk1" using assms(3) c(1) by (simp add: idle_def)
  define r where "r = (case k of DetachCall _ _ \<Rightarrow> Err ''Session does not belong to this connection''
      | ControlCall req \<Rightarrow> Ok (Transferred (failed_transfer (ctq_session_id req) (ctq_device_id req) ''Invalid session''))
      | BulkCall req \<Rightarrow> Ok (Transferred (failed_transfer (btq_session_id req) (btq_device_id req) ''Invalid session''))
      | InterruptCall req \<Rightarrow> Ok (Transferred (failed_transfer (itq_session_id req) (itq_device_id req) ''Invalid session''))
      | _ \<Rightarrow> Ok Finished)"
  have kinds: "(\<exists>a b x y d s. cmd = CmdDetach a b x y \<and> k = DetachCall d s) \<or>
      ((\<forall>a b x y. cmd \<noteq> CmdDetach a b x y) \<and>
       ((\<exists>q. k = ControlCall q) \<or> (\<exists>q. k = BulkCall q) \<or> (\<exists>q. k = InterruptCall q)))"
    using assms(5) by (cases cmd) (auto split: sum.splits option.splits)
  have l: "local_call usb k (lk_conn lk1, lk_dm lk1, lk_usb lk1) = (r, lk_conn lk1, lk_dm lk1, lk_usb lk1)"
    using kinds c by (auto simp: r_def local_transfer_def)
  have "remote_call (en_net env) (en_enc env) (en_debug env) ses k lk1 = (map_sum ProtocolError id r, lk1)"
  proof -
    have "admitted (lk_conn lk1)" using c by simp
    moreover have "travels (en_enc env) (call_request k)" "\<forall>resp lk'. link_answer usb (en_hmac env) (call_request k) lk1 =
        Some (resp, lk') \<longrightarrow> travels (en_enc env) resp"
      using assms(10) by auto
    ultimately show ?thesis
      using remote_call_local(1) [OF assms(2) idle1 _ _ _ l, of "en_hmac env" "en_debug env" ses] assms(1) by auto
  qed
  note run = run_command_session [OF assms(5,6) this]
  have "(fst (command_outcome (en_ru env) cmd (map_sum ProtocolError id r)),
      snd (command_outcome (en_ru env) cmd (map_sum ProtocolError id r)), lk1) =
    (case cmd of
       CmdDetach _ _ _ _ \<Rightarrow> (Err [''Protocol error: Session does not belong to this connection''], [], lk1)
     | _ \<Rightarrow> (Ok (), println ''Transfer FAILED: Invalid session'', lk1))"
    using kinds by (cases cmd) (auto simp: r_def print_transfer_result_def failed_transfer_def)
  with run c show ?thesis by simp
qed

text \<open>A client that asks for a device descriptor under session 1, on a server without a key.\<close>

definition no_os :: "'w os" where
  "no_os =
     \<lparr>os_read_to_string = (\<lambda>_ _. Err ''none''), os_read_dir = (\<lambda>_ _. Err ''none''), os_read_link = (\<lambda>_ _. Err ''none''),
      os_is_dir = (\<lambda>_ _. False), os_exists = (\<lambda>_ _. False), os_open_write = (\<lambda>_ _. Err ''none''),
      os_write_all = (\<lambda>_ _ w. (Err ''none'', w)), os_command = (\<lambda>_ _ w. (Err ''none'', w)), os_sleep = (\<lambda>_ w. w)\<rparr>"

definition no_tcp :: "'w tcp" where
  "no_tcp =
     \<lparr>tcp_read_exact = (\<lambda>_ w. Some (Err ''none'', w)), tcp_write_all = (\<lambda>_ w. Some (Err ''none'', w)),
      tcp_flush = (\<lambda>w. (Ok (), w)), tcp_into_std = (\<lambda>w. (Err ''none'', w)), tcp_set_blocking = (\<lambda>_ w. (Ok (), w))\<rparr>"

definition no_rustls :: "(unit, unit, unit, unit, unit, unit, 'w) rustls" where
  "no_rustls =
     \<lparr>tl_open = (\<lambda>_ _. Err ''none''), tl_certs = (\<lambda>_. []), tl_private_key = (\<lambda>_. Ok None),
      tl_single_cert = (\<lambda>_ _. Ok ()), tl_add_root = (\<lambda>_. Ok ()), tl_roots_connector = (\<lambda>_. ()),
      tl_webpki_connector = (), tl_default_schemes = [], tl_custom_connector = (\<lambda>_. ())\<rparr>"

definition sample_env ::
  "Message list \<Rightarrow> (unit, unit, unit, unit, unit, unit, unit, (u8 \<times> u8, unit) link) env" where
  "sample_env ms =
     \<lparr>en_net = link_net (idle_usb [(1, 2)]) sample_hmac (table_enc ms) (table_dec ms), en_enc = table_enc ms,
      en_hmac = sample_hmac, en_debug = (\<lambda>_. []), en_ru = (\<lambda>_. []), en_json = (\<lambda>_. Ok []), en_rustls = no_rustls,
      en_os = no_os, en_tcp = (\<lambda>_. no_tcp), en_wait = Pair False, en_run_server = (\<lambda>_ _ _ _ w. Some (Ok (), w))\<rparr>"

definition sample_args :: ClientArgs where
  "sample_args = \<lparr>cl_server = ''host:3240'', cl_key = None,
     cl_tls_args = \<lparr>ta_tls = False, ta_tls_ca = None, ta_tls_insecure = False\<rparr>\<rparr>"

definition get_descriptor :: ControlArgs where
  "get_descriptor = \<lparr>co_session_id = 1, co_bus = 1, co_addr = 2, co_request_type = ''0x'' @ hex_pad 2 (0x80 :: u8),
     co_request = ''0x'' @ hex_pad 2 (0x06 :: u8), co_value = ''0x'' @ hex_pad 4 (0x0100 :: u16),
     co_index = show_word (0 :: u16), co_length = 18, co_data = None, co_timeout = 5000\<rparr>"

definition get_descriptor_request :: ControlTransferRequest where
  "get_descriptor_request = \<lparr>ctq_session_id = 1, ctq_device_id = sample_device, ctq_request_type = 0x80,
     ctq_request = 0x06, ctq_value = 0x0100, ctq_index = 0, ctq_data = [], ctq_length = 18, ctq_timeout_ms = 5000\<rparr>"

lemma sample_command:
  "session_command (CmdControl sample_args get_descriptor) = Some (sample_args, ControlCall get_descriptor_request)"
  by (simp add: get_descriptor_def get_descriptor_request_def data_bytes_def)

theorem session_numbers_do_not_survive_witness:
  "\<exists>ms lk1. run_command (sample_env ms) (CmdControl sample_args get_descriptor) (sample_link None) =
     Some (Ok (), println ''Transfer FAILED: Invalid session'', lk1) \<and> lk_dm lk1 = dm_empty"
proof -
  let ?lk = "sample_link None"
  define hello where "hello = client_hello sample_hmac ''wolfusb-cli'' None (lk_nonce ?lk)"
  define ms where "ms = [Hello hello, hello_accepted [], ControlTransfer get_descriptor_request,
      transfer_error 1 sample_device ''Invalid session'']"
  let ?env = "sample_env ms"
  let ?lk1 = "?lk\<lparr>lk_conn := (lk_conn ?lk)\<lparr>authenticated := True\<rparr>\<rparr>"
  have env: "en_net ?env = link_net (idle_usb [(1, 2)]) (en_hmac ?env) (en_enc ?env) (table_dec ms)"
    "en_hmac ?env = sample_hmac" "en_enc ?env = table_enc ms"
    by (simp_all add: sample_env_def)
  have codec: "bincode_ok (en_enc ?env) (table_dec ms)" unfolding env(3) by (rule table_bincode_ok) (simp add: ms_def)
  have idle: "idle ?lk" by (simp add: idle_def sample_link_def)
  have answer: "handle_hello sample_hmac (lk_conn ?lk) hello = (hello_accepted [], (lk_conn ?lk)\<lparr>authenticated := True\<rparr>)"
    by (simp add: handle_hello_def hello_def client_hello_def sample_link_def connection_new_def)
  have trav: "travels (en_enc ?env) (Hello hello)"
    "travels (en_enc ?env) (fst (handle_hello (en_hmac ?env) (lk_conn ?lk) hello))"
    unfolding env answer fst_conv by (rule table_travels, simp add: ms_def)+
  have "session_connect (en_net ?env) (en_hmac ?env) (en_enc ?env) (en_debug ?env) ''host:3240'' ''wolfusb-cli'' None None ?lk =
      (map_sum id (\<lambda>n. \<lparr>framed = (), server_name = n\<rparr>)
        (check_hello (en_hmac ?env) (en_debug ?env) None (lk_nonce ?lk) (hello_accepted [])), ?lk1)"
    unfolding env(1) by (rule connect_over_link [OF codec idle])
      (use trav answer in \<open>simp_all add: env(2) hello_def\<close>)
  then have ses: "client_session ?env sample_args ?lk = (Ok \<lparr>framed = (), server_name = ''wolfusb''\<rparr>, ?lk1)"
    by (simp add: client_session_def build_tls_connector_def sample_args_def lift_session_def check_hello_def
        hello_accepted_def)
  have "link_answer (idle_usb [(1, 2)]) sample_hmac (ControlTransfer get_descriptor_request) ?lk1 =
      Some (transfer_error 1 sample_device ''Invalid session'', ?lk1)"
    by (simp add: link_answer_def handle_message_def handle_control_transfer_def authorize_transfer_def
        sample_link_def connection_new_def get_descriptor_request_def)
  then have "carried (idle_usb [(1, 2)]) (en_hmac ?env) (en_enc ?env) [ControlCall get_descriptor_request] ?lk1"
    unfolding env(2,3) by (simp add: table_travels ms_def)
  from session_numbers_do_not_survive [OF env(1) codec idle _ sample_command ses trav _ this]
  have "run_command ?env (CmdControl sample_args get_descriptor) ?lk =
      Some (Ok (), println ''Transfer FAILED: Invalid session'', ?lk1) \<and> lk_dm ?lk1 = lk_dm ?lk"
    by (simp add: sample_link_def hello_def sample_args_def env)
  then show ?thesis by (intro exI [of _ ms] exI [of _ ?lk1]) (simp add: sample_link_def)
qed

end
