(* ===== verification/Spec2Isabelle.thy ===== *)
theory Spec2Isabelle
  imports Codec UsbTransfer DeviceManager Connection Server Interleaving Ownership ServerBridge Session Loopback Typing Vhci Mount MountLink
    Display Tls Cli
begin

text \<open>
  wolfusb shares USB devices over TCP. A server owns the devices; clients list them, attach
  them, run transfers on them one message at a time, or have a device handed to the kernel's
  own USB/IP implementation (the bridge). This library models the program from its Rust sources
  under \<open>src/src/\<close> and proves what makes each part correct, and where it is not.

  \<^bold>\<open>Theories, from the bottom up.\<close>

  \<^item> \<open>Prelude\<close>: machine integers, the result type, strings as their bytes, big endian fields with
    the contract \<open>wire_field\<close> every reader of a frame or record relies on. \<open>RustStd\<close>: Rust's
    formatting, parsing and splitting of strings. \<open>Os\<close>: the operating system as a record of
    operations over a state, \<open>anyhow\<close>'s errors, paths, and a polling loop.
  \<^item> \<open>Protocol\<close>: the types and messages of \<open>protocol/types.rs\<close>, \<open>protocol/messages.rs\<close> and the
    errors of \<open>error.rs\<close>, one record or datatype per Rust type.
  \<^item> \<open>Codec\<close>: \<open>protocol/codec.rs\<close>, \<open>decode\<close> and \<open>encode\<close> on a byte buffer. The contract
    \<open>incremental\<close> says what a decoder must do for chunking not to matter; the codec fulfils it.
  \<^item> \<open>Usb\<close>: the \<open>rusb\<close> crate as a record of operations over the USB state \<open>'w\<close>, and \<open>perform\<close>, with
    which the properties of the manager say which of its calls are made. \<open>UsbTransfer\<close>:
    \<open>server/transfer.rs\<close>. \<open>DeviceManager\<close>: \<open>server/device_manager.rs\<close>, the table of attached
    devices and sessions, with its invariant \<open>dm_inv\<close> and the contract \<open>session_table\<close>.
  \<^item> \<open>Connection\<close>: \<open>server/connection.rs\<close>, the handshake, a definition per message handler, the
    dispatch, the loop \<open>run\<close> and the cleanup. \<open>Server\<close>: \<open>server/listener.rs\<close> and the system of
    all connections over one manager, as the step relation \<open>sys_step\<close>, a step being what a task does
    under one hold of the manager's lock: a transfer begins under it and ends without it, and the
    cleanup is a step of its own. \<open>Interleaving\<close>: what other connections can do meanwhile.
  \<^item> \<open>Simulation\<close>: traces of a step relation and the contract \<open>simulation\<close>. \<open>Ownership\<close>: the abstract
    specification of the server, connections that take and drop devices, which \<open>sys_step\<close> implements.
  \<^item> \<open>KernelUsbip\<close>: \<open>server/kernel_usbip.rs\<close>, binding a device to the kernel's \<open>usbip_host\<close>, and
    the 312 bytes that describe it. \<open>ServerBridge\<close>: \<open>server/bridge.rs\<close>, the import exchange and
    the handover of the socket; a socket may keep the code waiting for ever, which is \<open>None\<close>.
  \<^item> \<open>Session\<close>: \<open>client/session.rs\<close>, the client's handshake and its ten requests. \<open>Loopback\<close>: that client
    connected to \<open>Connection\<close>'s server through the codec; the contract \<open>answered\<close> is what the client
    relies on, and the link fulfils it. \<open>Typing\<close>: which answers each request may get.
  \<^item> \<open>Vhci\<close>: \<open>bridge/vhci.rs\<close>, the kernel's virtual host controller. \<open>Mount\<close>: \<open>client/mount.rs\<close>, a
    remote device as a local one, up to the wait that ends when the device is lost. \<open>MountLink\<close>: a
    mount against the server's connection and bridge, with a kernel on each side; a plain connection
    is bridged, a TLS one dropped, as in \<open>run\<close>; the contract
    \<open>world_part\<close> lets code written for one system run on a part of a larger world.
  \<^item> \<open>Display\<close>: \<open>client/display.rs\<close>, what is printed and the parser of hex data. \<open>Tls\<close>: \<open>tls.rs\<close>.
    \<open>Cli\<close>: \<open>client/commands.rs\<close> and \<open>main.rs\<close>, the subcommands.

  \<^bold>\<open>How state corresponds.\<close> A Rust struct is a record with its fields, a hash map a map, an integer a
  word of its width, a \<open>String\<close> its UTF-8 bytes, a \<open>Result\<close> a sum whose left side is the error. An
  operation takes the state it borrows and returns the state it leaves, the outside world \<open>'w\<close>
  included. What is not in the sources is a parameter: bincode (\<open>bincode_enc\<close>, \<open>bincode_dec\<close>),
  HMAC-SHA256 (\<open>hmac\<close>), \<open>rusb\<close>, the operating system, the network, sockets, rustls, JSON, the order in which a hash map is
  walked, and whether a blocking task runs.

  \<^bold>\<open>What the lemmas show.\<close> The codec is a round trip on any chunking and bounds every frame.
  Transfers answer their request, are bounded and never run without a timeout. The manager keeps
  its tables consistent, attaches exclusively under a session that was never valid before, undoes an
  attach by the detach, down to the calls of the USB layer, and releases exactly the interfaces held. A connection
  is powerless without the key, can use only sessions of its own, runs transfers only on devices
  they hold, and leaves no trace when it ends; over all connections, sessions are private and a
  device is attached exactly while one live connection holds it, so that the server implements the
  abstract system of owners, and a transfer runs to its end on a device its connection holds. Every
  answer has the type its request calls for. The bridge comes to an end unless the client keeps it
  waiting or the kernel never lets go, and the device record loses nothing. Client and server agree in the handshake,
  the client's calls are the manager's operations at a distance, the two ends of the import exchange
  fit, a mount joins the server's kernel and the client's over one socket, the port taken is the first free one, a mounted device that is lost is noticed, and a hex dump
  can be read back. Where the code does not keep what it promises, the theorem states what it does: a
  detach or claim on another client's device, a handoff that skips the cleanup, a full read that
  cannot be answered, a device left bound, a version read as decimal, a length cut to 32 bits, a
  replayed handshake, session numbers that are void on the command line.

  \<^bold>\<open>Bounds.\<close> The session counter is a \<open>u64\<close> that wraps, so the invariants that need fresh sessions
  are stated for runs shorter than the counter. The loops are structural recursion over what
  remains to be done (turns, sessions, lines of a file, retries of \<open>wait_bound\<close> and \<open>await_release\<close>,
  which the code bounds by 20) or a decreasing buffer; the wait for the kernel and the wait of a mounted
  device may run for ever and are partial functions, and so may the import exchange, whose socket has no
  timeout: when the bridge and the mount end is characterised exactly. The calls of the operating system
  itself are taken to return. A hex
  dump's offsets have eight digits up to 4 GiB.

  \<^bold>\<open>Not modelled.\<close> Parsing the command line (clap), logging, and the runtime's scheduling, which appears as
  the order of steps and the outcome of waits. The framed stream gives a message, an error or its end
  for every read; a peer that is silent on it is a run that has not gone on. Closing a dropped USB handle
  is left to the environment. Packaging and unit files are not code.
\<close>

end
